(* ===== verification/Prelude.thy ===== *)
theory Prelude
  imports Complex_Main "HOL-Library.Word" "HOL-Library.State_Monad" "HOL-Library.Log_Nat"
begin

text \<open>
  The shared base of the development: machine integers of Go, string-keyed Go maps, and the
  way effects are modelled.

  A component that talks to the outside (the Kubernetes API server, the Convex backend, the
  clock) is a state-monad program over a state of two parts: the \<open>world\<close>, of a type nothing is
  known about, which the external operations read and change, and \<open>calls\<close>, the history of the
  external calls made so far with their outcomes. External operations are parameters; \<open>ext\<close> is
  the only way a program reaches one, and it records the call. An external operation may change
  the world in any way, so every interleaving with other actors of the cluster is covered.

  Two calculi carry the component proofs: \<open>wp\<close>, a weakest-precondition transformer whose
  equations are collected in \<open>wp_simps\<close>, and \<open>emits P\<close>, which says that every call a program
  makes satisfies \<open>P\<close> and whose rules are collected in \<open>emits_intros\<close>.
\<close>

named_theorems wp_simps \<open>equations that push wp through the program constructs\<close>
named_theorems emits_intros \<open>rules for the calls a program can make\<close>

section \<open>Machine integers and maps\<close>

type_synonym int32 = "32 word"
type_synonym int64 = "64 word"
type_synonym uint64 = "64 word"

type_synonym 'v strmap = "string \<Rightarrow> 'v option"

text \<open>Reading a key of a \<open>map[string]string\<close>: the zero value when the key is absent.\<close>

definition mget :: "string strmap \<Rightarrow> string \<Rightarrow> string" where
  "mget m k = (case m k of None \<Rightarrow> [] | Some v \<Rightarrow> v)"

lemma mget_upd [simp]: "mget (m(k \<mapsto> v)) k' = (if k' = k then v else mget m k')"
  by (simp add: mget_def)

lemma mget_empty [simp]: "mget Map.empty k = []"
  by (simp add: mget_def)

section \<open>Programs with a call history\<close>

record ('w, 'c) sys =
  world :: 'w
  calls :: "'c list"

type_synonym ('w, 'c, 'a) prog = "(('w, 'c) sys, 'a) state"

abbreviation ret :: "'a \<Rightarrow> ('s, 'a) state" where
  "ret \<equiv> State_Monad.return"

definition ext :: "('w \<Rightarrow> 'a \<times> 'w) \<Rightarrow> ('a \<Rightarrow> 'c) \<Rightarrow> ('w, 'c, 'a) prog" where
  "ext f mk = State (\<lambda>s. case f (world s) of (a, w) \<Rightarrow>
     (a, \<lparr>world = w, calls = calls s @ [mk a]\<rparr>))"

text \<open>A \<open>for ... range\<close> loop whose body carries no variable from one iteration to the next.\<close>

primrec foreach :: "('a \<Rightarrow> ('s, unit) state) \<Rightarrow> 'a list \<Rightarrow> ('s, unit) state" where
  "foreach f [] = ret ()"
| "foreach f (x # xs) = do { f x; foreach f xs }"

text \<open>
  A whole program seen as one operation on the world, for a component whose client reaches it
  through an interface and records one call for it.
\<close>

definition op_of :: "('w, 'c, 'a) prog \<Rightarrow> 'w \<Rightarrow> 'a \<times> 'w" where
  "op_of m w = (case run_state m \<lparr>world = w, calls = []\<rparr> of (a, s) \<Rightarrow> (a, world s))"

subsection \<open>Weakest preconditions\<close>

definition wp :: "('s, 'a) state \<Rightarrow> ('a \<Rightarrow> 's \<Rightarrow> bool) \<Rightarrow> 's \<Rightarrow> bool" where
  "wp m Q s = (case run_state m s of (a, s') \<Rightarrow> Q a s')"

lemma run_state_bind:
  "run_state (m \<bind> f) s = (case run_state m s of (a, s') \<Rightarrow> run_state (f a) s')"
  by (simp add: State_Monad.bind_def)

lemma wp_return [wp_simps]: "wp (ret x) Q s = Q x s"
  by (simp add: wp_def)

lemma wp_bind [wp_simps]: "wp (m \<bind> f) Q s = wp m (\<lambda>a. wp (f a) Q) s"
  by (simp add: wp_def run_state_bind split: prod.split)

lemma wp_ext [wp_simps]:
  "wp (ext f mk) Q s =
     (\<forall>a w. f (world s) = (a, w) \<longrightarrow> Q a \<lparr>world = w, calls = calls s @ [mk a]\<rparr>)"
  by (simp add: wp_def ext_def split: prod.split)

lemma wp_if [wp_simps]:
  "wp (if b then m else n) Q s = ((b \<longrightarrow> wp m Q s) \<and> (\<not> b \<longrightarrow> wp n Q s))"
  by simp

lemma wp_case_option [wp_simps]:
  "wp (case x of None \<Rightarrow> m | Some y \<Rightarrow> f y) Q s =
     ((x = None \<longrightarrow> wp m Q s) \<and> (\<forall>y. x = Some y \<longrightarrow> wp (f y) Q s))"
  by (cases x) simp_all

lemma wp_case_sum [wp_simps]:
  "wp (case x of Inl e \<Rightarrow> f e | Inr y \<Rightarrow> g y) Q s =
     ((\<forall>e. x = Inl e \<longrightarrow> wp (f e) Q s) \<and> (\<forall>y. x = Inr y \<longrightarrow> wp (g y) Q s))"
  by (cases x) simp_all

lemma wp_case_prod [wp_simps]:
  "wp (case x of (a, b) \<Rightarrow> f a b) Q s = (\<forall>a b. x = (a, b) \<longrightarrow> wp (f a b) Q s)"
  by (cases x) simp_all

lemma wp_ext_op_of:
  "wp (ext (op_of m) mk) Q s =
     wp m (\<lambda>a t. Q a \<lparr>world = world t, calls = calls s @ [mk a]\<rparr>) \<lparr>world = world s, calls = []\<rparr>"
  by (simp add: wp_def ext_def op_of_def split: prod.split)

lemma wp_mono: "wp m P s \<Longrightarrow> (\<And>a t. P a t \<Longrightarrow> Q a t) \<Longrightarrow> wp m Q s"
  by (auto simp: wp_def split: prod.splits)

lemma wp_conj: "wp m (\<lambda>a t. P a t \<and> Q a t) s \<longleftrightarrow> wp m P s \<and> wp m Q s"
  by (auto simp: wp_def split: prod.splits)

lemma wp_conjI: "wp m P s \<Longrightarrow> wp m Q s \<Longrightarrow> wp m (\<lambda>a t. P a t \<and> Q a t) s"
  by (simp add: wp_conj)

lemma wpD: "wp m Q s \<Longrightarrow> run_state m s = (a, s') \<Longrightarrow> Q a s'"
  by (simp add: wp_def)

lemma wpI: "(\<And>a s'. run_state m s = (a, s') \<Longrightarrow> Q a s') \<Longrightarrow> wp m Q s"
  by (simp add: wp_def split: prod.splits)

lemma wp_True [simp]: "wp m (\<lambda>_ _. True) s"
  by (simp add: wp_def split: prod.splits)

lemma wp_fst_snd: "wp m Q s \<longleftrightarrow> Q (fst (run_state m s)) (snd (run_state m s))"
  by (simp add: wp_def case_prod_beta)

text \<open>
  \<open>runs m w a cs w'\<close>: started in world \<open>w\<close>, the program ends in world \<open>w'\<close> with result \<open>a\<close>,
  after making the calls \<open>cs\<close> in this order.
\<close>

definition runs :: "('w, 'c, 'a) prog \<Rightarrow> 'w \<Rightarrow> 'a \<Rightarrow> 'c list \<Rightarrow> 'w \<Rightarrow> bool" where
  "runs m w a cs w' \<longleftrightarrow>
     run_state m \<lparr>world = w, calls = []\<rparr> = (a, \<lparr>world = w', calls = cs\<rparr>)"

lemma runs_wp: "runs m w a cs w' \<Longrightarrow> wp m Q \<lparr>world = w, calls = []\<rparr> \<Longrightarrow> Q a \<lparr>world = w', calls = cs\<rparr>"
  by (simp add: runs_def wp_def)

lemma runs_total: "\<exists>a cs w'. runs m w a cs w'"
  by (cases "run_state m \<lparr>world = w, calls = []\<rparr>")
     (metis runs_def sys.surjective unit.exhaust)

subsection \<open>The calls a program makes\<close>

definition emits :: "('c \<Rightarrow> bool) \<Rightarrow> ('w, 'c, 'a) prog \<Rightarrow> bool" where
  "emits P m \<longleftrightarrow> (\<forall>s. wp m (\<lambda>_ t. \<exists>cs. calls t = calls s @ cs \<and> list_all P cs) s)"

lemma emits_return [emits_intros]: "emits P (ret x)"
  by (simp add: emits_def wp_simps)

lemma emits_bind [emits_intros]:
  fixes m :: "('w, 'c, 'a) prog" and f :: "'a \<Rightarrow> ('w, 'c, 'b) prog"
  assumes m: "emits P m" and f: "\<And>a. emits P (f a)"
  shows "emits P (m \<bind> f)"
  unfolding emits_def wp_bind
proof
  fix s :: "('w, 'c) sys"
  from m have "wp m (\<lambda>_ t. \<exists>cs. calls t = calls s @ cs \<and> list_all P cs) s"
    by (simp add: emits_def)
  then show "wp m (\<lambda>a. wp (f a) (\<lambda>_ t. \<exists>cs. calls t = calls s @ cs \<and> list_all P cs)) s"
  proof (rule wp_mono)
    fix a and t :: "('w, 'c) sys"
    assume "\<exists>cs. calls t = calls s @ cs \<and> list_all P cs"
    then obtain cs where cs: "calls t = calls s @ cs" "list_all P cs" by blast
    from f [of a] have "wp (f a) (\<lambda>_ u. \<exists>ds. calls u = calls t @ ds \<and> list_all P ds) t"
      by (simp add: emits_def)
    then show "wp (f a) (\<lambda>_ u. \<exists>cs. calls u = calls s @ cs \<and> list_all P cs) t"
      by (rule wp_mono) (use cs in auto)
  qed
qed

lemma emits_ext [emits_intros]: "(\<And>a. P (mk a)) \<Longrightarrow> emits P (ext f mk)"
  by (simp add: emits_def wp_simps)

lemma emits_if [emits_intros]:
  "(b \<Longrightarrow> emits P m) \<Longrightarrow> (\<not> b \<Longrightarrow> emits P n) \<Longrightarrow> emits P (if b then m else n)"
  by simp

lemma emits_case_option [emits_intros]:
  "(x = None \<Longrightarrow> emits P m) \<Longrightarrow> (\<And>y. x = Some y \<Longrightarrow> emits P (f y)) \<Longrightarrow>
   emits P (case x of None \<Rightarrow> m | Some y \<Rightarrow> f y)"
  by (cases x) simp_all

lemma emits_case_sum [emits_intros]:
  "(\<And>e. x = Inl e \<Longrightarrow> emits P (f e)) \<Longrightarrow> (\<And>y. x = Inr y \<Longrightarrow> emits P (g y)) \<Longrightarrow>
   emits P (case x of Inl e \<Rightarrow> f e | Inr y \<Rightarrow> g y)"
  by (cases x) simp_all

lemma emits_case_prod [emits_intros]:
  "(\<And>a b. x = (a, b) \<Longrightarrow> emits P (f a b)) \<Longrightarrow> emits P (case x of (a, b) \<Rightarrow> f a b)"
  by (cases x) simp_all

lemma emits_foreach [emits_intros]: "(\<And>x. emits P (f x)) \<Longrightarrow> emits P (foreach f xs)"
  by (induction xs) (auto intro!: emits_intros)

lemma emits_mono: "emits P m \<Longrightarrow> (\<And>c. P c \<Longrightarrow> Q c) \<Longrightarrow> emits Q m"
  unfolding emits_def by (blast intro: wp_mono list.pred_mono_strong)

lemma emitsD:
  assumes "emits P m" "run_state m s = (a, t)"
  shows "\<exists>cs. calls t = calls s @ cs \<and> list_all P cs"
  using assms wpD [of m _ s a t] by (fastforce simp: emits_def)

lemma emits_wp:
  assumes "emits P m"
    and "\<And>a t cs. calls t = calls s @ cs \<Longrightarrow> list_all P cs \<Longrightarrow> Q a t"
  shows "wp m Q s"
proof (rule wpI)
  fix a t
  assume "run_state m s = (a, t)"
  then obtain cs where "calls t = calls s @ cs" "list_all P cs"
    using emitsD [OF assms(1)] by blast
  then show "Q a t" by (rule assms(2))
qed

lemma emits_runs: "emits P m \<Longrightarrow> runs m w a cs w' \<Longrightarrow> list_all P cs"
  using emitsD [of P m] by (fastforce simp: runs_def)

subsection \<open>Inversion of runs\<close>

text \<open>
  A program is \<open>proper\<close> when it only appends to the history and does not read it. Every program
  built from the constructs above is; for these, a run of a sequence is a run of its parts.
\<close>

definition proper :: "('w, 'c, 'a) prog \<Rightarrow> bool" where
  "proper m \<longleftrightarrow> (\<forall>s. run_state m s =
     (case run_state m \<lparr>world = world s, calls = []\<rparr> of
        (a, t) \<Rightarrow> (a, \<lparr>world = world t, calls = calls s @ calls t\<rparr>)))"

lemma proper_return [simp]: "proper (ret x)"
  by (simp add: proper_def)

lemma proper_ext [simp]: "proper (ext f mk)"
  by (simp add: proper_def ext_def split: prod.split)

lemma properD:
  assumes "proper m"
  shows "run_state m \<lparr>world = w, calls = xs\<rparr> = (a, t) \<longleftrightarrow>
    (\<exists>cs w'. runs m w a cs w' \<and> t = \<lparr>world = w', calls = xs @ cs\<rparr>)"
proof -
  obtain b cs w' where r: "run_state m \<lparr>world = w, calls = []\<rparr> = (b, \<lparr>world = w', calls = cs\<rparr>)"
    by (metis (full_types) old.unit.exhaust surj_pair sys.surjective)
  with assms have "run_state m \<lparr>world = w, calls = xs\<rparr> = (b, \<lparr>world = w', calls = xs @ cs\<rparr>)"
    unfolding proper_def by (drule_tac spec [of _ "\<lparr>world = w, calls = xs\<rparr>"]) simp
  with r show ?thesis by (auto simp: runs_def)
qed

lemma proper_bind [simp]:
  fixes m :: "('w, 'c, 'a) prog" and f :: "'a \<Rightarrow> ('w, 'c, 'b) prog"
  assumes "proper m" "\<And>a. proper (f a)"
  shows "proper (m \<bind> f)"
  unfolding proper_def
proof
  fix s :: "('w, 'c) sys"
  obtain xs w where s: "s = \<lparr>world = w, calls = xs\<rparr>" by (cases s)
  obtain a cs w1 where m: "runs m w a cs w1" using runs_total [of m w] by blast
  obtain b ds w2 where f: "runs (f a) w1 b ds w2" using runs_total [of "f a" w1] by blast
  have "run_state (m \<bind> f) \<lparr>world = w, calls = ys\<rparr> = (b, \<lparr>world = w2, calls = ys @ cs @ ds\<rparr>)" for ys
  proof -
    have "run_state m \<lparr>world = w, calls = ys\<rparr> = (a, \<lparr>world = w1, calls = ys @ cs\<rparr>)"
      using m assms(1) by (simp add: properD)
    moreover have "run_state (f a) \<lparr>world = w1, calls = ys @ cs\<rparr> =
        (b, \<lparr>world = w2, calls = (ys @ cs) @ ds\<rparr>)"
      using f assms(2) by (simp add: properD del: append_assoc)
    ultimately show ?thesis by (simp add: run_state_bind)
  qed
  then show "run_state (m \<bind> f) s = (case run_state (m \<bind> f) \<lparr>world = world s, calls = []\<rparr> of
      (a, t) \<Rightarrow> (a, \<lparr>world = world t, calls = calls s @ calls t\<rparr>))"
    by (simp add: s)
qed

lemma proper_if [simp]: "(b \<Longrightarrow> proper m) \<Longrightarrow> (\<not> b \<Longrightarrow> proper n) \<Longrightarrow> proper (if b then m else n)"
  by simp

lemma proper_case_option [simp]:
  "(x = None \<Longrightarrow> proper m) \<Longrightarrow> (\<And>y. x = Some y \<Longrightarrow> proper (f y)) \<Longrightarrow>
   proper (case x of None \<Rightarrow> m | Some y \<Rightarrow> f y)"
  by (cases x) simp_all

lemma proper_case_sum [simp]:
  "(\<And>e. x = Inl e \<Longrightarrow> proper (f e)) \<Longrightarrow> (\<And>y. x = Inr y \<Longrightarrow> proper (g y)) \<Longrightarrow>
   proper (case x of Inl e \<Rightarrow> f e | Inr y \<Rightarrow> g y)"
  by (cases x) simp_all

lemma proper_case_prod [simp]:
  "(\<And>a b. x = (a, b) \<Longrightarrow> proper (f a b)) \<Longrightarrow> proper (case x of (a, b) \<Rightarrow> f a b)"
  by (cases x) simp_all

lemma proper_foreach [simp]: "(\<And>x. proper (f x)) \<Longrightarrow> proper (foreach f xs)"
  by (induction xs) simp_all

named_theorems runs_simps \<open>inversion of runs over the program constructs\<close>

lemma runs_return [runs_simps]: "runs (ret x) w a cs w' \<longleftrightarrow> a = x \<and> cs = [] \<and> w' = w"
  by (auto simp: runs_def)

lemma runs_ext [runs_simps]: "runs (ext f mk) w a cs w' \<longleftrightarrow> f w = (a, w') \<and> cs = [mk a]"
  by (auto simp: runs_def ext_def split: prod.splits)

lemma runs_bind [runs_simps]:
  assumes "\<And>a. proper (f a)"
  shows "runs (m \<bind> f) w b cs w' \<longleftrightarrow>
    (\<exists>a cs1 w1 cs2. runs m w a cs1 w1 \<and> runs (f a) w1 b cs2 w' \<and> cs = cs1 @ cs2)"
proof -
  obtain a cs1 w1 where m: "runs m w a cs1 w1" using runs_total [of m w] by blast
  then have "runs m w a' cs' w1' \<longleftrightarrow> a' = a \<and> cs' = cs1 \<and> w1' = w1" for a' cs' w1'
    by (auto simp: runs_def)
  moreover from m have "run_state (m \<bind> f) \<lparr>world = w, calls = []\<rparr> =
      run_state (f a) \<lparr>world = w1, calls = cs1\<rparr>"
    by (simp add: runs_def run_state_bind)
  ultimately show ?thesis
    using properD [OF assms, of a w1 cs1] by (auto simp: runs_def [of "m \<bind> f"])
qed

lemma runs_bindE:
  assumes "runs (m \<bind> f) w b cs w'" and "\<And>a. proper (f a)"
  obtains a cs1 w1 cs2 where "runs m w a cs1 w1" "cs = cs1 @ cs2" "runs (f a) w1 b cs2 w'"
  using assms by (auto simp: runs_bind)

lemma runs_bindI:
  "runs m w a cs1 w1 \<Longrightarrow> runs (f a) w1 b cs2 w' \<Longrightarrow> (\<And>a. proper (f a)) \<Longrightarrow>
   runs (m \<bind> f) w b (cs1 @ cs2) w'"
  by (auto simp: runs_bind)

lemma runs_ext_bindI:
  "g w = (a, w1) \<Longrightarrow> runs (f a) w1 b ds w' \<Longrightarrow> (\<And>a. proper (f a)) \<Longrightarrow>
   runs (ext g mk \<bind> f) w b (mk a # ds) w'"
  by (auto simp: runs_bind runs_ext)

lemma runs_pair_bindE:
  assumes "runs (m \<bind> (\<lambda>(a, b). f a b)) w r cs w'" and "\<And>a b. proper (f a b)"
  obtains a b cs1 w1 cs2 where "runs m w (a, b) cs1 w1" "cs = cs1 @ cs2" "runs (f a b) w1 r cs2 w'"
  using assms by (auto simp: runs_bind)

lemma runs_ext_bindE:
  assumes "runs (ext g mk \<bind> f) w b cs w'" and "\<And>a. proper (f a)"
  obtains a w1 ds where "g w = (a, w1)" "cs = mk a # ds" "runs (f a) w1 b ds w'"
  using assms by (auto simp: runs_bind runs_ext)

lemma runs_if [runs_simps]:
  "runs (if b then m else n) w a cs w' \<longleftrightarrow> (if b then runs m w a cs w' else runs n w a cs w')"
  by simp

lemma runs_case_option [runs_simps]:
  "runs (case x of None \<Rightarrow> m | Some y \<Rightarrow> f y) w a cs w' \<longleftrightarrow>
     (case x of None \<Rightarrow> runs m w a cs w' | Some y \<Rightarrow> runs (f y) w a cs w')"
  by (cases x) simp_all

lemma runs_case_sum [runs_simps]:
  "runs (case x of Inl e \<Rightarrow> f e | Inr y \<Rightarrow> g y) w a cs w' \<longleftrightarrow>
     (case x of Inl e \<Rightarrow> runs (f e) w a cs w' | Inr y \<Rightarrow> runs (g y) w a cs w')"
  by (cases x) simp_all

lemma runs_case_prod [runs_simps]:
  "runs (case x of (a, b) \<Rightarrow> f a b) w r cs w' \<longleftrightarrow> (case x of (a, b) \<Rightarrow> runs (f a b) w r cs w')"
  by (cases x) simp_all

end
