(* ===== verification/Go_Std.thy ===== *)
theory Go_Std
  imports Prelude
begin

text \<open>
  What the sources use of the Go language and its standard library: byte strings and the
  operations of package \<open>strings\<close>, decimal and quoted formatting, error values with wrapping and
  \<open>errors.Is\<close>, the dynamic values an \<open>any\<close> can hold with Go's interface equality, and float64
  numbers. A Go string is the list of its bytes. A finite float64 is the rational number it
  denotes; JSON has no other floats.
\<close>

section \<open>Package strings\<close>

text \<open>\<open>strings.Cut\<close> with a one-byte separator: the parts around its first occurrence.\<close>

fun cut :: "char \<Rightarrow> string \<Rightarrow> (string \<times> string) option" where
  "cut c [] = None"
| "cut c (x # xs) =
     (if x = c then Some ([], xs) else map_option (\<lambda>(a, b). (x # a, b)) (cut c xs))"

lemma cut_append [simp]: "c \<notin> set xs \<Longrightarrow> cut c (xs @ c # ys) = Some (xs, ys)"
  by (induction xs) auto

lemma cut_SomeD: "cut c s = Some (a, b) \<Longrightarrow> s = a @ c # b \<and> c \<notin> set a"
  by (induction s arbitrary: a) (auto split: if_splits)

lemma cut_Some_iff: "cut c s = Some (a, b) \<longleftrightarrow> s = a @ c # b \<and> c \<notin> set a"
  using cut_SomeD cut_append by metis

lemma cut_None_iff: "cut c s = None \<longleftrightarrow> c \<notin> set s"
  by (induction s) auto

definition cut_prefix :: "string \<Rightarrow> string \<Rightarrow> string option" where
  "cut_prefix p s = (if take (length p) s = p then Some (drop (length p) s) else None)"

lemma cut_prefix_append [simp]: "cut_prefix p (p @ s) = Some s"
  by (simp add: cut_prefix_def)

lemma cut_prefix_Some_iff: "cut_prefix p s = Some t \<longleftrightarrow> s = p @ t"
  by (auto simp: cut_prefix_def) (metis append_take_drop_id)

text \<open>\<open>strings.TrimSpace\<close>: the runes of \<open>unicode.IsSpace\<close>, given by their UTF-8 encoding, are removed at both
  ends. \<open>trim_left rs\<close> removes the strings \<open>rs\<close> in front for as long as there is one.\<close>

definition white_runes :: "string list" where
  "white_runes = map (map (char_of :: nat \<Rightarrow> char))
     ([[9], [10], [11], [12], [13], [32], [0xC2, 0x85], [0xC2, 0xA0], [0xE1, 0x9A, 0x80]] @
      map (\<lambda>b. [0xE2, 0x80, b]) ([0x80..<0x8B] @ [0xA8, 0xA9, 0xAF]) @ [[0xE2, 0x81, 0x9F], [0xE3, 0x80, 0x80]])"

function trim_left :: "string list \<Rightarrow> string \<Rightarrow> string" where
  "trim_left rs s = (case find (\<lambda>r. r \<noteq> [] \<and> take (length r) s = r) rs of
     None \<Rightarrow> s
   | Some r \<Rightarrow> trim_left rs (drop (length r) s))"
  by pat_completeness auto

termination
proof (relation "measure (\<lambda>(rs, s). length s)")
  fix rs :: "string list" and s r
  assume "find (\<lambda>r. r \<noteq> [] \<and> take (length r) s = r) rs = Some r"
  then have "r \<noteq> []" "take (length r) s = r" by (auto simp: find_Some_iff)
  then show "((rs, drop (length r) s), rs, s) \<in> measure (\<lambda>(rs, s). length s)" by (cases s) auto
qed simp

declare trim_left.simps [simp del]

definition trim_space :: "string \<Rightarrow> string" where
  "trim_space s = rev (trim_left (map rev white_runes) (rev (trim_left white_runes s)))"

lemma set_trim_left: "set (trim_left rs s) \<subseteq> set s"
proof (induction rs s rule: trim_left.induct)
  case (1 rs s)
  then show ?case
    by (subst trim_left.simps) (auto split: option.split dest: in_set_dropD)
qed

lemma trim_examples [simp]: "trim_space ''secret'' = ''secret''" "trim_space ''new'' = ''new''"
  by code_simp+

lemma set_trim_space: "set (trim_space s) \<subseteq> set s"
  using set_trim_left [of "map rev white_runes" "rev (trim_left white_runes s)"] set_trim_left [of white_runes s]
  by (auto simp: trim_space_def)

text \<open>\<open>strings.SplitSeq\<close> with a one-byte separator (never the empty list), and \<open>strings.Join\<close>.\<close>

fun split_on :: "char \<Rightarrow> string \<Rightarrow> string list" where
  "split_on c [] = [[]]"
| "split_on c (x # xs) =
     (if x = c then [] # split_on c xs
      else (case split_on c xs of [] \<Rightarrow> [[x]] | y # ys \<Rightarrow> (x # y) # ys))"

fun join :: "string \<Rightarrow> string list \<Rightarrow> string" where
  "join sep [] = []"
| "join sep [x] = x"
| "join sep (x # y # ys) = x @ sep @ join sep (y # ys)"

lemma split_on_not_Nil [simp]: "split_on c s \<noteq> []"
  by (induction s) (auto split: list.splits)

lemma split_on_no_sep: "x \<in> set (split_on c s) \<Longrightarrow> c \<notin> set x"
  by (induction s arbitrary: x) (auto split: list.splits if_splits)

lemma join_split_on: "join [c] (split_on c s) = s"
proof (induction s)
  case (Cons x xs)
  then show ?case
    by (cases "split_on c xs" rule: list.exhaust; cases "tl (split_on c xs)")
       (auto simp: neq_Nil_conv)
qed simp

section \<open>Formatting\<close>

definition digit_char :: "nat \<Rightarrow> char" where
  "digit_char d = char_of (48 + d)"

fun show_nat :: "nat \<Rightarrow> string" where
  "show_nat n = (if n < 10 then [digit_char n] else show_nat (n div 10) @ [digit_char (n mod 10)])"

declare show_nat.simps [simp del]

definition show_int :: "int \<Rightarrow> string" where
  "show_int i = (if i < 0 then CHR ''-'' # show_nat (nat (- i)) else show_nat (nat i))"

lemma show_nat_not_Nil [simp]: "show_nat n \<noteq> []"
  by (subst show_nat.simps) simp

text \<open>Decimal digits, and the number a list of them denotes.\<close>

definition is_digit :: "char \<Rightarrow> bool" where
  "is_digit c \<longleftrightarrow> 48 \<le> (of_char c :: nat) \<and> (of_char c :: nat) \<le> 57"

definition digit_value :: "char \<Rightarrow> nat" where
  "digit_value c = of_char c - 48"

definition decimal :: "nat \<Rightarrow> string \<Rightarrow> nat" where
  "decimal x ds = foldl (\<lambda>a c. a * 10 + digit_value c) x ds"

lemma decimal_simps [simp]: "decimal x [] = x" "decimal x (c # ds) = decimal (x * 10 + digit_value c) ds"
  "decimal x (ds @ es) = decimal (decimal x ds) es"
  by (simp_all add: decimal_def)

lemma dropWhile_shorter: "takeWhile P xs \<noteq> [] \<Longrightarrow> length (dropWhile P xs) < length xs"
  by (cases xs) (auto split: if_splits simp: less_Suc_eq_le length_dropWhile_le)

lemma is_digit_digit_char [simp]: "d < 10 \<Longrightarrow> is_digit (digit_char d)" "d < 10 \<Longrightarrow> digit_value (digit_char d) = d"
  by (simp_all add: is_digit_def digit_value_def digit_char_def of_char_of)

lemma digit_value_less: "is_digit c \<Longrightarrow> digit_value c < 10"
  unfolding is_digit_def digit_value_def by linarith

lemma show_nat_digits: "list_all is_digit (show_nat n)"
proof (induction n rule: show_nat.induct)
  case (1 n)
  then show ?case by (subst show_nat.simps) simp
qed

lemma decimal_show_nat: "decimal 0 (show_nat n) = n"
proof (induction n rule: show_nat.induct)
  case (1 n)
  then show ?case by (subst show_nat.simps) simp
qed

lemma hd_show_nat: "is_digit (hd (show_nat n))"
  using show_nat_digits [of n] by (cases "show_nat n") auto

text \<open>
  \<open>%q\<close>: a double-quoted string with Go escapes. Bytes of multi-byte runes stand for
  themselves, as \<open>strconv.Quote\<close> leaves printable runes.
\<close>

definition hex_char :: "nat \<Rightarrow> char" where
  "hex_char d = (if d < 10 then char_of (48 + d) else char_of (87 + d))"

definition quote_byte :: "char \<Rightarrow> string" where
  "quote_byte c = (let n = (of_char c :: nat); bs = CHR 0x5C in
     if n = 34 \<or> n = 92 then [bs, c]
     else if n = 7 then [bs, CHR ''a''] else if n = 8 then [bs, CHR ''b'']
     else if n = 12 then [bs, CHR ''f''] else if n = 10 then [bs, CHR ''n'']
     else if n = 13 then [bs, CHR ''r''] else if n = 9 then [bs, CHR ''t'']
     else if n = 11 then [bs, CHR ''v'']
     else if n < 32 \<or> n = 127 then [bs, CHR ''x'', hex_char (n div 16), hex_char (n mod 16)]
     else [c])"

definition go_quote :: "string \<Rightarrow> string" where
  "go_quote s = CHR 0x22 # concat (map quote_byte s) @ [CHR 0x22]"

section \<open>Errors\<close>

text \<open>
  The package-level error variables of the sources; two of them share a text and still are
  different values, as \<open>errors.New\<close> makes them.
\<close>

datatype sentinel =
    ErrImageRequired | ErrUnknownTemplateRender
  | ErrUnknownTemplate | ErrInvalidConfig
  | ErrUnauthorized | ErrLifecycleStale
  | ErrMalformedToken | ErrInvalidSignature | ErrScopeMismatch | ErrExpired

fun sentinel_text :: "sentinel \<Rightarrow> string" where
  "sentinel_text ErrImageRequired = ''spec.image is required when spec.templateName is unset''"
| "sentinel_text ErrUnknownTemplateRender = ''unknown template''"
| "sentinel_text ErrUnknownTemplate = ''unknown template''"
| "sentinel_text ErrInvalidConfig = ''invalid config''"
| "sentinel_text ErrUnauthorized = ''convex rejected credential''"
| "sentinel_text ErrLifecycleStale = ''workload not in an in-flight status''"
| "sentinel_text ErrMalformedToken = ''gateway: malformed token''"
| "sentinel_text ErrInvalidSignature = ''gateway: invalid signature''"
| "sentinel_text ErrScopeMismatch = ''gateway: token not valid for this workload''"
| "sentinel_text ErrExpired = ''gateway: token expired''"

text \<open>The reasons of Kubernetes API errors the sources ask about.\<close>

datatype api_reason = NotFound | AlreadyExists | Conflict | OtherReason string

text \<open>
  \<open>Wrap pre e suf\<close> is \<open>fmt.Errorf("pre%wsuf", e)\<close>; \<open>ErrText\<close> an error with a text only.
  \<open>GoPanic\<close> stands for a run-time panic of the code that would return it.
\<close>

datatype go_error =
    Sentinel sentinel
  | ApiErr api_reason string
  | ErrText string
  | Wrap string go_error string
  | GoPanic string

primrec error_text :: "go_error \<Rightarrow> string" where
  "error_text (Sentinel x) = sentinel_text x"
| "error_text (ApiErr r t) = t"
| "error_text (ErrText t) = t"
| "error_text (Wrap p e q) = p @ error_text e @ q"
| "error_text (GoPanic t) = t"

primrec errors_is :: "go_error \<Rightarrow> sentinel \<Rightarrow> bool" where
  "errors_is (Sentinel x) y = (x = y)"
| "errors_is (ApiErr r t) y = False"
| "errors_is (ErrText t) y = False"
| "errors_is (Wrap p e q) y = errors_is e y"
| "errors_is (GoPanic t) y = False"

text \<open>\<open>apierrors.IsNotFound\<close> and its kin look through wrapped errors.\<close>

primrec reason_of :: "go_error \<Rightarrow> api_reason option" where
  "reason_of (Sentinel x) = None"
| "reason_of (ApiErr r t) = Some r"
| "reason_of (ErrText t) = None"
| "reason_of (Wrap p e q) = reason_of e"
| "reason_of (GoPanic t) = None"

definition IsNotFound :: "go_error \<Rightarrow> bool" where
  "IsNotFound e = (reason_of e = Some NotFound)"

definition IsConflict :: "go_error \<Rightarrow> bool" where
  "IsConflict e = (reason_of e = Some Conflict)"

definition IsAlreadyExists :: "go_error \<Rightarrow> bool" where
  "IsAlreadyExists e = (reason_of e = Some AlreadyExists)"

lemma reason_simps [simp]:
  "IsNotFound (Wrap p e q) = IsNotFound e" "IsConflict (Wrap p e q) = IsConflict e"
  "IsAlreadyExists (Wrap p e q) = IsAlreadyExists e"
  "IsNotFound (ApiErr r t) = (r = NotFound)" "IsConflict (ApiErr r t) = (r = Conflict)"
  "IsAlreadyExists (ApiErr r t) = (r = AlreadyExists)"
  "\<not> IsNotFound (ErrText t)" "\<not> IsConflict (ErrText t)" "\<not> IsAlreadyExists (ErrText t)"
  "\<not> IsNotFound (Sentinel x)" "\<not> IsConflict (Sentinel x)" "\<not> IsAlreadyExists (Sentinel x)"
  by (simp_all add: IsNotFound_def IsConflict_def IsAlreadyExists_def)

section \<open>Dynamic values\<close>

datatype gvalue =
    VNil
  | VBool bool
  | VFloat rat
  | VInt int
  | VInt32 int32
  | VStr string
  | VList "gvalue list"
  | VMap "(string \<times> gvalue) list"

type_synonym params = "gvalue strmap"

text \<open>Reading a key of a \<open>map[string]any\<close>: nil when absent.\<close>

definition vget :: "params \<Rightarrow> string \<Rightarrow> gvalue" where
  "vget m k = (case m k of None \<Rightarrow> VNil | Some v \<Rightarrow> v)"

text \<open>
  Interface equality \<open>a == b\<close>: false on different dynamic types, the values' equality on a
  comparable type, and a run-time panic (\<open>None\<close>) on two slices or two maps.
\<close>

fun go_eq :: "gvalue \<Rightarrow> gvalue \<Rightarrow> bool option" where
  "go_eq VNil VNil = Some True"
| "go_eq (VBool a) (VBool b) = Some (a = b)"
| "go_eq (VFloat a) (VFloat b) = Some (a = b)"
| "go_eq (VInt a) (VInt b) = Some (a = b)"
| "go_eq (VInt32 a) (VInt32 b) = Some (a = b)"
| "go_eq (VStr a) (VStr b) = Some (a = b)"
| "go_eq (VList a) (VList b) = None"
| "go_eq (VMap a) (VMap b) = None"
| "go_eq _ _ = Some False"

fun scalar :: "gvalue \<Rightarrow> bool" where
  "scalar (VList _) = False"
| "scalar (VMap _) = False"
| "scalar _ = True"

lemma go_eq_scalar: "scalar b \<Longrightarrow> go_eq a b = Some (a = b)"
  by (cases a; cases b) auto

lemma go_eq_Some: "go_eq a b = Some r \<Longrightarrow> r = (a = b)"
  by (cases a; cases b) auto

section \<open>Numbers\<close>

text \<open>Conversion of a float to an integer discards the fraction.\<close>

definition trunc :: "rat \<Rightarrow> int" where
  "trunc r = (if 0 \<le> r then \<lfloor>r\<rfloor> else \<lceil>r\<rceil>)"

definition int32_range :: "int \<Rightarrow> bool" where
  "int32_range i = (- (2 ^ 31) \<le> i \<and> i < 2 ^ 31)"

lemma sint_int32 [simp]: "int32_range i \<Longrightarrow> sint (word_of_int i :: int32) = i"
  by (simp add: int32_range_def signed_take_bit_int_eq_self sint_sbintrunc')

text \<open>\<open>float64(n)\<close> of an unsigned integer: the nearest float64, ties to even.\<close>

definition f64_of_nat :: "nat \<Rightarrow> nat" where
  "f64_of_nat n =
     (if n < 2 ^ 53 then n
      else let k = floorlog 2 n - 53; q = n div 2 ^ k; r = n mod 2 ^ k; h = 2 ^ (k - 1) in
        (if r < h \<or> (r = h \<and> even q) then q else q + 1) * 2 ^ k)"

lemma f64_of_nat_exact: "n < 2 ^ 53 \<Longrightarrow> f64_of_nat n = n"
  by (simp add: f64_of_nat_def)

end
