(* ===== verification/JsonText.thy ===== *)
theory JsonText
  imports Go_Std
begin

text \<open>
  Package \<open>encoding/json\<close> as the sources use it, on the level of texts: the documents, how
  \<open>json.Marshal\<close> writes one, and how \<open>json.Unmarshal\<close> and a \<open>json.Decoder\<close> read one. Strings are
  bytes; the writer escapes control and HTML characters and replaces what is not UTF-8, as the reader
  does. The reader is the pushdown automaton of the package's scanner with its bound on nesting. A
  number is kept as its literal.
\<close>

section \<open>UTF-8\<close>

definition byte :: "char \<Rightarrow> nat" where
  "byte c = of_char c"

definition byte_in :: "nat \<Rightarrow> nat \<Rightarrow> char \<Rightarrow> bool" where
  "byte_in lo hi c \<longleftrightarrow> lo \<le> byte c \<and> byte c \<le> hi"

text \<open>\<open>utf8.DecodeRune\<close>: the size of the rune a text begins with, 0 when it is not UTF-8.\<close>

fun rune_size :: "string \<Rightarrow> nat" where
  "rune_size [] = 0"
| "rune_size (a # s) =
     (let n = byte a in
      if n < 128 then 1
      else if 194 \<le> n \<and> n \<le> 223 then
        (case s of b # _ \<Rightarrow> if byte_in 128 191 b then 2 else 0 | _ \<Rightarrow> 0)
      else if 224 \<le> n \<and> n \<le> 239 then
        (case s of b # c # _ \<Rightarrow>
           if byte_in (if n = 224 then 160 else 128) (if n = 237 then 159 else 191) b \<and> byte_in 128 191 c then 3 else 0
         | _ \<Rightarrow> 0)
      else if 240 \<le> n \<and> n \<le> 244 then
        (case s of b # c # d # _ \<Rightarrow>
           if byte_in (if n = 240 then 144 else 128) (if n = 244 then 143 else 191) b \<and>
              byte_in 128 191 c \<and> byte_in 128 191 d then 4 else 0
         | _ \<Rightarrow> 0)
      else 0)"

definition replacement :: string where
  "replacement = map char_of [239, 191, 189 :: nat]"

text \<open>\<open>utf8.AppendRune\<close> for a code point that is no surrogate.\<close>

definition utf8 :: "nat \<Rightarrow> string" where
  "utf8 r = map char_of
     (if r < 128 then [r]
      else if r < 2048 then [192 + r div 64, 128 + r mod 64]
      else if r < 65536 then [224 + r div 4096, 128 + r div 64 mod 64, 128 + r mod 64]
      else [240 + r div 262144, 128 + r div 4096 mod 64, 128 + r div 64 mod 64, 128 + r mod 64])"

text \<open>A text with every byte that is not part of a rune replaced.\<close>

function to_valid :: "string \<Rightarrow> string" where
  "to_valid [] = []"
| "to_valid (a # s) =
     (case rune_size (a # s) of
        0 \<Rightarrow> replacement @ to_valid s
      | Suc k \<Rightarrow> a # take k s @ to_valid (drop k s))"
  by pat_completeness auto
termination by (relation "measure length") auto

function valid_utf8 :: "string \<Rightarrow> bool" where
  "valid_utf8 [] = True"
| "valid_utf8 (a # s) =
     (case rune_size (a # s) of 0 \<Rightarrow> False | Suc k \<Rightarrow> valid_utf8 (drop k s))"
  by pat_completeness auto
termination by (relation "measure length") auto

section \<open>Strings\<close>

abbreviation quotation :: char where "quotation \<equiv> CHR 0x22"
abbreviation backslash :: char where "backslash \<equiv> CHR 0x5C"

text \<open>\<open>appendString\<close> with the escaping of HTML that \<open>Marshal\<close> does.\<close>

definition u_escape :: "nat \<Rightarrow> string" where
  "u_escape n = [backslash, CHR ''u'', hex_char (n div 4096), hex_char (n div 256 mod 16),
     hex_char (n div 16 mod 16), hex_char (n mod 16)]"

definition escape_ascii :: "char \<Rightarrow> string" where
  "escape_ascii c = (let n = byte c in
     if n = 34 \<or> n = 92 then [backslash, c]
     else if n = 8 then [backslash, CHR ''b''] else if n = 12 then [backslash, CHR ''f'']
     else if n = 10 then [backslash, CHR ''n''] else if n = 13 then [backslash, CHR ''r'']
     else if n = 9 then [backslash, CHR ''t'']
     else if n < 32 \<or> n = 60 \<or> n = 62 \<or> n = 38 then u_escape n
     else [c])"

function escape :: "string \<Rightarrow> string" where
  "escape [] = []"
| "escape (a # s) =
     (if byte a < 128 then escape_ascii a @ escape s
      else (case rune_size (a # s) of
        0 \<Rightarrow> u_escape 65533 @ escape s
      | Suc k \<Rightarrow>
          (if a # take k s = utf8 8232 then u_escape 8232
           else if a # take k s = utf8 8233 then u_escape 8233
           else a # take k s) @ escape (drop k s)))"
  by pat_completeness auto
termination by (relation "measure length") auto

definition json_string :: "string \<Rightarrow> string" where
  "json_string s = quotation # escape s @ [quotation]"

text \<open>\<open>unquote\<close>, on the text after the opening quotation mark: the string and what follows it.\<close>

definition unhex_digit :: "char \<Rightarrow> nat option" where
  "unhex_digit c = (let n = byte c in
     if 48 \<le> n \<and> n \<le> 57 then Some (n - 48)
     else if 97 \<le> n \<and> n \<le> 102 then Some (n - 87)
     else if 65 \<le> n \<and> n \<le> 70 then Some (n - 55)
     else None)"

fun getu4 :: "string \<Rightarrow> (nat \<times> string) option" where
  "getu4 (a # b # c # d # s) = (case (unhex_digit a, unhex_digit b, unhex_digit c, unhex_digit d) of
     (Some w, Some x, Some y, Some z) \<Rightarrow> Some (((w * 16 + x) * 16 + y) * 16 + z, s)
   | _ \<Rightarrow> None)"
| "getu4 _ = None"

definition simple_escape :: "char \<Rightarrow> char option" where
  "simple_escape c = map_of
     [(quotation, quotation), (backslash, backslash), (CHR ''/'', CHR ''/''), (CHR ''b'', CHR 0x08),
      (CHR ''f'', CHR 0x0C), (CHR ''n'', CHR 0x0A), (CHR ''r'', CHR 0x0D), (CHR ''t'', CHR 0x09)] c"

text \<open>
  A \<open>u\<close> escape with the text behind its four digits: the second half of a surrogate pair is read
  with the first; half a pair stands for the replacement character.
\<close>

definition u_rune :: "nat \<Rightarrow> string \<Rightarrow> string \<times> string" where
  "u_rune r s =
     (if r < 55296 \<or> 57343 < r then (utf8 r, s)
      else (case s of
        a # b # t \<Rightarrow>
          if a = backslash \<and> b = CHR ''u'' then
            (case getu4 t of
               None \<Rightarrow> (replacement, s)
             | Some (r', t') \<Rightarrow>
                 if r < 56320 \<and> 56320 \<le> r' \<and> r' \<le> 57343
                 then (utf8 (65536 + (r - 55296) * 1024 + (r' - 56320)), t')
                 else (replacement, s))
          else (replacement, s)
      | _ \<Rightarrow> (replacement, s)))"

text \<open>The next character or escape: what it stands for, and the text behind it.\<close>

definition unquote_one :: "char \<Rightarrow> string \<Rightarrow> (string \<times> string) option" where
  "unquote_one a s =
     (if a = backslash then
        (case s of
           [] \<Rightarrow> None
         | b # t \<Rightarrow>
             if b = CHR ''u'' then (case getu4 t of None \<Rightarrow> None | Some (r, t') \<Rightarrow> Some (u_rune r t'))
             else (case simple_escape b of None \<Rightarrow> None | Some c \<Rightarrow> Some ([c], t)))
      else if byte a < 32 then None
      else (case rune_size (a # s) of
        0 \<Rightarrow> Some (replacement, s)
      | Suc k \<Rightarrow> Some (a # take k s, drop k s)))"

lemma getu4_shorter: "getu4 s = Some (r, t) \<Longrightarrow> length t < length s"
  by (induction s rule: getu4.induct) (auto split: option.splits)

lemma u_rune_shorter: "u_rune r s = (x, t) \<Longrightarrow> length t \<le> length s"
  by (auto simp: u_rune_def split: if_splits list.splits option.splits dest!: getu4_shorter)

lemma unquote_one_shorter: "unquote_one a s = Some (x, t) \<Longrightarrow> length t \<le> length s"
  by (fastforce simp: unquote_one_def split: if_splits list.splits option.splits nat.splits
      dest: getu4_shorter u_rune_shorter)

function unquote :: "string \<Rightarrow> (string \<times> string) option" where
  "unquote [] = None"
| "unquote (a # s) =
     (if a = quotation then Some ([], s)
      else (case unquote_one a s of
        None \<Rightarrow> None
      | Some (x, t) \<Rightarrow> map_option (\<lambda>(y, r). (x @ y, r)) (unquote t)))"
  by pat_completeness auto
termination by (relation "measure length") (auto dest: unquote_one_shorter)

text \<open>Reading what was written gives the string back, with what was not UTF-8 replaced.\<close>

lemma byte_char_of [simp]: "n < 256 \<Longrightarrow> byte (char_of n) = n" "char_of (byte c) = c"
  by (simp_all add: byte_def)

lemma inj_byte: "inj byte"
  by (metis byte_char_of(2) injI)

lemma rune_size_ascii [simp]: "byte a < 128 \<Longrightarrow> rune_size (a # s) = 1"
  by simp

lemma rune_size_local:
  assumes "rune_size (a # s) = Suc k"
  shows "k \<le> length s" "rune_size (a # take k s @ t) = Suc k"
  using assms by (auto simp: Let_def split: if_splits list.splits)

lemma to_valid_ascii [simp]: "byte a < 128 \<Longrightarrow> to_valid (a # s) = a # to_valid s"
  by simp

lemma valid_utf8_fixed: "valid_utf8 s \<Longrightarrow> to_valid s = s"
  by (induction s rule: valid_utf8.induct) (auto simp del: rune_size.simps split: nat.splits)

lemma unhex_hex_char [simp]: "d < 16 \<Longrightarrow> unhex_digit (hex_char d) = Some d"
  by (auto simp: unhex_digit_def hex_char_def Let_def)

lemma getu4_escape:
  assumes "n < 65536"
  shows "getu4 (drop 2 (u_escape n) @ s) = Some (n, s)"
proof -
  have d: "n div 256 = n div 16 div 16" "n div 4096 = n div 16 div 16 div 16" by (simp_all add: div_mult2_eq [symmetric])
  have "((n div 4096 * 16 + n div 256 mod 16) * 16 + n div 16 mod 16) * 16 + n mod 16 = n"
    by (simp only: d div_mult_mod_eq)
  moreover have "n div 4096 < 16" using assms by simp
  ultimately show ?thesis by (simp add: u_escape_def)
qed

lemma unquote_u_escape:
  assumes "n < 55296 \<or> 57343 < n" "n < 65536"
  shows "unquote (u_escape n @ s) = map_option (\<lambda>(y, r). (utf8 n @ y, r)) (unquote s)"
proof -
  have u: "u_escape n @ s = backslash # CHR ''u'' # drop 2 (u_escape n) @ s" by (simp add: u_escape_def)
  have "unquote_one backslash (CHR ''u'' # drop 2 (u_escape n) @ s) = Some (utf8 n, s)"
    using getu4_escape [OF assms(2), of s] assms(1) by (auto simp: unquote_one_def u_rune_def)
  then show ?thesis unfolding u by simp
qed

lemma unquote_escape_ascii:
  assumes "byte a < 128"
  shows "unquote (escape_ascii a @ s) = map_option (\<lambda>(y, r). (a # y, r)) (unquote s)"
proof -
  have u: "utf8 (byte a) = [a]" using assms by (simp add: utf8_def)
  consider "byte a \<in> {34, 92, 8, 9, 10, 12, 13}"
    | "byte a \<notin> {34, 92, 8, 9, 10, 12, 13}" "byte a < 32 \<or> byte a \<in> {60, 62, 38}"
    | "byte a \<notin> {34, 92, 8, 9, 10, 12, 13}" "\<not> (byte a < 32 \<or> byte a \<in> {60, 62, 38})"
    by blast
  then show ?thesis
  proof cases
    case 1
    then have "byte a \<in> byte ` {quotation, backslash, CHR 0x08, CHR 0x09, CHR 0x0A, CHR 0x0C, CHR 0x0D}"
      by (simp add: byte_def)
    then have "a \<in> {quotation, backslash, CHR 0x08, CHR 0x09, CHR 0x0A, CHR 0x0C, CHR 0x0D}"
      by (simp only: inj_image_mem_iff [OF inj_byte])
    then show ?thesis by (auto simp: escape_ascii_def unquote_one_def simple_escape_def byte_def)
  next
    case 2
    then have "escape_ascii a = u_escape (byte a)" by (auto simp: escape_ascii_def Let_def)
    with unquote_u_escape [of "byte a" s] assms u show ?thesis by simp
  next
    case 3
    then have "a \<noteq> quotation" "a \<noteq> backslash" "escape_ascii a = [a]"
      by (auto simp: byte_def escape_ascii_def Let_def)
    with 3 assms show ?thesis by (simp add: unquote_one_def)
  qed
qed

lemma unquote_rune:
  assumes "rune_size (a # s) = Suc k" "128 \<le> byte a"
  shows "unquote (a # take k s @ t) = map_option (\<lambda>(y, r). (a # take k s @ y, r)) (unquote t)"
proof -
  note local = rune_size_local(1) [OF assms(1)] rune_size_local(2) [OF assms(1), of t]
  have "a \<noteq> quotation" "a \<noteq> backslash" using assms(2) by (auto simp: byte_def)
  with local assms(2) show ?thesis by (simp add: unquote_one_def del: rune_size.simps)
qed

lemma unquote_escape: "unquote (escape s @ quotation # r) = Some (to_valid s, r)"
proof (induction s rule: escape.induct)
  case (2 a s)
  show ?case
  proof (cases "byte a < 128")
    case True
    with 2 show ?thesis by (simp add: unquote_escape_ascii del: rune_size.simps unquote.simps)
  next
    case False
    show ?thesis
    proof (cases "rune_size (a # s)")
      case 0
      have "utf8 65533 = replacement" by (simp add: utf8_def replacement_def)
      with False 0 2 show ?thesis by (simp add: unquote_u_escape del: rune_size.simps unquote.simps)
    next
      case (Suc k)
      with False 2 show ?thesis
        by (auto simp: unquote_u_escape unquote_rune simp del: rune_size.simps unquote.simps)
    qed
  qed
qed simp

section \<open>Numbers\<close>

text \<open>The literals of the grammar, as the longest one a text begins with: sign, integer, fraction, exponent.\<close>

definition int_part :: "string \<Rightarrow> (string \<times> string) option" where
  "int_part s = (case s of
     [] \<Rightarrow> None
   | c # t \<Rightarrow> if c = CHR ''0'' then Some ([c], t)
       else if is_digit c then Some (takeWhile is_digit s, dropWhile is_digit s) else None)"

definition digits1 :: "string \<Rightarrow> (string \<times> string) option" where
  "digits1 s = (if takeWhile is_digit s = [] then None else Some (takeWhile is_digit s, dropWhile is_digit s))"

definition frac_part :: "string \<Rightarrow> (string \<times> string) option" where
  "frac_part s = (case s of
     [] \<Rightarrow> Some ([], [])
   | c # t \<Rightarrow> if c = CHR ''.'' then map_option (\<lambda>(d, r). (c # d, r)) (digits1 t) else Some ([], s))"

definition exp_part :: "string \<Rightarrow> (string \<times> string) option" where
  "exp_part s = (case s of
     [] \<Rightarrow> Some ([], [])
   | c # t \<Rightarrow>
       if c = CHR ''e'' \<or> c = CHR ''E'' then
         (case t of
            [] \<Rightarrow> None
          | d # u \<Rightarrow>
              if d = CHR ''+'' \<or> d = CHR ''-'' then map_option (\<lambda>(x, r). (c # d # x, r)) (digits1 u)
              else map_option (\<lambda>(x, r). (c # x, r)) (digits1 t))
       else Some ([], s))"

definition sign_part :: "string \<Rightarrow> string \<times> string" where
  "sign_part s = (case s of [] \<Rightarrow> ([], []) | c # t \<Rightarrow> if c = CHR ''-'' then ([c], t) else ([], s))"

definition scan_number :: "string \<Rightarrow> (string \<times> string) option" where
  "scan_number s = (case sign_part s of (m, s1) \<Rightarrow>
     case int_part s1 of None \<Rightarrow> None | Some (i, s2) \<Rightarrow>
     case frac_part s2 of None \<Rightarrow> None | Some (f, s3) \<Rightarrow>
     case exp_part s3 of None \<Rightarrow> None | Some (e, s4) \<Rightarrow> Some (m @ i @ f @ e, s4))"

definition number_literal :: "string \<Rightarrow> bool" where
  "number_literal l \<longleftrightarrow> scan_number l = Some (l, [])"

text \<open>A text that cannot continue a number.\<close>

definition ends_number :: "string \<Rightarrow> bool" where
  "ends_number s \<longleftrightarrow> (case s of [] \<Rightarrow> True
     | c # _ \<Rightarrow> \<not> is_digit c \<and> c \<notin> {CHR ''.'', CHR ''e'', CHR ''E'', CHR ''+'', CHR ''-''})"

lemma ends_number_takeWhile:
  "ends_number r \<Longrightarrow> takeWhile is_digit (s @ r) = takeWhile is_digit s \<and> dropWhile is_digit (s @ r) = dropWhile is_digit s @ r"
  by (induction s) (auto simp: ends_number_def split: list.splits)

lemma digits1_append: "ends_number r \<Longrightarrow> digits1 s = Some (x, y) \<Longrightarrow> digits1 (s @ r) = Some (x, y @ r)"
  by (auto simp: digits1_def ends_number_takeWhile split: if_splits)

lemma scan_parts_append:
  assumes "ends_number r"
  shows "int_part s = Some (x, y) \<Longrightarrow> int_part (s @ r) = Some (x, y @ r)"
    "frac_part s = Some (x, y) \<Longrightarrow> frac_part (s @ r) = Some (x, y @ r)"
    "exp_part s = Some (x, y) \<Longrightarrow> exp_part (s @ r) = Some (x, y @ r)"
  subgoal using ends_number_takeWhile [OF assms, of s] by (auto simp: int_part_def split: list.splits if_splits)
  subgoal using assms by (auto simp: frac_part_def ends_number_def split: list.splits if_splits dest: digits1_append [OF assms])
  subgoal using assms by (auto simp: exp_part_def ends_number_def split: list.splits if_splits dest: digits1_append [OF assms])
  done

lemma scan_number_SomeE:
  assumes "scan_number s = Some (x, y)"
  obtains m s1 i s2 f s3 e where "sign_part s = (m, s1)" "int_part s1 = Some (i, s2)"
    "frac_part s2 = Some (f, s3)" "exp_part s3 = Some (e, y)" "x = m @ i @ f @ e"
  using assms by (auto simp: scan_number_def split: option.splits prod.splits)

lemma scan_number_append:
  assumes "ends_number r" "scan_number s = Some (x, y)"
  shows "scan_number (s @ r) = Some (x, y @ r)"
  using assms(2)
proof (rule scan_number_SomeE)
  fix m s1 i s2 f s3 e
  assume parts: "sign_part s = (m, s1)" "int_part s1 = Some (i, s2)"
    "frac_part s2 = Some (f, s3)" "exp_part s3 = Some (e, y)" "x = m @ i @ f @ e"
  then have "sign_part (s @ r) = (m, s1 @ r)"
    by (auto simp: sign_part_def int_part_def split: list.splits if_splits)
  then show ?thesis using parts(5) scan_parts_append(1) [OF assms(1) parts(2)]
      scan_parts_append(2) [OF assms(1) parts(3)] scan_parts_append(3) [OF assms(1) parts(4)]
    by (simp add: scan_number_def)
qed

lemma scan_number_literal: "number_literal l \<Longrightarrow> ends_number r \<Longrightarrow> scan_number (l @ r) = Some (l, r)"
  using scan_number_append [of r l l "[]"] by (simp add: number_literal_def)

lemma scan_number_shorter:
  assumes "scan_number s = Some (x, y)"
  shows "length y < length s"
proof -
  have i: "int_part s = Some (x, y) \<Longrightarrow> length y < length s" for s x y
    using dropWhile_shorter [of is_digit s] by (auto simp: int_part_def split: list.splits if_splits)
  have d: "digits1 s = Some (x, y) \<Longrightarrow> length y < length s" for s x y
    using dropWhile_shorter [of is_digit s] by (auto simp: digits1_def split: if_splits)
  have f: "frac_part s = Some (x, y) \<Longrightarrow> length y \<le> length s" for s x y
    by (auto simp: frac_part_def split: list.splits if_splits dest!: d)
  have e: "exp_part s = Some (x, y) \<Longrightarrow> length y \<le> length s" for s x y
    by (auto simp: exp_part_def split: list.splits if_splits dest!: d)
  have "length (snd (sign_part s)) \<le> length s" by (auto simp: sign_part_def split: list.splits)
  with assms show ?thesis by (elim scan_number_SomeE) (fastforce dest: i f e)
qed

lemma digit_char_0: "digit_char 0 = CHR ''0''"
  by code_simp

lemma hd_show_nat_zero: "hd (show_nat n) = CHR ''0'' \<longleftrightarrow> n = 0"
proof (induction n rule: show_nat.induct)
  case (1 n)
  show ?case
  proof (cases "n < 10")
    case True
    have "digit_char d = CHR ''0'' \<longleftrightarrow> d = 0" if "d < 10" for d
    proof -
      have "digit_char d = CHR ''0'' \<longleftrightarrow> digit_char d = digit_char 0" by (simp add: digit_char_0)
      also have "\<dots> \<longleftrightarrow> d = 0" using that is_digit_digit_char(2) [of d] is_digit_digit_char(2) [of 0] by fastforce
      finally show ?thesis .
    qed
    with True show ?thesis by (subst show_nat.simps) simp
  next
    case False
    with 1 show ?thesis by (subst show_nat.simps) (simp add: div_eq_0_iff)
  qed
qed

lemma show_nat_zero [simp]: "show_nat 0 = ''0''"
  by (subst show_nat.simps) (simp add: digit_char_0)

lemma int_part_show_nat: "int_part (show_nat n) = Some (show_nat n, [])"
proof (cases "n = 0")
  case False
  obtain c t where c: "show_nat n = c # t" by (cases "show_nat n") simp_all
  with hd_show_nat_zero [of n] False have "c \<noteq> CHR ''0''" by simp
  moreover have "\<forall>x\<in>set (c # t). is_digit x" using show_nat_digits [of n] c by (simp add: list_all_iff)
  moreover have "takeWhile is_digit (c # t) = c # t" "dropWhile is_digit (c # t) = []"
    using calculation(2) by (simp_all add: takeWhile_eq_all_conv [THEN iffD2] dropWhile_eq_Nil_conv [THEN iffD2])
  ultimately show ?thesis unfolding c by (simp add: int_part_def)
qed (simp add: int_part_def)

lemma number_literal_int [simp]: "number_literal (show_int i)"
proof -
  have *: "sign_part (show_nat n) = ([], show_nat n)" for n
    using hd_show_nat [of n] by (cases "show_nat n") (auto simp: sign_part_def is_digit_def)
  have "sign_part (show_int i) = (if i < 0 then ''-'' else [], show_nat (nat \<bar>i\<bar>))"
    by (auto simp: show_int_def *) (simp add: sign_part_def)
  then show ?thesis
    by (auto simp: number_literal_def scan_number_def int_part_show_nat frac_part_def exp_part_def show_int_def)
qed

section \<open>Documents\<close>

datatype json =
    JNull
  | JBool bool
  | JNum string
  | JStr string
  | JArr "json list"
  | JObj "(string \<times> json) list"

text \<open>What \<open>Marshal\<close> writes: no white space, members in the order given.\<close>

fun encode :: "json \<Rightarrow> string"
  and encode_values :: "json list \<Rightarrow> string"
  and encode_members :: "(string \<times> json) list \<Rightarrow> string" where
  "encode JNull = ''null''"
| "encode (JBool b) = (if b then ''true'' else ''false'')"
| "encode (JNum l) = l"
| "encode (JStr s) = json_string s"
| "encode (JArr vs) = ''['' @ encode_values vs @ '']''"
| "encode (JObj kvs) = ''{'' @ encode_members kvs @ ''}''"
| "encode_values [] = []"
| "encode_values [v] = encode v"
| "encode_values (v # w # vs) = encode v @ '','' @ encode_values (w # vs)"
| "encode_members [] = []"
| "encode_members [(k, v)] = json_string k @ '':'' @ encode v"
| "encode_members ((k, v) # m # kvs) = json_string k @ '':'' @ encode v @ '','' @ encode_members (m # kvs)"

section \<open>The reader\<close>

datatype token = TObj | TEndObj | TArr | TEndArr | TComma | TColon | TString string | TScalar json

definition is_white :: "char \<Rightarrow> bool" where
  "is_white c \<longleftrightarrow> c \<in> {CHR '' '', CHR 0x09, CHR 0x0A, CHR 0x0D}"

definition punctuation :: "char \<Rightarrow> token option" where
  "punctuation c = map_of [(CHR ''{'', TObj), (CHR ''}'', TEndObj), (CHR ''['', TArr), (CHR '']'', TEndArr),
     (CHR '','', TComma), (CHR '':'', TColon)] c"

definition keyword :: "string \<Rightarrow> (json \<times> string) option" where
  "keyword s =
     (if take 4 s = ''null'' then Some (JNull, drop 4 s)
      else if take 4 s = ''true'' then Some (JBool True, drop 4 s)
      else if take 5 s = ''false'' then Some (JBool False, drop 5 s)
      else None)"

definition next_token :: "string \<Rightarrow> (token \<times> string) option" where
  "next_token t = (let s = dropWhile is_white t in
     case s of
       [] \<Rightarrow> None
     | c # r \<Rightarrow>
         (case punctuation c of
            Some p \<Rightarrow> Some (p, r)
          | None \<Rightarrow>
              if c = quotation then map_option (\<lambda>(x, r'). (TString x, r')) (unquote r)
              else (case keyword s of
                Some (v, r') \<Rightarrow> Some (TScalar v, r')
              | None \<Rightarrow> map_option (\<lambda>(l, r'). (TScalar (JNum l), r')) (scan_number s))))"

text \<open>
  The open arrays and objects are the stack; the mode says what may come next: a value, a value or
  the end of an empty array, a first or a further key, a colon, or what follows a complete value.
\<close>

datatype frame = FArr "json list" | FObj "(string \<times> json) list" string

datatype mode =
    Want
  | First
  | FirstKey
  | NextKey "(string \<times> json) list"
  | Colon "(string \<times> json) list" string
  | Have json

definition maxNestingDepth :: nat where "maxNestingDepth = 10000"

fun begin_value :: "frame list \<Rightarrow> token \<Rightarrow> (frame list \<times> mode) option" where
  "begin_value st (TScalar v) = Some (st, Have v)"
| "begin_value st (TString x) = Some (st, Have (JStr x))"
| "begin_value st TArr = (if length st < maxNestingDepth then Some (FArr [] # st, First) else None)"
| "begin_value st TObj = (if length st < maxNestingDepth then Some (st, FirstKey) else None)"
| "begin_value st _ = None"

fun step :: "frame list \<Rightarrow> mode \<Rightarrow> token \<Rightarrow> (frame list \<times> mode) option" where
  "step st Want t = begin_value st t"
| "step (FArr [] # st) First TEndArr = Some (st, Have (JArr []))"
| "step st First t = begin_value st t"
| "step st FirstKey TEndObj = Some (st, Have (JObj []))"
| "step st FirstKey (TString k) = Some (st, Colon [] k)"
| "step st (NextKey kvs) (TString k) = Some (st, Colon kvs k)"
| "step st (Colon kvs k) TColon = Some (FObj kvs k # st, Want)"
| "step (FArr vs # st) (Have v) TComma = Some (FArr (vs @ [v]) # st, Want)"
| "step (FArr vs # st) (Have v) TEndArr = Some (st, Have (JArr (vs @ [v])))"
| "step (FObj kvs k # st) (Have v) TComma = Some (st, NextKey (kvs @ [(k, v)]))"
| "step (FObj kvs k # st) (Have v) TEndObj = Some (st, Have (JObj (kvs @ [(k, v)])))"
| "step _ _ _ = None"

lemma unquote_shorter: "unquote s = Some (x, r) \<Longrightarrow> length r < length s"
  by (induction s arbitrary: x rule: unquote.induct)
     (fastforce split: if_splits option.splits dest: unquote_one_shorter)+

lemma keyword_shorter: "keyword s = Some (v, r) \<Longrightarrow> length r < length s"
  by (cases s) (auto simp: keyword_def split: if_splits)

lemma next_token_shorter:
  assumes "next_token s = Some (t, r)"
  shows "length r < length s"
proof -
  have "length r < length (dropWhile is_white s)"
    using assms by (auto simp: next_token_def Let_def split: list.splits option.splits if_splits
        dest!: unquote_shorter keyword_shorter scan_number_shorter)
  also have "\<dots> \<le> length s" by (rule length_dropWhile_le)
  finally show ?thesis .
qed

function read_json :: "frame list \<Rightarrow> mode \<Rightarrow> string \<Rightarrow> (json \<times> string) option" where
  "read_json st m s = (case (st, m) of
     ([], Have v) \<Rightarrow> Some (v, s)
   | _ \<Rightarrow>
     (case next_token s of
        None \<Rightarrow> None
      | Some (t, r) \<Rightarrow> (case step st m t of None \<Rightarrow> None | Some (st', m') \<Rightarrow> read_json st' m' r)))"
  by pat_completeness auto
termination by (relation "measure (\<lambda>(st, m, s). length s)") (auto dest: next_token_shorter)

declare read_json.simps [simp del]

text \<open>A decoder reads one value and leaves the rest; \<open>Unmarshal\<close> wants nothing behind it.\<close>

definition Decode :: "string \<Rightarrow> json option" where
  "Decode s = map_option fst (read_json [] Want s)"

definition Unmarshal :: "string \<Rightarrow> json option" where
  "Unmarshal s = (case read_json [] Want s of
     None \<Rightarrow> None
   | Some (v, r) \<Rightarrow> if dropWhile is_white r = [] then Some v else None)"

section \<open>Reading what was written\<close>

text \<open>What the package writes: numbers are literals, and the nesting stays within a bound.\<close>

fun writable :: "nat \<Rightarrow> json \<Rightarrow> bool" where
  "writable n (JNum l) = number_literal l"
| "writable n (JArr vs) = (0 < n \<and> (\<forall>v \<in> set vs. writable (n - 1) v))"
| "writable n (JObj kvs) = (0 < n \<and> (\<forall>(k, v) \<in> set kvs. writable (n - 1) v))"
| "writable n _ = True"

fun scrub :: "json \<Rightarrow> json" where
  "scrub (JStr s) = JStr (to_valid s)"
| "scrub (JArr vs) = JArr (map scrub vs)"
| "scrub (JObj kvs) = JObj (map (\<lambda>(k, v). (to_valid k, scrub v)) kvs)"
| "scrub v = v"

lemma next_token_simps [simp]:
  "next_token (CHR ''{'' # r) = Some (TObj, r)" "next_token (CHR ''}'' # r) = Some (TEndObj, r)"
  "next_token (CHR ''['' # r) = Some (TArr, r)" "next_token (CHR '']'' # r) = Some (TEndArr, r)"
  "next_token (CHR '','' # r) = Some (TComma, r)" "next_token (CHR '':'' # r) = Some (TColon, r)"
  "next_token (CHR ''n'' # CHR ''u'' # CHR ''l'' # CHR ''l'' # r) = Some (TScalar JNull, r)"
  "next_token (CHR ''t'' # CHR ''r'' # CHR ''u'' # CHR ''e'' # r) = Some (TScalar (JBool True), r)"
  "next_token (CHR ''f'' # CHR ''a'' # CHR ''l'' # CHR ''s'' # CHR ''e'' # r) = Some (TScalar (JBool False), r)"
  by (simp_all add: next_token_def is_white_def punctuation_def keyword_def)

lemma next_token_string [simp]: "next_token (json_string s @ r) = Some (TString (to_valid s), r)"
  by (simp add: json_string_def next_token_def is_white_def punctuation_def unquote_escape)

lemma number_literal_hd:
  assumes "number_literal l"
  obtains c t where "l = c # t" "is_digit c \<or> c = CHR ''-''"
proof (cases l)
  case Nil
  with assms show ?thesis by (simp add: number_literal_def scan_number_def sign_part_def int_part_def)
next
  case (Cons c t)
  with assms have "is_digit c \<or> c = CHR ''-''"
    by (auto simp: number_literal_def scan_number_def sign_part_def int_part_def is_digit_def
        split: if_splits option.splits prod.splits)
  with Cons that show ?thesis by blast
qed

lemma next_token_number [simp]:
  assumes "number_literal l" "ends_number r"
  shows "next_token (l @ r) = Some (TScalar (JNum l), r)"
proof -
  from assms(1) obtain c t where l: "l = c # t" and c: "is_digit c \<or> c = CHR ''-''" by (rule number_literal_hd)
  from c have "\<not> is_white c" "punctuation c = None" "c \<noteq> quotation" "keyword (c # x) = None" for x
    by (auto simp: is_white_def punctuation_def keyword_def is_digit_def split: if_splits)
  with scan_number_literal [OF assms] l show ?thesis by (simp add: next_token_def)
qed

lemma ends_number_simps [simp]:
  "ends_number []" "ends_number (CHR '','' # s)" "ends_number (CHR '']'' # s)" "ends_number (CHR ''}'' # s)"
  by (simp_all add: ends_number_def is_digit_def)

lemma read_json_step:
  assumes "next_token s = Some (t, r)" "step st m t = Some (st', m')"
  shows "read_json st m s = read_json st' m' r"
proof -
  have "\<not> (st = [] \<and> (\<exists>v. m = Have v))" using assms(2) by auto
  then show ?thesis using assms by (subst read_json.simps) (auto split: list.splits mode.splits)
qed

lemma read_json_done: "read_json [] (Have v) s = Some (v, s)"
  by (subst read_json.simps) simp

lemma read_json_First:
  assumes "next_token s = Some (t, r)" "t \<noteq> TEndArr"
  shows "read_json (FArr [] # st) First s = read_json (FArr [] # st) Want s"
proof -
  have "step (FArr [] # st) First t = step (FArr [] # st) Want t" using assms(2) by (cases t) simp_all
  then show ?thesis by (subst (1 2) read_json.simps) (simp add: assms(1))
qed

lemma encode_first:
  "writable n v \<Longrightarrow> ends_number s \<Longrightarrow> \<exists>t r. next_token (encode v @ s) = Some (t, r) \<and> t \<noteq> TEndArr"
  by (cases v) auto

lemma encode_values_first:
  "writable n v \<Longrightarrow> \<exists>t r. next_token (encode_values (v # vs) @ CHR '']'' # s) = Some (t, r) \<and> t \<noteq> TEndArr"
  using encode_first [of n v "CHR '']'' # s"] encode_first [of n v "CHR '','' # encode_values vs @ CHR '']'' # s"]
  by (cases vs) simp_all

lemma read_encode:
  "writable n v \<Longrightarrow> length st + n \<le> maxNestingDepth \<Longrightarrow> ends_number s \<Longrightarrow>
     read_json st Want (encode v @ s) = read_json st (Have (scrub v)) s"
  "\<forall>v \<in> set vs. writable n v \<Longrightarrow> Suc (length st) + n \<le> maxNestingDepth \<Longrightarrow> vs \<noteq> [] \<Longrightarrow>
     read_json (FArr us # st) Want (encode_values vs @ CHR '']'' # s) = read_json st (Have (JArr (us @ map scrub vs))) s"
  "\<forall>(k, v) \<in> set kvs. writable n v \<Longrightarrow> Suc (length st) + n \<le> maxNestingDepth \<Longrightarrow> kvs \<noteq> [] \<Longrightarrow>
     read_json st (NextKey ms) (encode_members kvs @ CHR ''}'' # s) =
     read_json st (Have (JObj (ms @ map (\<lambda>(k, v). (to_valid k, scrub v)) kvs))) s"
proof (induction v and vs and kvs arbitrary: n st s and n st s us and n st s ms
    rule: encode_encode_values_encode_members.induct)
  case (5 vs)
  note open_arr = read_json_step [OF next_token_simps(3), where st = st and m = Want, simplified]
  show ?case
  proof (cases vs)
    case Nil
    with 5 show ?thesis by (simp add: open_arr read_json_step)
  next
    case (Cons v ws)
    with "5.prems" obtain t r where t: "next_token (encode_values (v # ws) @ CHR '']'' # s) = Some (t, r)" "t \<noteq> TEndArr"
      using encode_values_first [of "n - 1" v ws s] by auto
    with 5 Cons show ?thesis by (auto simp: open_arr read_json_First [OF t])
  qed
next
  case (6 kvs)
  have "read_json st FirstKey (encode_members kvs @ CHR ''}'' # s) = read_json st (NextKey []) (encode_members kvs @ CHR ''}'' # s)"
    if "kvs \<noteq> []"
    using that by (cases kvs rule: encode_members.cases) (simp_all add: read_json_step)
  with 6 show ?case by (cases kvs) (auto simp: read_json_step [where m = Want] read_json_step [where m = FirstKey])
qed (auto simp: read_json_step)

lemma read_json_encode:
  assumes "writable maxNestingDepth v"
  shows "Unmarshal (encode v) = Some (scrub v)" "ends_number s \<Longrightarrow> Decode (encode v @ s) = Some (scrub v)"
proof -
  have "read_json [] Want (encode v @ s) = Some (scrub v, s)" if "ends_number s" for s
    using read_encode(1) [of maxNestingDepth v "[]" s] assms that by (simp add: read_json_done)
  from this [of "[]"] this [of s] show "Unmarshal (encode v) = Some (scrub v)"
    "ends_number s \<Longrightarrow> Decode (encode v @ s) = Some (scrub v)"
    by (simp_all add: Unmarshal_def Decode_def)
qed

end
