(* ===== verification/JsonValues.thy ===== *)
theory JsonValues
  imports JsonText "HOL-Library.List_Lexorder" "HOL-Library.Char_ord"
begin

text \<open>
  Package \<open>encoding/json\<close> on the level of Go values: the dynamic values and maps it writes and reads,
  and how the members of an object find the fields of a struct. The shortest text of a float64 and
  the reading of a literal as a float64 (package \<open>strconv\<close>) are the parameter \<open>floatText\<close>. Everything
  the reader returns is tidy, UTF-8 and within the nesting bound, so it can be written and read again.
\<close>

section \<open>What the reader returns is tidy\<close>

fun tidy :: "nat \<Rightarrow> json \<Rightarrow> bool" where
  "tidy n (JStr s) = valid_utf8 s"
| "tidy n (JArr vs) = (0 < n \<and> (\<forall>v \<in> set vs. tidy (n - 1) v))"
| "tidy n (JObj kvs) = (0 < n \<and> (\<forall>(k, v) \<in> set kvs. valid_utf8 k \<and> tidy (n - 1) v))"
| "tidy n _ = True"

lemma rune_size_append: "rune_size (a # s) = Suc k \<Longrightarrow> rune_size (a # s @ t) = Suc k"
  by (auto simp: Let_def split: if_splits list.splits)

lemma valid_utf8_append: "valid_utf8 s \<Longrightarrow> valid_utf8 t \<Longrightarrow> valid_utf8 (s @ t)"
proof (induction s rule: valid_utf8.induct)
  case (2 a s)
  then obtain k where k: "rune_size (a # s) = Suc k" "valid_utf8 (drop k s)" by (auto simp del: rune_size.simps split: nat.splits)
  with 2 rune_size_append [OF k(1), of t] rune_size_local(1) [OF k(1)] show ?case by (simp del: rune_size.simps)
qed simp

lemma valid_utf8_rune:
  assumes "rune_size (a # s) = Suc k"
  shows "valid_utf8 (a # take k s)"
  using rune_size_local(2) [OF assms, of "[]"] by (simp del: rune_size.simps)

lemma valid_utf8_replacement [simp]: "valid_utf8 replacement"
  by (simp add: replacement_def Let_def byte_in_def)

lemma mod_64_low:
  fixes q :: nat
  assumes "256 \<le> q" "q < 272"
  shows "q mod 64 < 16"
proof -
  have "q = (q - 256) + 64 * 4" using assms(1) by simp
  then have "q mod 64 = (q - 256) mod 64" by (metis mod_mult_self2)
  with assms show ?thesis by simp
qed

lemma valid_utf8_utf8:
  assumes "r < 55296 \<or> 57343 < r" "r < 1114112"
  shows "valid_utf8 (utf8 r)"
proof -
  have d: "r div 4096 < 272" "r div 262144 < 5" using assms by simp_all
  have m: "x mod 64 \<le> 63" for x :: nat using mod_less_divisor [of 64 x] by linarith
  consider "r < 128" | "128 \<le> r" "r < 2048" | "2048 \<le> r" "r < 65536" | "65536 \<le> r" by linarith
  then show ?thesis
  proof cases
    case 1
    then show ?thesis by (simp add: utf8_def)
  next
    case 2
    then have "2 \<le> r div 64" "r div 64 < 32" by simp_all
    with 2 show ?thesis by (simp add: utf8_def byte_in_def)
  next
    case 3
    then have "r div 4096 < 16" by simp
    moreover have "32 \<le> r div 64 mod 64" if "r div 4096 = 0" using that 3 by simp
    moreover have "r div 64 mod 64 \<le> 31" if "r div 4096 = 13"
    proof -
      from that assms 3 have "832 \<le> r div 64" "r div 64 < 864" by auto
      then have "r div 64 = (r div 64 - 832) + 64 * 13" by simp
      then have "r div 64 mod 64 = (r div 64 - 832) mod 64" by (metis mod_mult_self2)
      with \<open>r div 64 < 864\<close> show ?thesis by simp
    qed
    moreover have "r div 64 \<le> 63" if "r div 4096 = 0" using that by simp
    ultimately show ?thesis using 3 m by (simp add: utf8_def byte_in_def)
  next
    case 4
    have "16 \<le> r div 4096 mod 64" if "r div 262144 = 0" using that 4 by simp
    moreover have "r div 4096 mod 64 \<le> 15" if "r div 262144 = 4"
    proof -
      from that have "256 \<le> r div 4096" by linarith
      from mod_64_low [OF this d(1)] show ?thesis by simp
    qed
    moreover have "r div 4096 \<le> 63" if "r div 262144 = 0" using that by simp
    ultimately show ?thesis using 4 d m by (simp add: utf8_def byte_in_def)
  qed
qed


lemma getu4_bound: "getu4 s = Some (r, t) \<Longrightarrow> r < 65536"
proof (induction s rule: getu4.induct)
  case (1 a b c d s)
  have h: "x < 16" if "unhex_digit e = Some x" for e x using that by (auto simp: unhex_digit_def Let_def split: if_splits)
  from 1 obtain w x y z where "r = ((w * 16 + x) * 16 + y) * 16 + z" "w < 16" "x < 16" "y < 16" "z < 16"
    by (auto split: option.splits dest!: h)
  then show ?case by simp
qed simp_all

lemma u_rune_valid: "r < 65536 \<Longrightarrow> u_rune r s = (x, t) \<Longrightarrow> valid_utf8 x"
  by (auto simp: u_rune_def split: if_splits list.splits option.splits intro!: valid_utf8_utf8)

lemma unquote_one_valid:
  assumes "unquote_one a s = Some (x, t)"
  shows "valid_utf8 x"
proof -
  have "valid_utf8 [c]" if "simple_escape b = Some c" for b c
    using that by (auto simp: simple_escape_def byte_def split: if_splits)
  then show ?thesis using assms valid_utf8_rune [of a s]
    by (auto simp del: rune_size.simps valid_utf8.simps simp: unquote_one_def split: if_splits list.splits option.splits nat.splits
        dest!: getu4_bound u_rune_valid)
qed

lemma unquote_valid: "unquote s = Some (x, r) \<Longrightarrow> valid_utf8 x"
  by (induction s arbitrary: x rule: unquote.induct)
     (auto split: if_splits option.splits intro!: valid_utf8_append dest: unquote_one_valid)

fun stack_tidy :: "frame list \<Rightarrow> bool" where
  "stack_tidy [] = True"
| "stack_tidy (FArr vs # st) = (length st < maxNestingDepth \<and> (\<forall>v \<in> set vs. tidy (maxNestingDepth - Suc (length st)) v) \<and> stack_tidy st)"
| "stack_tidy (FObj kvs k # st) = (length st < maxNestingDepth \<and> valid_utf8 k \<and>
     (\<forall>(k, v) \<in> set kvs. valid_utf8 k \<and> tidy (maxNestingDepth - Suc (length st)) v) \<and> stack_tidy st)"

fun mode_tidy :: "nat \<Rightarrow> mode \<Rightarrow> bool" where
  "mode_tidy d Want = True"
| "mode_tidy d First = True"
| "mode_tidy d FirstKey = (d < maxNestingDepth)"
| "mode_tidy d (NextKey kvs) = (d < maxNestingDepth \<and> (\<forall>(k, v) \<in> set kvs. valid_utf8 k \<and> tidy (maxNestingDepth - Suc d) v))"
| "mode_tidy d (Colon kvs k) = (d < maxNestingDepth \<and> valid_utf8 k \<and>
     (\<forall>(k, v) \<in> set kvs. valid_utf8 k \<and> tidy (maxNestingDepth - Suc d) v))"
| "mode_tidy d (Have v) = tidy (maxNestingDepth - d) v"

fun token_tidy :: "token \<Rightarrow> bool" where
  "token_tidy (TString s) = valid_utf8 s"
| "token_tidy (TScalar v) = (\<forall>n. tidy n v)"
| "token_tidy _ = True"

lemma keyword_tidy: "keyword s = Some (v, r) \<Longrightarrow> (\<forall>n. tidy n v)"
  by (auto simp: keyword_def split: if_splits)

lemma next_token_tidy: "next_token s = Some (t, r) \<Longrightarrow> token_tidy t"
  by (auto simp: next_token_def Let_def punctuation_def split: list.splits option.splits if_splits
      dest!: unquote_valid keyword_tidy)

lemma begin_value_tidy:
  "begin_value st t = Some (st', m') \<Longrightarrow> stack_tidy st \<Longrightarrow> token_tidy t \<Longrightarrow> stack_tidy st' \<and> mode_tidy (length st') m'"
  by (cases t) (auto split: if_splits)

lemma step_tidy:
  "step st m t = Some (st', m') \<Longrightarrow> stack_tidy st \<Longrightarrow> mode_tidy (length st) m \<Longrightarrow> token_tidy t \<Longrightarrow>
     stack_tidy st' \<and> mode_tidy (length st') m'"
  by (cases "(st, m, t)" rule: step.cases) (auto simp: Suc_diff_Suc dest: begin_value_tidy split: if_splits)

lemma read_json_tidy:
  "read_json st m s = Some (v, r) \<Longrightarrow> stack_tidy st \<Longrightarrow> mode_tidy (length st) m \<Longrightarrow> tidy maxNestingDepth v"
proof (induction "length s" arbitrary: st m s rule: less_induct)
  case less
  show ?case
  proof (cases "st = [] \<and> (\<exists>v. m = Have v)")
    case True
    with less.prems show ?thesis by (auto simp: read_json_done)
  next
    case False
    with less.prems(1) obtain t q st' m' where t: "next_token s = Some (t, q)" "step st m t = Some (st', m')"
      "read_json st' m' q = Some (v, r)"
      by (subst (asm) read_json.simps) (auto split: list.splits mode.splits option.splits)
    from step_tidy [OF t(2) less.prems(2,3) next_token_tidy [OF t(1)]] less.hyps [OF next_token_shorter [OF t(1)] t(3)]
    show ?thesis by simp
  qed
qed

lemma Decode_tidy: "Decode s = Some v \<Longrightarrow> tidy maxNestingDepth v"
  by (auto simp: Decode_def intro: read_json_tidy)

lemma Unmarshal_tidy: "Unmarshal s = Some v \<Longrightarrow> tidy maxNestingDepth v"
  by (auto simp: Unmarshal_def split: option.splits if_splits intro: read_json_tidy)

section \<open>Dynamic values\<close>

record floatText =
  ft_format :: "rat \<Rightarrow> string"
  ft_parse :: "string \<Rightarrow> rat option"

text \<open>What is read as a float64 is written as a literal that is read as the same float64.\<close>

definition float_laws :: "floatText \<Rightarrow> bool" where
  "float_laws F \<longleftrightarrow> (\<forall>l r. ft_parse F l = Some r \<longrightarrow> number_literal (ft_format F r) \<and> ft_parse F (ft_format F r) = Some r)"

text \<open>A Go map has one value per key. It is the list of its members in the order of the keys, which is
  the order \<open>Marshal\<close> writes them in.\<close>

fun map_put :: "string \<Rightarrow> 'a \<Rightarrow> (string \<times> 'a) list \<Rightarrow> (string \<times> 'a) list" where
  "map_put k v [] = [(k, v)]"
| "map_put k v ((a, b) # xs) =
     (if k < a then (k, v) # (a, b) # xs else if k = a then (k, v) # xs else (a, b) # map_put k v xs)"

fun option_all :: "'a option list \<Rightarrow> 'a list option" where
  "option_all [] = Some []"
| "option_all (x # xs) = (case x of None \<Rightarrow> None | Some a \<Rightarrow> map_option ((#) a) (option_all xs))"

definition from_members :: "(string \<times> 'a option) list \<Rightarrow> (string \<times> 'a) list option" where
  "from_members ms = map_option (\<lambda>vs. fold (\<lambda>(k, v). map_put k v) (zip (map fst ms) vs) []) (option_all (map snd ms))"

text \<open>Reading into an \<open>any\<close>, and writing one.\<close>

fun to_any :: "floatText \<Rightarrow> json \<Rightarrow> gvalue option" where
  "to_any F JNull = Some VNil"
| "to_any F (JBool b) = Some (VBool b)"
| "to_any F (JNum l) = map_option VFloat (ft_parse F l)"
| "to_any F (JStr s) = Some (VStr s)"
| "to_any F (JArr vs) = map_option VList (option_all (map (to_any F) vs))"
| "to_any F (JObj ms) = map_option VMap (from_members (map (\<lambda>(k, v). (k, to_any F v)) ms))"

fun any_json :: "floatText \<Rightarrow> gvalue \<Rightarrow> json" where
  "any_json F VNil = JNull"
| "any_json F (VBool b) = JBool b"
| "any_json F (VFloat r) = JNum (ft_format F r)"
| "any_json F (VInt i) = JNum (show_int i)"
| "any_json F (VInt32 w) = JNum (show_int (sint w))"
| "any_json F (VStr s) = JStr s"
| "any_json F (VList vs) = JArr (map (any_json F) vs)"
| "any_json F (VMap kvs) = JObj (map (\<lambda>(k, v). (k, any_json F v)) kvs)"

text \<open>A \<open>map[string]any\<close>: null leaves it nil, and anything but an object is an error.\<close>

definition to_map :: "floatText \<Rightarrow> json \<Rightarrow> params option option" where
  "to_map F v = (case v of
     JNull \<Rightarrow> Some None
   | JObj ms \<Rightarrow> (case to_any F v of Some (VMap kvs) \<Rightarrow> Some (Some (map_of kvs)) | _ \<Rightarrow> None)
   | _ \<Rightarrow> None)"

definition map_json :: "floatText \<Rightarrow> params \<Rightarrow> json" where
  "map_json F m = any_json F (VMap (map (\<lambda>k. (k, the (m k))) (sorted_list_of_set (dom m))))"

section \<open>Values read are written and read back\<close>

definition ordered :: "(string \<times> 'a) list \<Rightarrow> bool" where
  "ordered kvs \<longleftrightarrow> sorted_wrt (<) (map fst kvs)"

lemma fst_put: "set (map fst (map_put k v kvs)) = insert k (set (map fst kvs))"
  by (induction k v kvs rule: map_put.induct) auto

lemma set_put: "set (map_put k v kvs) \<subseteq> insert (k, v) (set kvs)"
  by (induction k v kvs rule: map_put.induct) auto

lemma ordered_put: "ordered kvs \<Longrightarrow> ordered (map_put k v kvs)"
proof (induction k v kvs rule: map_put.induct)
  case (2 k v a b xs)
  then have "ordered xs" "\<forall>x \<in> set (map fst xs). a < x" by (auto simp: ordered_def)
  with 2 show ?case using fst_put [of k v xs] by (auto simp: ordered_def)
qed (simp add: ordered_def)

text \<open>A value the reader made, as deep as \<open>n\<close>.\<close>

fun read_value :: "floatText \<Rightarrow> nat \<Rightarrow> gvalue \<Rightarrow> bool" where
  "read_value F n (VFloat r) = (\<exists>l. ft_parse F l = Some r)"
| "read_value F n (VInt i) = False"
| "read_value F n (VInt32 w) = False"
| "read_value F n (VStr s) = valid_utf8 s"
| "read_value F n (VList vs) = (0 < n \<and> (\<forall>v \<in> set vs. read_value F (n - 1) v))"
| "read_value F n (VMap kvs) = (0 < n \<and> ordered kvs \<and> (\<forall>(k, v) \<in> set kvs. valid_utf8 k \<and> read_value F (n - 1) v))"
| "read_value F n _ = True"

lemma option_all_Some: "option_all xs = Some ys \<longleftrightarrow> xs = map Some ys"
  by (induction xs arbitrary: ys) (auto split: option.splits)

lemma ordered_fold_put: "ordered kvs \<Longrightarrow> ordered (fold (\<lambda>(k, v). map_put k v) xs kvs)"
  by (induction xs arbitrary: kvs) (auto simp: ordered_put)

lemma set_fold_put: "set (fold (\<lambda>(k, v). map_put k v) xs kvs) \<subseteq> set xs \<union> set kvs"
proof (induction xs arbitrary: kvs)
  case (Cons x xs)
  obtain k v where x: "x = (k, v)" by (cases x)
  with Cons [of "map_put k v kvs"] set_put [of k v kvs] show ?case by auto
qed simp

lemma from_members_Some:
  assumes "from_members ms = Some kvs"
  shows "ordered kvs" "(k, v) \<in> set kvs \<Longrightarrow> (k, Some v) \<in> set ms"
proof -
  from assms obtain vs where vs: "map snd ms = map Some vs" "kvs = fold (\<lambda>(k, v). map_put k v) (zip (map fst ms) vs) []"
    by (auto simp: from_members_def option_all_Some)
  from vs(2) ordered_fold_put [of "[]" "zip (map fst ms) vs"] show "ordered kvs" by (simp add: ordered_def)
  assume "(k, v) \<in> set kvs"
  with vs(2) set_fold_put [of "zip (map fst ms) vs" "[]"] have "(k, v) \<in> set (zip (map fst ms) vs)" by auto
  then obtain i where i: "i < length ms" "i < length vs" "fst (ms ! i) = k" "vs ! i = v"
    by (auto simp: in_set_zip)
  with vs(1) have "snd (ms ! i) = Some v" by (metis length_map nth_map)
  with i show "(k, Some v) \<in> set ms" by (metis nth_mem prod.collapse)
qed

lemma to_any_read_value: "to_any F v = Some g \<Longrightarrow> tidy n v \<Longrightarrow> read_value F n g"
proof (induction F v arbitrary: g n rule: to_any.induct)
  case (5 F vs)
  then obtain gs where "g = VList gs" "map (to_any F) vs = map Some gs" by (auto simp: option_all_Some)
  moreover from this(2) have "\<forall>x \<in> set gs. \<exists>v \<in> set vs. to_any F v = Some x"
    by (metis (no_types, lifting) image_eqI image_iff list.set_map)
  ultimately show ?case using 5 by fastforce
next
  case (6 F ms)
  then obtain kvs where g: "g = VMap kvs" and kvs: "from_members (map (\<lambda>(k, v). (k, to_any F v)) ms) = Some kvs" by auto
  have "valid_utf8 k \<and> read_value F (n - 1) x" if "(k, x) \<in> set kvs" for k x
  proof -
    from from_members_Some(2) [OF kvs that] obtain v where "(k, v) \<in> set ms" "to_any F v = Some x" by auto
    with 6 show ?thesis by fastforce
  qed
  with 6 g from_members_Some(1) [OF kvs] show ?case by auto
qed auto

lemma put_last: "ordered kvs \<Longrightarrow> \<forall>a \<in> set (map fst kvs). a < k \<Longrightarrow> map_put k v kvs = kvs @ [(k, v)]"
  by (induction k v kvs rule: map_put.induct) (auto simp: ordered_def)

lemma fold_put_ordered: "ordered (xs @ kvs) \<Longrightarrow> fold (\<lambda>(k, v). map_put k v) kvs xs = xs @ kvs"
proof (induction kvs arbitrary: xs)
  case (Cons x kvs)
  obtain k v where x: "x = (k, v)" by (cases x)
  with Cons.prems have "map_put k v xs = xs @ [(k, v)]" by (intro put_last) (auto simp: ordered_def sorted_wrt_append)
  with Cons.IH [of "xs @ [(k, v)]"] Cons.prems x show ?case by simp
qed simp

lemma from_members_ordered: "ordered kvs \<Longrightarrow> from_members (map (\<lambda>x. (fst x, Some (snd x))) kvs) = Some kvs"
  using fold_put_ordered [of "[]" kvs]
  by (simp add: from_members_def option_all_Some [THEN iffD2, of _ "map snd kvs"] case_prod_unfold comp_def zip_map_fst_snd)

lemma any_json_back:
  "float_laws F \<Longrightarrow> read_value F n g \<Longrightarrow> to_any F (any_json F g) = Some g \<and> scrub (any_json F g) = any_json F g \<and>
    writable n (any_json F g)"
proof (induction F g arbitrary: n rule: any_json.induct)
  case (7 F vs)
  then have "map (to_any F \<circ> any_json F) vs = map Some vs" "map (scrub \<circ> any_json F) vs = map (any_json F) vs"
    by (auto intro!: map_cong)
  with 7 show ?case by (auto simp: option_all_Some)
next
  case (8 F kvs)
  have each: "to_any F (any_json F v) = Some v \<and> scrub (any_json F v) = any_json F v \<and> writable (n - 1) (any_json F v) \<and> to_valid k = k"
    if "(k, v) \<in> set kvs" for k v
    using 8 that by (fastforce simp: valid_utf8_fixed)
  then have eqs: "map (\<lambda>x. (fst x, to_any F (any_json F (snd x)))) kvs = map (\<lambda>x. (fst x, Some (snd x))) kvs"
    "map (\<lambda>x. (to_valid (fst x), scrub (any_json F (snd x)))) kvs = map (\<lambda>x. (fst x, any_json F (snd x))) kvs"
    by auto
  have "to_any F (any_json F (VMap kvs)) = map_option VMap (from_members (map (\<lambda>x. (fst x, to_any F (any_json F (snd x)))) kvs))"
    "scrub (any_json F (VMap kvs)) = JObj (map (\<lambda>x. (to_valid (fst x), scrub (any_json F (snd x)))) kvs)"
    by (simp_all add: comp_def case_prod_unfold)
  moreover have "ordered kvs" using 8 by simp
  ultimately have "to_any F (any_json F (VMap kvs)) = Some (VMap kvs)" "scrub (any_json F (VMap kvs)) = any_json F (VMap kvs)"
    unfolding eqs by (simp_all add: from_members_ordered case_prod_unfold)
  moreover have "writable n (any_json F (VMap kvs))" using 8 each by auto
  ultimately show ?case by blast
qed (auto simp: float_laws_def valid_utf8_fixed)

text \<open>A map that was read survives being written and read again.\<close>

definition read_params :: "floatText \<Rightarrow> params \<Rightarrow> bool" where
  "read_params F m \<longleftrightarrow> finite (dom m) \<and> (\<forall>k v. m k = Some v \<longrightarrow> valid_utf8 k \<and> read_value F (maxNestingDepth - 1) v)"

lemma read_params_add: "read_params F m \<Longrightarrow> read_params F m' \<Longrightarrow> read_params F (m ++ m')"
  by (auto simp: read_params_def map_add_Some_iff)

lemma read_params_empty [simp]: "read_params F Map.empty"
  by (simp add: read_params_def)

lemma to_map_read:
  assumes "to_map F v = Some (Some m)" "tidy maxNestingDepth v"
  shows "read_params F m"
proof -
  from assms(1) obtain kvs where kvs: "to_any F v = Some (VMap kvs)" "m = map_of kvs"
    by (auto simp: to_map_def split: json.splits option.splits gvalue.splits)
  from to_any_read_value [OF kvs(1) assms(2)] kvs(2) show ?thesis
    by (auto simp: read_params_def finite_dom_map_of dest!: map_of_SomeD)
qed

lemma map_json_back:
  assumes "float_laws F" "read_params F m"
  shows "Unmarshal (encode (map_json F m)) = Some (map_json F m)" "to_map F (map_json F m) = Some (Some m)"
proof -
  define kvs where "kvs = map (\<lambda>k. (k, the (m k))) (sorted_list_of_set (dom m))"
  have "finite (dom m)" using assms(2) by (simp add: read_params_def)
  then have keys: "map fst kvs = sorted_list_of_set (dom m)" "set kvs = (\<lambda>k. (k, the (m k))) ` dom m"
    by (simp_all add: kvs_def comp_def)
  have o: "ordered kvs" by (simp add: ordered_def keys(1) strict_sorted_list_of_set)
  have "map_of kvs k = m k" for k
    using keys(2) o by (cases "m k")
      (auto simp: kvs_def map_of_eq_None_iff comp_def \<open>finite (dom m)\<close> ordered_def strict_sorted_iff
        intro!: map_of_is_SomeI)
  then have m: "map_of kvs = m" by (rule ext)
  have "read_value F maxNestingDepth (VMap kvs)"
    using assms(2) o keys(2) by (auto simp: read_params_def maxNestingDepth_def)
  note again = any_json_back [OF assms(1) this]
  have j: "map_json F m = any_json F (VMap kvs)" by (simp only: map_json_def kvs_def)
  from again show "Unmarshal (encode (map_json F m)) = Some (map_json F m)"
    unfolding j by (metis read_json_encode(1))
  from again show "to_map F (map_json F m) = Some (Some m)"
    unfolding j using m by (simp add: to_map_def)
qed

section \<open>Structs\<close>

text \<open>
  A key names the field with that JSON name, or else the first whose name folds to the same text:
  letters without case, and the two runes that fold to an ASCII letter (the long s and the Kelvin sign).
\<close>

definition fold_byte :: "char \<Rightarrow> nat" where
  "fold_byte a = (if 97 \<le> byte a \<and> byte a \<le> 122 then byte a - 32 else byte a)"

fun fold_name :: "string \<Rightarrow> nat list" where
  "fold_name [] = []"
| "fold_name (a # s) =
     (if take 2 (a # s) = utf8 383 then 83 # fold_name (drop 1 s)
      else if take 3 (a # s) = utf8 8490 then 75 # fold_name (drop 2 s)
      else fold_byte a # fold_name s)"

type_synonym 's setter = "json \<Rightarrow> 's \<Rightarrow> 's option"

definition field_of :: "(string \<times> 's setter) list \<Rightarrow> string \<Rightarrow> 's setter option" where
  "field_of fs k = (case map_of fs k of
     Some f \<Rightarrow> Some f
   | None \<Rightarrow> map_of (map (\<lambda>(n, f). (fold_name n, f)) fs) (fold_name k))"

text \<open>Members are taken in order, unknown ones skipped; a value of the wrong type makes the whole fail.\<close>

fun set_fields :: "(string \<times> 's setter) list \<Rightarrow> (string \<times> json) list \<Rightarrow> 's \<Rightarrow> 's option" where
  "set_fields fs [] s = Some s"
| "set_fields fs ((k, v) # ms) s = (case field_of fs k of
     None \<Rightarrow> set_fields fs ms s
   | Some f \<Rightarrow> (case f v s of None \<Rightarrow> None | Some s' \<Rightarrow> set_fields fs ms s'))"

definition to_struct :: "(string \<times> 's setter) list \<Rightarrow> json \<Rightarrow> 's \<Rightarrow> 's option" where
  "to_struct fs v s = (case v of JNull \<Rightarrow> Some s | JObj ms \<Rightarrow> set_fields fs ms s | _ \<Rightarrow> None)"

definition set_string :: "(string \<Rightarrow> 's \<Rightarrow> 's) \<Rightarrow> 's setter" where
  "set_string upd v s = (case v of JNull \<Rightarrow> Some s | JStr x \<Rightarrow> Some (upd x s) | _ \<Rightarrow> None)"

text \<open>\<open>strconv.ParseInt\<close> of a literal, within a range.\<close>

definition parse_int :: "string \<Rightarrow> int option" where
  "parse_int l = (case l of
     [] \<Rightarrow> None
   | c # ds \<Rightarrow>
       if c = CHR ''-'' then (if ds \<noteq> [] \<and> list_all is_digit ds then Some (- int (decimal 0 ds)) else None)
       else if list_all is_digit l then Some (int (decimal 0 l)) else None)"

definition set_int :: "int \<Rightarrow> int \<Rightarrow> (int \<Rightarrow> 's \<Rightarrow> 's) \<Rightarrow> 's setter" where
  "set_int lo hi upd v s = (case v of
     JNull \<Rightarrow> Some s
   | JNum l \<Rightarrow> (case parse_int l of None \<Rightarrow> None | Some i \<Rightarrow> if lo \<le> i \<and> i \<le> hi then Some (upd i s) else None)
   | _ \<Rightarrow> None)"

text \<open>A pointer to an integer: null makes it nil.\<close>

definition set_int_pointer :: "int \<Rightarrow> int \<Rightarrow> (int option \<Rightarrow> 's \<Rightarrow> 's) \<Rightarrow> 's setter" where
  "set_int_pointer lo hi upd v s = (case v of
     JNull \<Rightarrow> Some (upd None s)
   | _ \<Rightarrow> set_int lo hi (\<lambda>i. upd (Some i)) v s)"

text \<open>A pointer to a 64-bit unsigned integer, which takes no sign, and one to a struct.\<close>

definition set_uint64_pointer :: "(uint64 option \<Rightarrow> 's \<Rightarrow> 's) \<Rightarrow> 's setter" where
  "set_uint64_pointer upd v s = (case v of
     JNull \<Rightarrow> Some (upd None s)
   | JNum l \<Rightarrow> if l \<noteq> [] \<and> list_all is_digit l \<and> decimal 0 l < 2 ^ 64 then Some (upd (Some (of_nat (decimal 0 l))) s) else None
   | _ \<Rightarrow> None)"

definition set_pointer :: "'e setter \<Rightarrow> 'e \<Rightarrow> ('s \<Rightarrow> 'e option) \<Rightarrow> ('e option \<Rightarrow> 's \<Rightarrow> 's) \<Rightarrow> 's setter" where
  "set_pointer elem zero get upd v s = (case v of
     JNull \<Rightarrow> Some (upd None s)
   | _ \<Rightarrow> map_option (\<lambda>e. upd (Some e) s) (elem v (case get s of None \<Rightarrow> zero | Some e \<Rightarrow> e)))"

definition set_nested :: "'e setter \<Rightarrow> ('s \<Rightarrow> 'e) \<Rightarrow> ('e \<Rightarrow> 's \<Rightarrow> 's) \<Rightarrow> 's setter" where
  "set_nested elem get upd v s = map_option (\<lambda>e. upd e s) (elem v (get s))"

text \<open>A map field: null makes it nil; an object is added to what is there.\<close>

definition set_map :: "floatText \<Rightarrow> ('s \<Rightarrow> params option) \<Rightarrow> (params option \<Rightarrow> 's \<Rightarrow> 's) \<Rightarrow> 's setter" where
  "set_map F get upd v s = (case to_map F v of
     None \<Rightarrow> None
   | Some None \<Rightarrow> Some (upd None s)
   | Some (Some m) \<Rightarrow> Some (upd (Some (case get s of None \<Rightarrow> m | Some m0 \<Rightarrow> m0 ++ m)) s))"

text \<open>A slice: null makes it nil; an element is read over the one already at its place.\<close>

definition set_list :: "'e setter \<Rightarrow> 'e \<Rightarrow> ('s \<Rightarrow> 'e list) \<Rightarrow> ('e list \<Rightarrow> 's \<Rightarrow> 's) \<Rightarrow> 's setter" where
  "set_list elem zero get upd v s = (case v of
     JNull \<Rightarrow> Some (upd [] s)
   | JArr vs \<Rightarrow> map_option (\<lambda>es. upd es s)
       (option_all (map2 elem vs (get s @ replicate (length vs) zero)))
   | _ \<Rightarrow> None)"

lemma parse_show_int [simp]: "parse_int (show_int i) = Some i"
proof -
  have *: "hd (show_nat n) \<noteq> CHR ''-''" for n using hd_show_nat [of n] by (auto simp: is_digit_def)
  show ?thesis
  proof (cases "i < 0")
    case True
    then show ?thesis by (simp add: parse_int_def show_int_def show_nat_digits decimal_show_nat)
  next
    case False
    with * [of "nat i"] show ?thesis using show_nat_digits [of "nat i"] decimal_show_nat [of "nat i"]
      by (cases "show_nat (nat i)") (simp_all add: parse_int_def show_int_def)
  qed
qed

text \<open>\<open>json.Marshal\<close> cannot fail on what the sources give it: there is no channel, function or cycle among it.\<close>

definition Marshal :: "json \<Rightarrow> go_error + string" where
  "Marshal v = Inr (encode v)"

text \<open>What every field keeps of a struct, reading keeps.\<close>

lemma tidy_mono: "tidy n v \<Longrightarrow> n \<le> m \<Longrightarrow> tidy m v"
proof (induction n v arbitrary: m rule: tidy.induct)
  case (2 n vs)
  have "tidy (m - 1) v" if "v \<in> set vs" for v using 2(1) [OF that, of "m - 1"] 2(2,3) that by simp
  with 2(2,3) show ?case by simp
next
  case (3 n kvs)
  have "tidy (m - 1) v" if "(k, v) \<in> set kvs" for k v
    using 3(1) [OF that refl, of "m - 1"] 3(2,3) that by auto
  with 3(2,3) show ?case by auto
qed simp_all

lemma field_of_in: "field_of fs k = Some f \<Longrightarrow> \<exists>n. (n, f) \<in> set fs"
  by (auto simp: field_of_def split: option.splits dest!: map_of_SomeD)

lemma set_fields_invariant:
  assumes keeps: "\<And>n f v s s'. (n, f) \<in> set fs \<Longrightarrow> tidy d v \<Longrightarrow> P s \<Longrightarrow> f v s = Some s' \<Longrightarrow> P s'"
  shows "set_fields fs ms s = Some s' \<Longrightarrow> \<forall>(k, v) \<in> set ms. tidy d v \<Longrightarrow> P s \<Longrightarrow> P s'"
proof (induction ms arbitrary: s)
  case (Cons m ms)
  obtain k v where m: "m = (k, v)" by (cases m)
  show ?case
  proof (cases "field_of fs k")
    case None
    with Cons m show ?thesis by simp
  next
    case (Some f)
    with Cons.prems m obtain t where t: "f v s = Some t" "set_fields fs ms t = Some s'" by (auto split: option.splits)
    from Some obtain n where n: "(n, f) \<in> set fs" using field_of_in by blast
    from keeps [OF n _ Cons.prems(3) t(1)] Cons.prems(2) m have "P t" by simp
    with Cons.IH [OF t(2)] Cons.prems(2) show ?thesis by simp
  qed
qed simp

lemma to_struct_invariant:
  assumes keeps: "\<And>n f v s s'. (n, f) \<in> set fs \<Longrightarrow> tidy d v \<Longrightarrow> P s \<Longrightarrow> f v s = Some s' \<Longrightarrow> P s'"
    and "to_struct fs v s = Some s'" "tidy d v" "P s"
  shows "P s'"
proof (cases v)
  case (JObj ms)
  have "\<forall>(k, u) \<in> set ms. tidy d u" using assms(3) JObj by (auto intro: tidy_mono)
  with set_fields_invariant [OF keeps, where ms = ms and s = s and s' = s'] assms(2,4) JObj show ?thesis
    by (simp add: to_struct_def)
qed (use assms(2,4) in \<open>simp_all add: to_struct_def\<close>)

text \<open>A field that holds a configuration keeps one that was read.\<close>

definition read_config :: "floatText \<Rightarrow> params option \<Rightarrow> bool" where
  "read_config F cfg \<longleftrightarrow> (\<forall>m. cfg = Some m \<longrightarrow> read_params F m)"

lemma set_map_read:
  assumes "set_map F get upd v s = Some s'" "tidy maxNestingDepth v" "read_config F (get s)"
  obtains x where "s' = upd x s" "read_config F x"
proof (cases "to_map F v")
  case (Some mo)
  show ?thesis
  proof (cases mo)
    case None
    with Some assms(1) that [of None] show ?thesis by (simp add: set_map_def read_config_def)
  next
    case (Some m)
    with \<open>to_map F v = Some mo\<close> have "read_params F m" using to_map_read assms(2) by blast
    with assms(3) have "read_config F (Some (case get s of None \<Rightarrow> m | Some m0 \<Rightarrow> m0 ++ m))"
      by (auto simp: read_config_def read_params_add split: option.splits)
    with Some \<open>to_map F v = Some mo\<close> assms(1) that show ?thesis by (auto simp: set_map_def)
  qed
qed (use assms(1) in \<open>simp add: set_map_def\<close>)

section \<open>ASCII texts\<close>

fun ascii :: "string \<Rightarrow> bool" where
  "ascii [] = True"
| "ascii (c # s) = (byte c < 128 \<and> ascii s)"

lemma byte_Char [simp]: "byte (Char a b c d e f g h) = of_char (Char a b c d e f g h)"
  by (simp add: byte_def)

lemma ascii_valid [simp]: "ascii s \<Longrightarrow> valid_utf8 s"
  by (induction s) simp_all

lemma ascii_fixed [simp]: "ascii s \<Longrightarrow> to_valid s = s"
  by (simp add: valid_utf8_fixed)

lemma ascii_fold [simp]: "ascii s \<Longrightarrow> fold_name s = map fold_byte s"
proof (induction s)
  case (Cons a s)
  have "hd (utf8 383) = char_of (197 :: nat)" "hd (utf8 8490) = char_of (226 :: nat)" "utf8 383 \<noteq> []" "utf8 8490 \<noteq> []"
    by (simp_all add: utf8_def)
  moreover have "a \<noteq> char_of (197 :: nat)" "a \<noteq> char_of (226 :: nat)" using Cons.prems by auto
  ultimately have "take 2 (a # s) \<noteq> utf8 383" "take 3 (a # s) \<noteq> utf8 8490" by (auto simp: utf8_def)
  with Cons show ?case by simp
qed simp

lemma fold_byte_Char [simp]: "fold_byte (Char a b c d e f g h) =
    (let n = of_char (Char a b c d e f g h) in if 97 \<le> n \<and> n \<le> 122 then n - 32 else n)"
  by (simp add: fold_byte_def Let_def)

declare fold_name.simps [simp del]

declare rune_size.simps [simp del] valid_utf8.simps [simp del] to_valid.simps [simp del]
  escape.simps [simp del] unquote.simps [simp del]

lemmas json_struct_defs = to_struct_def field_of_def set_string_def set_int_def set_int_pointer_def set_uint64_pointer_def
  set_pointer_def set_nested_def set_map_def set_list_def

end
