(* ===== verification/Kube.thy ===== *)
theory Kube
  imports JsonValues
begin

text \<open>
  The data the operator shares with Kubernetes and the parameters that stand for code outside
  the repository. The records are the fragments of the API types that the sources fill in or
  read, \<open>workload\<close> and its parts being the repository's own CRD types (api/v1alpha1). A
  parameter record \<open>lib\<close> holds the pure library helpers (apimachinery, controller-runtime,
  resource quantities, float64 texts, regular expressions, time formatting); \<open>'w kube\<close> holds the API
  operations over an unknown world \<open>'w\<close>. What the sources rely on of \<open>lib\<close> is stated by the
  law predicates at the end.
\<close>

section \<open>Labels (internal/labels)\<close>

type_synonym labels = "string strmap"

definition ManagedBy :: string where "ManagedBy = ''app.kubernetes.io/managed-by''"
definition ManagedByValue :: string where "ManagedByValue = ''ai-cloud-operator''"
definition WorkloadID :: string where "WorkloadID = ''apps.aicloud.dev/workload-id''"

section \<open>Pod and service fragments\<close>

text \<open>Where the value of an environment variable comes from is kept as the document that Kubernetes' own
  decoder makes of it; the operator only passes it on.\<close>

record envVar =
  ev_name :: string
  ev_value :: string
  ev_valueFrom :: "json option"

record containerPort =
  cp_containerPort :: int32
  cp_name :: string

record volumeMount =
  vm_mountPath :: string
  vm_name :: string

text \<open>A resource quantity is the text it was parsed from, or the zero value.\<close>

datatype quantity = ZeroQuantity | MustParse string

type_synonym resourceList = "quantity strmap"

definition ResourceCPU :: string where "ResourceCPU = ''cpu''"
definition ResourceMemory :: string where "ResourceMemory = ''memory''"

definition Cpu :: "resourceList \<Rightarrow> quantity" where
  "Cpu rl = (case rl ResourceCPU of None \<Rightarrow> ZeroQuantity | Some q \<Rightarrow> q)"

definition Memory :: "resourceList \<Rightarrow> quantity" where
  "Memory rl = (case rl ResourceMemory of None \<Rightarrow> ZeroQuantity | Some q \<Rightarrow> q)"

record resourceRequirements =
  rr_limits :: resourceList
  rr_requests :: resourceList

definition no_resources :: resourceRequirements where
  "no_resources = \<lparr>rr_limits = Map.empty, rr_requests = Map.empty\<rparr>"

record probe =
  pr_failureThreshold :: int32
  pr_initialDelaySeconds :: int32
  pr_periodSeconds :: int32
  pr_httpPath :: string
  pr_httpPort :: int32
  pr_timeoutSeconds :: int32

record container =
  c_name :: string
  c_image :: string
  c_command :: "string list"
  c_env :: "envVar list"
  c_ports :: "containerPort list"
  c_livenessProbe :: "probe option"
  c_readinessProbe :: "probe option"
  c_resources :: resourceRequirements
  c_volumeMounts :: "volumeMount list"

definition empty_container :: container where
  "empty_container = \<lparr>c_name = [], c_image = [], c_command = [], c_env = [], c_ports = [],
     c_livenessProbe = None, c_readinessProbe = None, c_resources = no_resources,
     c_volumeMounts = []\<rparr>"

record emptyDir =
  ed_medium :: string
  ed_sizeLimit :: "quantity option"

record volume =
  v_name :: string
  v_emptyDir :: emptyDir

record servicePort =
  sp_name :: string
  sp_port :: int32
  sp_targetPort :: int32

section \<open>The Workload resource (api/v1alpha1)\<close>

datatype conditionStatus = ConditionTrue | ConditionFalse | ConditionUnknown

record condition =
  cond_type :: string
  cond_status :: conditionStatus
  cond_reason :: string
  cond_message :: string
  cond_observedGeneration :: int64

record workloadSpec =
  templateName :: string
  image :: string
  replicas :: "int32 option"
  containerPort :: int32
  env :: "envVar list"
  subdomain :: string
  userID :: string
  config :: "string option"
  suspended :: bool
  lastRedeployedAt :: string

record workloadStatus =
  phase :: string
  readyReplicas :: int32
  observedGeneration :: int64
  conditions :: "condition list"

record workload =
  w_name :: string
  w_generateName :: string
  w_namespace :: string
  w_uid :: string
  w_generation :: int64
  w_labels :: labels
  w_finalizers :: "string list"
  w_deletionTimestamp :: "int option"
  spec :: workloadSpec
  status :: workloadStatus

definition PhaseDeploying :: string where "PhaseDeploying = ''Deploying''"
definition PhaseRunning :: string where "PhaseRunning = ''Running''"
definition PhaseFailed :: string where "PhaseFailed = ''Failed''"
definition PhaseStopped :: string where "PhaseStopped = ''Stopped''"
definition ConditionTypeReady :: string where "ConditionTypeReady = ''Ready''"
definition DefaultReplicas :: int32 where "DefaultReplicas = 1"

lemmas phase_defs = PhaseDeploying_def PhaseRunning_def PhaseFailed_def PhaseStopped_def

definition empty_spec :: workloadSpec where
  "empty_spec = \<lparr>templateName = [], image = [], replicas = None, containerPort = 0, env = [],
     subdomain = [], userID = [], config = None, suspended = False, lastRedeployedAt = []\<rparr>"

text \<open>What the API server makes of a spec the operator sends: the defaults that the CRD declares for absent
  fields. A port of zero is absent from what is sent (\<open>omitempty\<close>).\<close>

definition crd_default :: "workloadSpec \<Rightarrow> workloadSpec" where
  "crd_default s = s\<lparr>replicas := Some (case replicas s of None \<Rightarrow> 1 | Some n \<Rightarrow> n),
     containerPort := (if containerPort s = 0 then 8080 else containerPort s)\<rparr>"

definition empty_status :: workloadStatus where
  "empty_status = \<lparr>phase = [], readyReplicas = 0, observedGeneration = 0, conditions = []\<rparr>"

definition empty_workload :: workload where
  "empty_workload = \<lparr>w_name = [], w_generateName = [], w_namespace = [], w_uid = [],
     w_generation = 0, w_labels = Map.empty, w_finalizers = [], w_deletionTimestamp = None,
     spec = empty_spec, status = empty_status\<rparr>"

section \<open>The other objects the operator reads and writes\<close>

record deployment =
  d_name :: string
  d_namespace :: string
  d_labels :: labels
  d_replicas :: "int32 option"
  d_selector :: labels
  d_podLabels :: labels
  d_containers :: "container list"
  d_initContainers :: "container list"
  d_volumes :: "volume list"
  d_owners :: "string list"
  d_readyReplicas :: int32

record service =
  s_name :: string
  s_namespace :: string
  s_labels :: labels
  s_selector :: labels
  s_ports :: "servicePort list"
  s_owners :: "string list"

record podCondition =
  pc_type :: string
  pc_status :: conditionStatus
  pc_reason :: string
  pc_message :: string
  pc_lastTransitionTime :: int

record pod =
  p_name :: string
  p_namespace :: string
  p_labels :: labels
  p_nodeName :: string
  p_phase :: string
  p_conditions :: "podCondition list"

record node =
  n_name :: string
  n_allocatable :: resourceList

record secret =
  sec_name :: string
  sec_namespace :: string
  sec_labels :: labels
  sec_type :: string
  sec_data :: "string strmap"

section \<open>Parameters for library code\<close>

record lib =
  findStatusCondition :: "condition list \<Rightarrow> string \<Rightarrow> condition option"
  setStatusCondition :: "condition list \<Rightarrow> condition \<Rightarrow> condition list"
  containsFinalizer :: "string list \<Rightarrow> string \<Rightarrow> bool"
  addFinalizer :: "string list \<Rightarrow> string \<Rightarrow> string list"
  removeFinalizer :: "string list \<Rightarrow> string \<Rightarrow> string list"
  setControllerReference :: "workload \<Rightarrow> string list \<Rightarrow> go_error + string list"
  milliValue :: "quantity \<Rightarrow> int64"
  quantityValue :: "quantity \<Rightarrow> int64"
  isDNS1123Label :: "string \<Rightarrow> string list"
  regexMatch :: "string \<Rightarrow> string \<Rightarrow> go_error + bool"
  formatG :: "rat \<Rightarrow> string"
  int32OutOfRange :: "rat \<Rightarrow> int32"
  floats :: floatText
  jsonError :: "string \<Rightarrow> go_error"
  rfc3339 :: "int \<Rightarrow> string"
  rfc3339Nano :: "int \<Rightarrow> string"

text \<open>\<open>json.Marshal\<close> of a map and \<open>json.Unmarshal\<close> into one; \<open>jsonError\<close> is the error a text meets.\<close>

definition jsonMarshal :: "lib \<Rightarrow> params \<Rightarrow> go_error + string" where
  "jsonMarshal L m = Marshal (map_json (floats L) m)"

definition jsonUnmarshal :: "lib \<Rightarrow> string \<Rightarrow> go_error + params" where
  "jsonUnmarshal L s = (case Option.bind (Unmarshal s) (to_map (floats L)) of
     None \<Rightarrow> Inl (jsonError L s)
   | Some None \<Rightarrow> Inr Map.empty
   | Some (Some m) \<Rightarrow> Inr m)"

record 'w kube =
  k_now :: "'w \<Rightarrow> int \<times> 'w"
  k_getWorkload :: "string \<Rightarrow> string \<Rightarrow> 'w \<Rightarrow> (go_error + workload) \<times> 'w"
  k_createWorkload :: "workload \<Rightarrow> 'w \<Rightarrow> (go_error + workload) \<times> 'w"
  k_updateWorkload :: "workload \<Rightarrow> 'w \<Rightarrow> (go_error + workload) \<times> 'w"
  k_statusUpdateWorkload :: "workload \<Rightarrow> 'w \<Rightarrow> (go_error + workload) \<times> 'w"
  k_deleteWorkload :: "string \<Rightarrow> string \<Rightarrow> 'w \<Rightarrow> go_error option \<times> 'w"
  k_createOrUpdateWorkload ::
    "string \<Rightarrow> string \<Rightarrow> (workload \<Rightarrow> go_error + workload) \<Rightarrow> 'w \<Rightarrow> (go_error + workload) \<times> 'w"
  k_getDeployment :: "string \<Rightarrow> string \<Rightarrow> 'w \<Rightarrow> (go_error + deployment) \<times> 'w"
  k_createOrUpdateDeployment ::
    "string \<Rightarrow> string \<Rightarrow> (deployment \<Rightarrow> go_error + deployment) \<Rightarrow> 'w \<Rightarrow> go_error option \<times> 'w"
  k_createOrUpdateService ::
    "string \<Rightarrow> string \<Rightarrow> (service \<Rightarrow> go_error + service) \<Rightarrow> 'w \<Rightarrow> go_error option \<times> 'w"
  k_getService :: "string \<Rightarrow> string \<Rightarrow> 'w \<Rightarrow> (go_error + service) \<times> 'w"
  k_listPods :: "string \<Rightarrow> labels \<Rightarrow> 'w \<Rightarrow> (go_error + pod list) \<times> 'w"
  k_listNodes :: "'w \<Rightarrow> (go_error + node list) \<times> 'w"
  k_listDeployments :: "string \<Rightarrow> labels \<Rightarrow> 'w \<Rightarrow> (go_error + deployment list) \<times> 'w"
  k_getSecret :: "string \<Rightarrow> string \<Rightarrow> 'w \<Rightarrow> (go_error + secret) \<times> 'w"
  k_createSecret :: "secret \<Rightarrow> 'w \<Rightarrow> go_error option \<times> 'w"
  k_updateSecret :: "secret \<Rightarrow> 'w \<Rightarrow> go_error option \<times> 'w"
  k_createNamespace :: "string \<Rightarrow> labels \<Rightarrow> 'w \<Rightarrow> go_error option \<times> 'w"
  k_patchNamespace :: "string \<Rightarrow> labels \<Rightarrow> 'w \<Rightarrow> go_error option \<times> 'w"

subsection \<open>Calls to the API server\<close>

text \<open>
  The history of a program that talks to Kubernetes: each call with its arguments and outcome,
  the clock readings, and the calls \<open>Other\<close> of the component's own kind. The mutate functions
  of \<open>controllerutil.CreateOrUpdate\<close> are recorded as they are passed.
\<close>

datatype 'n call =
    CNow int
  | CGetWorkload string string "go_error + workload"
  | CCreateWorkload workload "go_error + workload"
  | CUpdateWorkload workload "go_error + workload"
  | CStatusUpdate workload "go_error + workload"
  | CDeleteWorkload string string "go_error option"
  | CApplyWorkload string string "workload \<Rightarrow> go_error + workload" "go_error + workload"
  | CGetDeployment string string "go_error + deployment"
  | CApplyDeployment string string "deployment \<Rightarrow> go_error + deployment" "go_error option"
  | CApplyService string string "service \<Rightarrow> go_error + service" "go_error option"
  | CGetService string string "go_error + service"
  | CListPods string labels "go_error + pod list"
  | CListNodes "go_error + node list"
  | CListDeployments string labels "go_error + deployment list"
  | CGetSecret string string "go_error + secret"
  | CCreateSecret secret "go_error option"
  | CUpdateSecret secret "go_error option"
  | CCreateNamespace string labels "go_error option"
  | CPatchNamespace string labels "go_error option"
  | Other 'n

type_synonym ('w, 'n, 'a) kprog = "('w, 'n call, 'a) prog"

definition now :: "'w kube \<Rightarrow> ('w, 'n, int) kprog" where
  "now K = ext (k_now K) CNow"
definition getWorkload :: "'w kube \<Rightarrow> string \<Rightarrow> string \<Rightarrow> ('w, 'n, go_error + workload) kprog" where
  "getWorkload K ns n = ext (k_getWorkload K ns n) (CGetWorkload ns n)"
definition createWorkload :: "'w kube \<Rightarrow> workload \<Rightarrow> ('w, 'n, go_error + workload) kprog" where
  "createWorkload K w = ext (k_createWorkload K w) (CCreateWorkload w)"
definition updateWorkload :: "'w kube \<Rightarrow> workload \<Rightarrow> ('w, 'n, go_error + workload) kprog" where
  "updateWorkload K w = ext (k_updateWorkload K w) (CUpdateWorkload w)"
definition statusUpdate :: "'w kube \<Rightarrow> workload \<Rightarrow> ('w, 'n, go_error + workload) kprog" where
  "statusUpdate K w = ext (k_statusUpdateWorkload K w) (CStatusUpdate w)"
definition deleteWorkload :: "'w kube \<Rightarrow> string \<Rightarrow> string \<Rightarrow> ('w, 'n, go_error option) kprog" where
  "deleteWorkload K ns n = ext (k_deleteWorkload K ns n) (CDeleteWorkload ns n)"
definition applyWorkload :: "'w kube \<Rightarrow> string \<Rightarrow> string \<Rightarrow> (workload \<Rightarrow> go_error + workload) \<Rightarrow>
    ('w, 'n, go_error + workload) kprog" where
  "applyWorkload K ns n f = ext (k_createOrUpdateWorkload K ns n f) (CApplyWorkload ns n f)"
definition getDeployment :: "'w kube \<Rightarrow> string \<Rightarrow> string \<Rightarrow> ('w, 'n, go_error + deployment) kprog" where
  "getDeployment K ns n = ext (k_getDeployment K ns n) (CGetDeployment ns n)"
definition applyDeployment :: "'w kube \<Rightarrow> string \<Rightarrow> string \<Rightarrow> (deployment \<Rightarrow> go_error + deployment) \<Rightarrow>
    ('w, 'n, go_error option) kprog" where
  "applyDeployment K ns n f = ext (k_createOrUpdateDeployment K ns n f) (CApplyDeployment ns n f)"
definition applyService :: "'w kube \<Rightarrow> string \<Rightarrow> string \<Rightarrow> (service \<Rightarrow> go_error + service) \<Rightarrow>
    ('w, 'n, go_error option) kprog" where
  "applyService K ns n f = ext (k_createOrUpdateService K ns n f) (CApplyService ns n f)"
definition getService :: "'w kube \<Rightarrow> string \<Rightarrow> string \<Rightarrow> ('w, 'n, go_error + service) kprog" where
  "getService K ns n = ext (k_getService K ns n) (CGetService ns n)"
definition listPods :: "'w kube \<Rightarrow> string \<Rightarrow> labels \<Rightarrow> ('w, 'n, go_error + pod list) kprog" where
  "listPods K ns ls = ext (k_listPods K ns ls) (CListPods ns ls)"
definition listNodes :: "'w kube \<Rightarrow> ('w, 'n, go_error + node list) kprog" where
  "listNodes K = ext (k_listNodes K) CListNodes"
definition listDeployments :: "'w kube \<Rightarrow> string \<Rightarrow> labels \<Rightarrow> ('w, 'n, go_error + deployment list) kprog" where
  "listDeployments K ns ls = ext (k_listDeployments K ns ls) (CListDeployments ns ls)"
definition getSecret :: "'w kube \<Rightarrow> string \<Rightarrow> string \<Rightarrow> ('w, 'n, go_error + secret) kprog" where
  "getSecret K ns n = ext (k_getSecret K ns n) (CGetSecret ns n)"
definition createSecret :: "'w kube \<Rightarrow> secret \<Rightarrow> ('w, 'n, go_error option) kprog" where
  "createSecret K x = ext (k_createSecret K x) (CCreateSecret x)"
definition updateSecret :: "'w kube \<Rightarrow> secret \<Rightarrow> ('w, 'n, go_error option) kprog" where
  "updateSecret K x = ext (k_updateSecret K x) (CUpdateSecret x)"
definition createNamespace :: "'w kube \<Rightarrow> string \<Rightarrow> labels \<Rightarrow> ('w, 'n, go_error option) kprog" where
  "createNamespace K n ls = ext (k_createNamespace K n ls) (CCreateNamespace n ls)"
definition patchNamespace :: "'w kube \<Rightarrow> string \<Rightarrow> labels \<Rightarrow> ('w, 'n, go_error option) kprog" where
  "patchNamespace K n ls = ext (k_patchNamespace K n ls) (CPatchNamespace n ls)"

lemmas kube_ops = now_def getWorkload_def createWorkload_def updateWorkload_def statusUpdate_def
  deleteWorkload_def applyWorkload_def getDeployment_def applyDeployment_def applyService_def
  getService_def listPods_def listNodes_def listDeployments_def getSecret_def createSecret_def
  updateSecret_def createNamespace_def patchNamespace_def

subsection \<open>What the sources rely on\<close>

text \<open>
  \<open>meta.SetStatusCondition\<close> replaces or appends the condition of that type and leaves the other
  types alone; \<open>meta.FindStatusCondition\<close> finds a condition by its type.
\<close>

definition condition_laws :: "lib \<Rightarrow> bool" where
  "condition_laws L \<longleftrightarrow> (\<forall>cs c t. findStatusCondition L (setStatusCondition L cs c) t =
     (if t = cond_type c then Some c else findStatusCondition L cs t))"

text \<open>\<open>controllerutil\<close>'s finalizer helpers are set operations on the list of finalizers.\<close>

definition finalizer_laws :: "lib \<Rightarrow> bool" where
  "finalizer_laws L \<longleftrightarrow>
     (\<forall>fs f. containsFinalizer L fs f = (f \<in> set fs)) \<and>
     (\<forall>fs f. set (addFinalizer L fs f) = insert f (set fs)) \<and>
     (\<forall>fs f. set (removeFinalizer L fs f) = set fs - {f})"

lemma condition_lawsD:
  "condition_laws L \<Longrightarrow> findStatusCondition L (setStatusCondition L cs c) t =
     (if t = cond_type c then Some c else findStatusCondition L cs t)"
  by (simp add: condition_laws_def)

lemma finalizer_lawsD:
  assumes "finalizer_laws L"
  shows "containsFinalizer L fs f = (f \<in> set fs)"
    and "set (addFinalizer L fs f) = insert f (set fs)"
    and "set (removeFinalizer L fs f) = set fs - {f}"
  using assms by (simp_all add: finalizer_laws_def)

subsection \<open>A concrete library and cluster\<close>

text \<open>An instance of the parameters that computes, for evaluating the model at concrete inputs.\<close>

primrec find_cond :: "condition list \<Rightarrow> string \<Rightarrow> condition option" where
  "find_cond [] t = None"
| "find_cond (c # cs) t = (if cond_type c = t then Some c else find_cond cs t)"

primrec set_cond :: "condition list \<Rightarrow> condition \<Rightarrow> condition list" where
  "set_cond [] c = [c]"
| "set_cond (d # ds) c = (if cond_type d = cond_type c then c # ds else d # set_cond ds c)"

lemma find_set_cond:
  "find_cond (set_cond cs c) t = (if t = cond_type c then Some c else find_cond cs t)"
  by (induction cs) auto

definition quantity_table :: "(string \<times> int64 \<times> int64) list" where
  "quantity_table =
     [(''50m'', 50, 1), (''200m'', 200, 1), (''1000m'', 1000, 1), (''1500m'', 1500, 2),
      (''64Mi'', 67108864000, 67108864), (''128Mi'', 134217728000, 134217728),
      (''1500Mi'', 1572864000000, 1572864000), (''2Gi'', 2147483648000, 2147483648),
      (''3Gi'', 3221225472000, 3221225472), (''4Gi'', 4294967296000, 4294967296)]"

definition table_milli :: "quantity \<Rightarrow> int64" where
  "table_milli q = (case q of ZeroQuantity \<Rightarrow> 0
     | MustParse t \<Rightarrow> (case map_of quantity_table t of None \<Rightarrow> 0 | Some (m, _) \<Rightarrow> m))"

definition table_value :: "quantity \<Rightarrow> int64" where
  "table_value q = (case q of ZeroQuantity \<Rightarrow> 0
     | MustParse t \<Rightarrow> (case map_of quantity_table t of None \<Rightarrow> 0 | Some (_, v) \<Rightarrow> v))"

text \<open>Whole numbers, written and read in decimal.\<close>

definition int_floats :: floatText where
  "int_floats = \<lparr>ft_format = (\<lambda>r. show_int \<lfloor>r\<rfloor>), ft_parse = (\<lambda>l. map_option of_int (parse_int l))\<rparr>"

lemma int_float_laws: "float_laws int_floats"
  by (auto simp: float_laws_def int_floats_def)

definition demo_lib :: lib where
  "demo_lib = \<lparr>findStatusCondition = find_cond, setStatusCondition = set_cond,
     containsFinalizer = (\<lambda>fs f. f \<in> set fs), addFinalizer = (\<lambda>fs f. if f \<in> set fs then fs else fs @ [f]),
     removeFinalizer = (\<lambda>fs f. filter (\<lambda>g. g \<noteq> f) fs),
     setControllerReference = (\<lambda>w os. Inr [w_uid w]),
     milliValue = table_milli, quantityValue = table_value,
     isDNS1123Label = (\<lambda>s. if s = [] then [''must be non-empty''] else []),
     regexMatch = (\<lambda>p s. Inr True), formatG = (\<lambda>r. show_int \<lfloor>r\<rfloor>),
     int32OutOfRange = (\<lambda>r. 0),
     floats = int_floats, jsonError = (\<lambda>s. ErrText ''invalid JSON''),
     rfc3339 = show_int, rfc3339Nano = show_int\<rparr>"

lemma demo_lib_simps [simp]:
  "findStatusCondition demo_lib = find_cond" "setStatusCondition demo_lib = set_cond"
  "containsFinalizer demo_lib fs f = (f \<in> set fs)"
  "addFinalizer demo_lib fs f = (if f \<in> set fs then fs else fs @ [f])"
  "removeFinalizer demo_lib fs f = filter (\<lambda>g. g \<noteq> f) fs"
  "setControllerReference demo_lib w os = Inr [w_uid w]"
  "milliValue demo_lib = table_milli" "quantityValue demo_lib = table_value"
  "isDNS1123Label demo_lib s = (if s = [] then [''must be non-empty''] else [])"
  "regexMatch demo_lib p s = Inr True" "floats demo_lib = int_floats"
  "jsonError demo_lib s = ErrText ''invalid JSON''" "rfc3339 demo_lib = show_int"
  "rfc3339Nano demo_lib = show_int"
  by (simp_all add: demo_lib_def)

lemma demo_lib_json [simp]:
  "jsonMarshal demo_lib Map.empty = Inr ''{}''" "jsonUnmarshal demo_lib ''{}'' = Inr Map.empty"
proof -
  have "map_json int_floats Map.empty = JObj []" by (simp add: map_json_def)
  with map_json_back [OF int_float_laws, of Map.empty]
  show "jsonMarshal demo_lib Map.empty = Inr ''{}''" "jsonUnmarshal demo_lib ''{}'' = Inr Map.empty"
    by (simp_all add: jsonMarshal_def jsonUnmarshal_def Marshal_def)
qed

lemma demo_condition_laws: "condition_laws demo_lib"
  by (simp add: condition_laws_def find_set_cond)

lemma demo_finalizer_laws: "finalizer_laws demo_lib"
  by (auto simp: finalizer_laws_def)

text \<open>
  A cluster of one node and no objects, in which every write succeeds, with a given clock; and
  the same with the world for its clock.
\<close>

definition answer :: "'a \<Rightarrow> 'w \<Rightarrow> 'a \<times> 'w" where
  "answer a w = (a, w)"

definition not_found :: "string \<Rightarrow> go_error" where
  "not_found n = ApiErr NotFound (n @ '' not found'')"

definition idle_kube :: "('w \<Rightarrow> int \<times> 'w) \<Rightarrow> 'w kube" where
  "idle_kube clock = \<lparr>k_now = clock,
     k_getWorkload = (\<lambda>ns n. answer (Inl (not_found n))),
     k_createWorkload = (\<lambda>x. answer (Inr x)),
     k_updateWorkload = (\<lambda>x. answer (Inr x)),
     k_statusUpdateWorkload = (\<lambda>x. answer (Inr x)),
     k_deleteWorkload = (\<lambda>ns n. answer None),
     k_createOrUpdateWorkload = (\<lambda>ns n f. answer (f (empty_workload\<lparr>w_name := n, w_namespace := ns\<rparr>))),
     k_getDeployment = (\<lambda>ns n. answer (Inl (not_found n))),
     k_createOrUpdateDeployment = (\<lambda>ns n f. answer None),
     k_createOrUpdateService = (\<lambda>ns n f. answer None),
     k_getService = (\<lambda>ns n. answer (Inl (not_found n))),
     k_listPods = (\<lambda>ns ls. answer (Inr [])),
     k_listNodes = answer (Inr [\<lparr>n_name = ''n1'', n_allocatable =
        [ResourceCPU \<mapsto> MustParse ''1500m'', ResourceMemory \<mapsto> MustParse ''2Gi'']\<rparr>]),
     k_listDeployments = (\<lambda>ns ls. answer (Inr [])),
     k_getSecret = (\<lambda>ns n. answer (Inl (not_found n))),
     k_createSecret = (\<lambda>x. answer None),
     k_updateSecret = (\<lambda>x. answer None),
     k_createNamespace = (\<lambda>n ls. answer None),
     k_patchNamespace = (\<lambda>n ls. answer None)\<rparr>"

definition demo_kube :: "nat kube" where
  "demo_kube = idle_kube (\<lambda>w. (int w, w + 1))"

lemmas demo_kube_simps = demo_kube_def idle_kube_def answer_def not_found_def

end
