(* ===== verification/Catalog.thy ===== *)
theory Catalog
  imports Kube
begin

text \<open>
  The catalog's parameter language and its resolution (internal/catalog/types.go and
  registry.go): the types a template declares its parameters with, \<open>ResolveParams\<close> with its two
  passes (defaults, then checks), visibility and validation, the typed readers \<open>Build\<close>
  functions use, and \<open>EstimatedResources\<close>. The lemmas characterise the resolved map, when
  resolution succeeds, and that it is idempotent and free of run-time panics when the
  declared visibility values are scalars.
\<close>

section \<open>Types\<close>

datatype parameterType =
  ParameterTypeString | ParameterTypeNumber | ParameterTypeBoolean | ParameterTypeSelect

datatype dataSourceKind =
  DataSourceStatic | DataSourceDynamic | DataSourceSystem | DataSourceFile | DataSourceFileOptions

datatype fileDirection = DirectionUnset | DirectionUpload | DirectionDownload

record dataSource =
  ds_kind :: dataSourceKind
  ds_sourceKey :: string
  ds_direction :: fileDirection
  ds_sourceParam :: string
  ds_group :: string

datatype visibilityOp =
  VisibilityEquals | VisibilityNotEquals | VisibilityOneOf | VisibilityOther string

record visibility =
  vis_dependsOn :: string
  vis_op :: visibilityOp
  vis_value :: gvalue
  vis_values :: "gvalue list"

record validation =
  val_required :: bool
  val_min :: "rat option"
  val_max :: "rat option"
  val_regex :: string
  val_maxLength :: "int option"

record selectOption =
  so_value :: string
  so_label :: string

record parameter =
  par_key :: string
  par_label :: string
  par_description :: string
  par_type :: parameterType
  par_dataSource :: dataSource
  par_default :: gvalue
  par_options :: "selectOption list"
  par_visibility :: "visibility option"
  par_validation :: validation

record rendered =
  r_containers :: "container list"
  r_initContainers :: "container list"
  r_volumes :: "volume list"
  r_servicePorts :: "servicePort list"

definition empty_rendered :: rendered where
  "empty_rendered = \<lparr>r_containers = [], r_initContainers = [], r_volumes = [], r_servicePorts = []\<rparr>"

record podRef =
  pr_namespace :: string
  pr_podName :: string

datatype additionalInfoType = AdditionalInfoSecret | AdditionalInfoPlain

record additionalInfo =
  ai_name :: string
  ai_type :: additionalInfoType
  ai_value :: gvalue

record fileResult =
  fr_type :: string
  fr_label :: string

record operationResult =
  or_additionalInfo :: "additionalInfo list"
  or_file :: "fileResult option"

text \<open>
  An operation's \<open>Run\<close> talks to the pod through the \<open>PodExecutor\<close> interface and reads the
  clock. It is the tree of those interactions: run a command in a container and go on with its
  standard output, standard error and error; read the clock and go on with the time.
\<close>

datatype 'a interaction =
    Done 'a
  | Exec string string string "string list" "string \<times> string \<times> go_error option \<Rightarrow> 'a interaction"
  | Now "int \<Rightarrow> 'a interaction"

record operation =
  op_key :: string
  op_label :: string
  op_description :: string
  op_parameters :: "parameter list"
  op_refreshable :: bool
  op_run :: "podRef \<Rightarrow> params \<Rightarrow> (go_error + operationResult) interaction"

record entrypoint =
  ep_name :: string
  ep_label :: string

record template =
  t_id :: string
  t_name :: string
  t_description :: string
  t_icon :: string
  t_version :: string
  t_parameters :: "parameter list"
  t_entrypoints :: "entrypoint list"
  t_operations :: "operation list"
  t_build :: "params \<Rightarrow> go_error + rendered"

section \<open>JSON of the catalog\<close>

text \<open>
  The fields in the order of the structs, under the names of their tags; a field marked \<open>omitempty\<close> is
  left out when it holds its zero value. \<open>Build\<close> and \<open>Run\<close> are not written. A nil slice is null.
\<close>

definition slice_json :: "('a \<Rightarrow> json) \<Rightarrow> 'a list \<Rightarrow> json" where
  "slice_json f xs = (if xs = [] then JNull else JArr (map f xs))"

definition omit_string :: "string \<Rightarrow> string \<Rightarrow> (string \<times> json) list" where
  "omit_string k s = (if s = [] then [] else [(k, JStr s)])"

definition omit_none :: "string \<Rightarrow> ('a \<Rightarrow> json) \<Rightarrow> 'a option \<Rightarrow> (string \<times> json) list" where
  "omit_none k f x = (case x of None \<Rightarrow> [] | Some a \<Rightarrow> [(k, f a)])"

definition omit_list :: "string \<Rightarrow> ('a \<Rightarrow> json) \<Rightarrow> 'a list \<Rightarrow> (string \<times> json) list" where
  "omit_list k f xs = (if xs = [] then [] else [(k, JArr (map f xs))])"

definition omit_nil :: "floatText \<Rightarrow> string \<Rightarrow> gvalue \<Rightarrow> (string \<times> json) list" where
  "omit_nil F k v = (if v = VNil then [] else [(k, any_json F v)])"

fun parameterType_text :: "parameterType \<Rightarrow> string" where
  "parameterType_text ParameterTypeString = ''string''"
| "parameterType_text ParameterTypeNumber = ''number''"
| "parameterType_text ParameterTypeBoolean = ''boolean''"
| "parameterType_text ParameterTypeSelect = ''select''"

fun dataSourceKind_text :: "dataSourceKind \<Rightarrow> string" where
  "dataSourceKind_text DataSourceStatic = ''static''"
| "dataSourceKind_text DataSourceDynamic = ''dynamic''"
| "dataSourceKind_text DataSourceSystem = ''system''"
| "dataSourceKind_text DataSourceFile = ''file''"
| "dataSourceKind_text DataSourceFileOptions = ''fileOptions''"

fun fileDirection_text :: "fileDirection \<Rightarrow> string" where
  "fileDirection_text DirectionUnset = []"
| "fileDirection_text DirectionUpload = ''upload''"
| "fileDirection_text DirectionDownload = ''download''"

fun visibilityOp_text :: "visibilityOp \<Rightarrow> string" where
  "visibilityOp_text VisibilityEquals = ''equals''"
| "visibilityOp_text VisibilityNotEquals = ''notEquals''"
| "visibilityOp_text VisibilityOneOf = ''oneOf''"
| "visibilityOp_text (VisibilityOther s) = s"

definition dataSource_json :: "dataSource \<Rightarrow> json" where
  "dataSource_json d = JObj ([(''kind'', JStr (dataSourceKind_text (ds_kind d)))] @
     omit_string ''sourceKey'' (ds_sourceKey d) @ omit_string ''direction'' (fileDirection_text (ds_direction d)) @
     omit_string ''sourceParam'' (ds_sourceParam d) @ omit_string ''group'' (ds_group d))"

definition visibility_json :: "floatText \<Rightarrow> visibility \<Rightarrow> json" where
  "visibility_json F v = JObj ([(''dependsOn'', JStr (vis_dependsOn v)), (''op'', JStr (visibilityOp_text (vis_op v)))] @
     omit_nil F ''value'' (vis_value v) @ omit_list ''values'' (any_json F) (vis_values v))"

definition validation_json :: "floatText \<Rightarrow> validation \<Rightarrow> json" where
  "validation_json F v = JObj ([(''required'', JBool (val_required v))] @
     omit_none ''min'' (\<lambda>r. JNum (ft_format F r)) (val_min v) @ omit_none ''max'' (\<lambda>r. JNum (ft_format F r)) (val_max v) @
     omit_string ''regex'' (val_regex v) @ omit_none ''maxLength'' (\<lambda>i. JNum (show_int i)) (val_maxLength v))"

definition selectOption_json :: "selectOption \<Rightarrow> json" where
  "selectOption_json o' = JObj [(''value'', JStr (so_value o')), (''label'', JStr (so_label o'))]"

definition parameter_json :: "floatText \<Rightarrow> parameter \<Rightarrow> json" where
  "parameter_json F p = JObj ([(''key'', JStr (par_key p)), (''label'', JStr (par_label p))] @
     omit_string ''description'' (par_description p) @ [(''type'', JStr (parameterType_text (par_type p))),
     (''dataSource'', dataSource_json (par_dataSource p))] @ omit_nil F ''default'' (par_default p) @
     omit_list ''options'' selectOption_json (par_options p) @
     omit_none ''visibility'' (visibility_json F) (par_visibility p) @
     [(''validation'', validation_json F (par_validation p))])"

definition operation_json :: "floatText \<Rightarrow> operation \<Rightarrow> json" where
  "operation_json F p = JObj ([(''key'', JStr (op_key p)), (''label'', JStr (op_label p))] @
     omit_string ''description'' (op_description p) @ [(''parameters'', slice_json (parameter_json F) (op_parameters p)),
     (''refreshable'', JBool (op_refreshable p))])"

definition entrypoint_json :: "entrypoint \<Rightarrow> json" where
  "entrypoint_json e = JObj [(''name'', JStr (ep_name e)), (''label'', JStr (ep_label e))]"

definition template_json :: "floatText \<Rightarrow> template \<Rightarrow> json" where
  "template_json F t = JObj ([(''id'', JStr (t_id t)), (''name'', JStr (t_name t)),
     (''description'', JStr (t_description t)), (''icon'', JStr (t_icon t)), (''version'', JStr (t_version t)),
     (''parameters'', slice_json (parameter_json F) (t_parameters t)),
     (''entrypoints'', slice_json entrypoint_json (t_entrypoints t))] @
     omit_list ''operations'' (operation_json F) (t_operations t))"

section \<open>Operations of registry.go\<close>

fun contains_any :: "gvalue list \<Rightarrow> gvalue \<Rightarrow> bool option" where
  "contains_any [] v = Some False"
| "contains_any (x # xs) v =
     (case go_eq v x of None \<Rightarrow> None | Some True \<Rightarrow> Some True | Some False \<Rightarrow> contains_any xs v)"

definition evalVisibility :: "visibility \<Rightarrow> gvalue \<Rightarrow> bool option" where
  "evalVisibility v actual = (case vis_op v of
     VisibilityEquals \<Rightarrow> go_eq actual (vis_value v)
   | VisibilityNotEquals \<Rightarrow> map_option Not (go_eq actual (vis_value v))
   | VisibilityOneOf \<Rightarrow> contains_any (vis_values v) actual
   | VisibilityOther _ \<Rightarrow> Some True)"

definition f64_of_int :: "int \<Rightarrow> rat" where
  "f64_of_int i = of_int (sgn i * int (f64_of_nat (nat \<bar>i\<bar>)))"

fun asFloat64 :: "gvalue \<Rightarrow> rat option" where
  "asFloat64 (VFloat r) = Some r"
| "asFloat64 (VInt i) = Some (f64_of_int i)"
| "asFloat64 (VInt32 w) = Some (f64_of_int (sint w))"
| "asFloat64 _ = None"

fun as_string :: "gvalue \<Rightarrow> string option" where
  "as_string (VStr s) = Some s"
| "as_string _ = None"

definition checkValidation :: "lib \<Rightarrow> validation \<Rightarrow> gvalue \<Rightarrow> go_error option" where
  "checkValidation L rule value =
     (let bounds =
        (case asFloat64 value of
           None \<Rightarrow> None
         | Some num \<Rightarrow>
             (case val_min rule of
                Some lo \<Rightarrow> if num < lo then Some (ErrText (''must be >= '' @ formatG L lo)) else
                  (case val_max rule of
                     Some hi \<Rightarrow> if num > hi then Some (ErrText (''must be <= '' @ formatG L hi)) else None
                   | None \<Rightarrow> None)
              | None \<Rightarrow>
                  (case val_max rule of
                     Some hi \<Rightarrow> if num > hi then Some (ErrText (''must be <= '' @ formatG L hi)) else None
                   | None \<Rightarrow> None)))
      in case bounds of
           Some e \<Rightarrow> Some e
         | None \<Rightarrow>
             (case as_string value of
                None \<Rightarrow> None
              | Some s \<Rightarrow>
                  if (case val_maxLength rule of None \<Rightarrow> False | Some n \<Rightarrow> int (length s) > n)
                  then Some (ErrText (''must be at most '' @ show_int (the (val_maxLength rule)) @ '' characters''))
                  else if val_regex rule \<noteq> []
                  then (case regexMatch L (val_regex rule) s of
                          Inl e \<Rightarrow> Some (Wrap (''invalid validation regex '' @ go_quote (val_regex rule) @ '': '') e [])
                        | Inr matched \<Rightarrow>
                            if matched then None
                            else Some (ErrText (''must match pattern '' @ go_quote (val_regex rule))))
                  else None))"

fun applyDefaults :: "parameter list \<Rightarrow> params \<Rightarrow> params" where
  "applyDefaults [] resolved = resolved"
| "applyDefaults (p # ps) resolved =
     applyDefaults ps
       (if resolved (par_key p) = None \<and> par_default p \<noteq> VNil
        then resolved(par_key p \<mapsto> par_default p) else resolved)"

definition present :: "params \<Rightarrow> string \<Rightarrow> bool" where
  "present m k = (case m k of None \<Rightarrow> False | Some v \<Rightarrow> v \<noteq> VNil \<and> v \<noteq> VStr [])"

definition is_visible :: "params \<Rightarrow> parameter \<Rightarrow> bool option" where
  "is_visible m p = (case par_visibility p of
     None \<Rightarrow> Some True
   | Some v \<Rightarrow> evalVisibility v (vget m (vis_dependsOn v)))"

fun checkParams :: "lib \<Rightarrow> parameter list \<Rightarrow> params \<Rightarrow> go_error option" where
  "checkParams L [] m = None"
| "checkParams L (p # ps) m =
     (case is_visible m p of
        None \<Rightarrow> Some (GoPanic ''comparing uncomparable type'')
      | Some False \<Rightarrow> checkParams L ps m
      | Some True \<Rightarrow>
          if val_required (par_validation p) \<and> \<not> present m (par_key p)
          then Some (ErrText (''missing required parameter '' @ go_quote (par_key p)))
          else if present m (par_key p)
          then (case checkValidation L (par_validation p) (vget m (par_key p)) of
                  Some e \<Rightarrow> Some (Wrap (''parameter '' @ go_quote (par_key p) @ '' invalid: '') e [])
                | None \<Rightarrow> checkParams L ps m)
          else checkParams L ps m)"

definition ResolveParams :: "lib \<Rightarrow> parameter list \<Rightarrow> params \<Rightarrow> go_error + params" where
  "ResolveParams L ps raw =
     (let resolved = applyDefaults ps raw in
      case checkParams L ps resolved of Some e \<Rightarrow> Inl e | None \<Rightarrow> Inr resolved)"

definition paramString :: "params \<Rightarrow> string \<Rightarrow> string \<Rightarrow> string" where
  "paramString ps key fallback = (case ps key of
     None \<Rightarrow> fallback
   | Some v \<Rightarrow> (case as_string v of None \<Rightarrow> fallback | Some s \<Rightarrow> if s \<noteq> [] then s else fallback))"

text \<open>
  \<open>int32(v)\<close> of a float outside the int32 range is implementation-defined in Go: the parameter
  \<open>int32OutOfRange\<close>.
\<close>

definition int32_of_float :: "lib \<Rightarrow> rat \<Rightarrow> int32" where
  "int32_of_float L v =
     (if int32_range (trunc v) then word_of_int (trunc v) else int32OutOfRange L v)"

definition paramInt32 :: "lib \<Rightarrow> params \<Rightarrow> string \<Rightarrow> int32 \<Rightarrow> int32" where
  "paramInt32 L ps key fallback = (case vget ps key of
     VFloat v \<Rightarrow> int32_of_float L v
   | VInt32 v \<Rightarrow> v
   | VInt v \<Rightarrow> word_of_int v
   | _ \<Rightarrow> fallback)"

definition int32ToString :: "int32 \<Rightarrow> string" where
  "int32ToString v = show_int (sint v)"

fun Get_in :: "template list \<Rightarrow> string \<Rightarrow> template option" where
  "Get_in [] i = None"
| "Get_in (t # ts) i = (if t_id t = i then Some t else Get_in ts i)"

fun find_operation :: "operation list \<Rightarrow> string \<Rightarrow> operation option" where
  "find_operation [] k = None"
| "find_operation (x # xs) k = (if op_key x = k then Some x else find_operation xs k)"

definition GetOperation :: "template \<Rightarrow> string \<Rightarrow> operation option" where
  "GetOperation t key = find_operation (t_operations t) key"

definition containers_requests :: "lib \<Rightarrow> container list \<Rightarrow> int64 \<times> int64" where
  "containers_requests L cs =
     (sum_list (map (\<lambda>c. milliValue L (Cpu (rr_requests (c_resources c)))) cs),
      sum_list (map (\<lambda>c. quantityValue L (Memory (rr_requests (c_resources c)))) cs))"

definition EstimatedResources :: "lib \<Rightarrow> template \<Rightarrow> int64 \<times> int64" where
  "EstimatedResources L t = (case t_build t Map.empty of
     Inl _ \<Rightarrow> (0, 0)
   | Inr r \<Rightarrow> containers_requests L (r_containers r))"

section \<open>Lemmas\<close>

subsection \<open>The resolved map\<close>

text \<open>The value a parameter list supplies for a key no caller set: the first declared default.\<close>

definition default_of :: "parameter list \<Rightarrow> string \<Rightarrow> gvalue option" where
  "default_of ps k = map_option par_default (find (\<lambda>p. par_key p = k \<and> par_default p \<noteq> VNil) ps)"

lemma default_of_simps [simp]:
  "default_of [] k = None"
  "default_of (p # ps) k =
     (if par_key p = k \<and> par_default p \<noteq> VNil then Some (par_default p) else default_of ps k)"
  by (simp_all add: default_of_def)

lemma applyDefaults_eq:
  "applyDefaults ps raw k = (case raw k of Some v \<Rightarrow> Some v | None \<Rightarrow> default_of ps k)"
  by (induction ps raw rule: applyDefaults.induct) (auto split: option.splits)

lemma applyDefaults_idem: "applyDefaults ps (applyDefaults ps raw) = applyDefaults ps raw"
  by (rule ext) (simp add: applyDefaults_eq split: option.splits)

lemma ResolveParams_Inr:
  "ResolveParams L ps raw = Inr m \<longleftrightarrow>
     m = applyDefaults ps raw \<and> checkParams L ps (applyDefaults ps raw) = None"
  by (auto simp: ResolveParams_def Let_def split: option.splits)

subsection \<open>Validation and visibility, declaratively\<close>

text \<open>What a rule demands of a value, constraint by constraint.\<close>

definition satisfies :: "lib \<Rightarrow> validation \<Rightarrow> gvalue \<Rightarrow> bool" where
  "satisfies L rule v \<longleftrightarrow>
     (\<forall>x lo. asFloat64 v = Some x \<longrightarrow> val_min rule = Some lo \<longrightarrow> lo \<le> x) \<and>
     (\<forall>x hi. asFloat64 v = Some x \<longrightarrow> val_max rule = Some hi \<longrightarrow> x \<le> hi) \<and>
     (\<forall>s n. v = VStr s \<longrightarrow> val_maxLength rule = Some n \<longrightarrow> int (length s) \<le> n) \<and>
     (\<forall>s. v = VStr s \<longrightarrow> val_regex rule \<noteq> [] \<longrightarrow> regexMatch L (val_regex rule) s = Inr True)"

lemma as_string_Some [simp]: "as_string v = Some s \<longleftrightarrow> v = VStr s"
  by (cases v) auto

lemma asFloat64_VStr [simp]: "asFloat64 v = Some x \<Longrightarrow> as_string v = None"
  by (cases v) auto

lemma checkValidation_None: "checkValidation L rule v = None \<longleftrightarrow> satisfies L rule v"
proof (cases "asFloat64 v")
  case None
  then show ?thesis
    by (cases "as_string v")
       (auto simp: checkValidation_def satisfies_def Let_def split: option.splits sum.splits)
next
  case (Some x)
  then have "v \<noteq> VStr s" for s by auto
  with Some show ?thesis
    by (cases "val_min rule"; cases "val_max rule")
       (auto simp: checkValidation_def satisfies_def Let_def not_less)
qed

text \<open>A parameter passes when it is hidden, or has its required value and satisfies its rule.\<close>

definition param_ok :: "lib \<Rightarrow> params \<Rightarrow> parameter \<Rightarrow> bool" where
  "param_ok L m p \<longleftrightarrow> is_visible m p = Some False \<or>
     (is_visible m p = Some True \<and>
      (val_required (par_validation p) \<longrightarrow> present m (par_key p)) \<and>
      (present m (par_key p) \<longrightarrow> satisfies L (par_validation p) (vget m (par_key p))))"

lemma checkParams_None: "checkParams L ps m = None \<longleftrightarrow> list_all (param_ok L m) ps"
  by (induction L ps m rule: checkParams.induct)
     (auto simp: param_ok_def checkValidation_None [symmetric] split: option.splits bool.splits)

lemma checkParams_depends_on_ok: "list_all (param_ok L m) ps \<Longrightarrow> checkParams L ps m = None"
  by (simp add: checkParams_None)

subsection \<open>Panics\<close>

definition scalar_visibility :: "parameter \<Rightarrow> bool" where
  "scalar_visibility p = (case par_visibility p of None \<Rightarrow> True
     | Some v \<Rightarrow> scalar (vis_value v) \<and> list_all scalar (vis_values v))"

lemma contains_any_scalar: "list_all scalar xs \<Longrightarrow> contains_any xs v = Some (v \<in> set xs)"
  by (induction xs) (auto simp: go_eq_scalar split: bool.splits)

lemma evalVisibility_scalar:
  "scalar (vis_value v) \<Longrightarrow> list_all scalar (vis_values v) \<Longrightarrow> \<exists>b. evalVisibility v a = Some b"
  by (auto simp: evalVisibility_def go_eq_scalar contains_any_scalar split: visibilityOp.splits)

lemma is_visible_scalar: "scalar_visibility p \<Longrightarrow> \<exists>b. is_visible m p = Some b"
  by (auto simp: scalar_visibility_def is_visible_def evalVisibility_scalar split: option.splits)

lemma checkValidation_no_panic: "checkValidation L r v \<noteq> Some (GoPanic t)"
  by (auto simp: checkValidation_def Let_def split: option.splits sum.splits)

lemma checkParams_no_panic:
  "list_all scalar_visibility ps \<Longrightarrow> checkParams L ps m \<noteq> Some (GoPanic t)"
proof (induction ps)
  case (Cons p ps)
  then obtain b where "is_visible m p = Some b"
    using is_visible_scalar by auto
  with Cons show ?case
    by (cases b) (auto split: option.splits)
qed simp

lemma ResolveParams_no_panic:
  "list_all scalar_visibility ps \<Longrightarrow> ResolveParams L ps raw \<noteq> Inl (GoPanic t)"
  by (auto simp: ResolveParams_def Let_def checkParams_no_panic split: option.splits)

subsection \<open>Readers\<close>

lemma paramString_cases: "paramString ps k d = d \<or> (ps k = Some (VStr (paramString ps k d)))"
  by (auto simp: paramString_def split: option.splits)

lemma Get_in_Some: "Get_in ts i = Some t \<Longrightarrow> t \<in> set ts \<and> t_id t = i"
  by (induction ts) (auto split: if_splits)

lemma Get_in_None: "Get_in ts i = None \<longleftrightarrow> i \<notin> t_id ` set ts"
  by (induction ts) auto

lemma Get_in_distinct: "distinct (map t_id ts) \<Longrightarrow> t \<in> set ts \<Longrightarrow> Get_in ts (t_id t) = Some t"
  by (induction ts) auto

lemma find_operation_Some: "find_operation xs k = Some x \<Longrightarrow> x \<in> set xs \<and> op_key x = k"
  by (induction xs) (auto split: if_splits)

section \<open>The contract of a template\<close>

text \<open>
  What the rest of the operator relies on of every template in the catalog: \<open>Build\<close> never
  fails, each declared entrypoint names exactly one port of the rendered Service, the resources
  the containers request do not depend on the parameters (so the estimate made before a claim
  is the cost of what is deployed after it), and no visibility condition can panic.
\<close>

locale catalog_template =
  fixes L :: lib and tmpl :: template
  assumes build_total: "\<exists>r. t_build tmpl ps = Inr r"
    and entrypoints_declared: "t_entrypoints tmpl \<noteq> []"
    and entrypoint_port: "t_build tmpl ps = Inr r \<Longrightarrow> list_all
      (\<lambda>e. length (filter (\<lambda>sp. sp_name sp = ep_name e) (r_servicePorts r)) = 1) (t_entrypoints tmpl)"
    and requests_fixed: "t_build tmpl ps = Inr r \<Longrightarrow> t_build tmpl ps' = Inr r' \<Longrightarrow>
      containers_requests L (r_containers r) = containers_requests L (r_containers r')"
    and scalar_visibilities: "list_all scalar_visibility (t_parameters tmpl)"
    and operation_visibilities:
      "list_all (\<lambda>x. list_all scalar_visibility (op_parameters x)) (t_operations tmpl)"
    and distinct_operations: "distinct (map op_key (t_operations tmpl))"
begin

lemma estimate_exact:
  "t_build tmpl ps = Inr r \<Longrightarrow> EstimatedResources L tmpl = containers_requests L (r_containers r)"
proof -
  assume r: "t_build tmpl ps = Inr r"
  obtain r0 where r0: "t_build tmpl Map.empty = Inr r0"
    using build_total by blast
  from requests_fixed [OF r0 r] r0 show ?thesis
    by (simp add: EstimatedResources_def)
qed

lemma resolve_no_panic: "ResolveParams L (t_parameters tmpl) raw \<noteq> Inl (GoPanic m)"
  by (rule ResolveParams_no_panic) (rule scalar_visibilities)

lemma operation_resolve_no_panic:
  assumes "GetOperation tmpl k = Some x"
  shows "ResolveParams L (op_parameters x) raw \<noteq> Inl (GoPanic m)"
proof -
  from assms have "x \<in> set (t_operations tmpl)"
    by (auto simp: GetOperation_def dest: find_operation_Some)
  with operation_visibilities have "list_all scalar_visibility (op_parameters x)"
    by (simp add: list_all_iff)
  then show ?thesis by (rule ResolveParams_no_panic)
qed

lemma entrypoint_routable:
  assumes "t_build tmpl ps = Inr r" "e \<in> set (t_entrypoints tmpl)"
  shows "\<exists>sp \<in> set (r_servicePorts r). sp_name sp = ep_name e"
proof -
  from assms entrypoint_port have "length (filter (\<lambda>sp. sp_name sp = ep_name e) (r_servicePorts r)) = 1"
    by (simp add: list_all_iff)
  then have "filter (\<lambda>sp. sp_name sp = ep_name e) (r_servicePorts r) \<noteq> []" by auto
  then show ?thesis by (auto simp: filter_empty_conv)
qed

end

end
