(* ===== verification/Templates.thy ===== *)
theory Templates
  imports Catalog
begin

text \<open>
  The catalog's entries (internal/catalog/browser.go, nginx.go, firefox.go, chrome.go,
  webtop.go) and the registry over them (\<open>templates\<close>, \<open>List\<close>, \<open>Get\<close>, \<open>Hash\<close> of registry.go).
  Each template is shown to meet the contract of the locale \<open>catalog_template\<close>; the properties
  say that a parameter value never reaches a shell script, that an accepted nginx configuration
  renders a connection count in the declared range, and what the backup operation runs.
\<close>

section \<open>Shared pieces (browser.go)\<close>

definition templateIDNginx :: string where "templateIDNginx = ''nginx''"
definition templateIDFirefox :: string where "templateIDFirefox = ''firefox''"
definition templateIDChrome :: string where "templateIDChrome = ''chrome''"
definition templateIDWebtop :: string where "templateIDWebtop = ''webtop''"

lemmas template_id_defs =
  templateIDNginx_def templateIDFirefox_def templateIDChrome_def templateIDWebtop_def

definition profileSourceKeyFirefox :: string where
  "profileSourceKeyFirefox = ''profiles_'' @ templateIDFirefox"
definition profileSourceKeyChrome :: string where
  "profileSourceKeyChrome = ''profiles_'' @ templateIDChrome"
definition profileSourceKeyWebtop :: string where
  "profileSourceKeyWebtop = ''profiles_'' @ templateIDWebtop"

definition portNameHTTP :: string where "portNameHTTP = ''http''"
definition portNameHTTPS :: string where "portNameHTTPS = ''https''"
definition entrypointLabelWeb :: string where "entrypointLabelWeb = ''Web''"
definition browserHTTPPort :: int32 where "browserHTTPPort = 3000"
definition browserHTTPSPort :: int32 where "browserHTTPSPort = 3001"
definition dshmVolumeName :: string where "dshmVolumeName = ''dshm''"
definition browserConfigMountPath :: string where "browserConfigMountPath = ''/config''"
definition configVolumeName :: string where "configVolumeName = ''config''"
definition envProfileDownloadURL :: string where "envProfileDownloadURL = ''PROFILE_DOWNLOAD_URL''"
definition linuxserverUID :: string where "linuxserverUID = ''1000''"
definition linuxserverTimezone :: string where "linuxserverTimezone = ''Etc/UTC''"
definition paramKeyLogLevel :: string where "paramKeyLogLevel = ''logLevel''"
definition paramKeyUploadURL :: string where "paramKeyUploadURL = ''uploadUrl''"
definition paramKeyRestoreProfile :: string where "paramKeyRestoreProfile = ''restoreProfile''"
definition paramKeyLabel :: string where "paramKeyLabel = ''label''"
definition paramKeyProfileName :: string where "paramKeyProfileName = ''profileName''"
definition paramKeyProfileURL :: string where "paramKeyProfileURL = ''profileDownloadUrl''"
definition initialTemplateVersion :: string where "initialTemplateVersion = ''1.0.0''"

lemmas param_key_defs = paramKeyLogLevel_def paramKeyUploadURL_def paramKeyRestoreProfile_def
  paramKeyLabel_def paramKeyProfileName_def paramKeyProfileURL_def

definition dataSource_of :: "dataSourceKind \<Rightarrow> dataSource" where
  "dataSource_of k = \<lparr>ds_kind = k, ds_sourceKey = [], ds_direction = DirectionUnset,
     ds_sourceParam = [], ds_group = []\<rparr>"

definition no_validation :: validation where
  "no_validation = \<lparr>val_required = False, val_min = None, val_max = None, val_regex = [],
     val_maxLength = None\<rparr>"

definition param :: "string \<Rightarrow> string \<Rightarrow> parameterType \<Rightarrow> dataSource \<Rightarrow> parameter" where
  "param k l t d = \<lparr>par_key = k, par_label = l, par_description = [], par_type = t,
     par_dataSource = d, par_default = VNil, par_options = [], par_visibility = None,
     par_validation = no_validation\<rparr>"

definition when_restoring :: visibility where
  "when_restoring = \<lparr>vis_dependsOn = paramKeyRestoreProfile, vis_op = VisibilityEquals,
     vis_value = VBool True, vis_values = []\<rparr>"

definition browserParameters :: "string \<Rightarrow> parameter list" where
  "browserParameters profileSourceKey =
     [(param paramKeyProfileName ''Profile name'' ParameterTypeSelect
         ((dataSource_of DataSourceFileOptions)\<lparr>ds_group := profileSourceKey\<rparr>))
        \<lparr>par_description := ''Identifies which saved profile to restore, if any.'',
         par_validation := no_validation\<lparr>val_required := True\<rparr>,
         par_visibility := Some when_restoring\<rparr>,
      (param paramKeyRestoreProfile ''Restore saved profile'' ParameterTypeBoolean
         (dataSource_of DataSourceStatic))\<lparr>par_default := VBool False\<rparr>,
      (param paramKeyProfileURL ''Profile download URL (system)'' ParameterTypeString
         ((dataSource_of DataSourceFile)
            \<lparr>ds_direction := DirectionDownload, ds_sourceParam := paramKeyProfileName\<rparr>))
        \<lparr>par_visibility := Some when_restoring\<rparr>]"

definition script_lines :: "string list \<Rightarrow> string" where
  "script_lines ls = concat (map (\<lambda>l. l @ [CHR 10]) ls)"

definition restore_script :: "string \<Rightarrow> string" where
  "restore_script profilePath = script_lines
     [''set -e'',
      ''PROFILE_DIR='' @ [CHR 0x22] @ ''/config/'' @ profilePath @ [CHR 0x22],
      ''mkdir -p '' @ [CHR 0x22] @ ''$PROFILE_DIR'' @ [CHR 0x22],
      ''if [ -n '' @ [CHR 0x22] @ ''$PROFILE_DOWNLOAD_URL'' @ [CHR 0x22] @ '' ]; then'',
      ''  echo '' @ [CHR 0x22] @ ''Attempting profile restore from R2...'' @ [CHR 0x22],
      ''  if wget -q -O /tmp/profile.tar.gz '' @ [CHR 0x22] @ ''$PROFILE_DOWNLOAD_URL'' @ [CHR 0x22] @ ''; then'',
      ''    tar -xzf /tmp/profile.tar.gz -C /config'',
      ''    rm -f /tmp/profile.tar.gz'',
      ''    echo '' @ [CHR 0x22] @ ''Profile restored successfully'' @ [CHR 0x22],
      ''  else'',
      ''    echo '' @ [CHR 0x22] @ ''No existing profile found (or download failed), starting fresh'' @ [CHR 0x22],
      ''    rm -f /tmp/profile.tar.gz'',
      ''  fi'',
      ''else'',
      ''  echo '' @ [CHR 0x22] @ ''No profile restore requested, starting fresh'' @ [CHR 0x22],
      ''fi'',
      ''chown -R 1000:1000 /config'',
      ''chmod -R 755 /config'']"

definition restoreProfileInitContainer :: "string \<Rightarrow> string \<Rightarrow> container" where
  "restoreProfileInitContainer profilePath profileDownloadURL = empty_container
     \<lparr>c_command := [''/bin/sh'', ''-c'', restore_script profilePath],
      c_env := [\<lparr>ev_name = envProfileDownloadURL, ev_value = profileDownloadURL, ev_valueFrom = None\<rparr>],
      c_image := ''alpine:latest'',
      c_name := ''restore-profile'',
      c_volumeMounts := [\<lparr>vm_mountPath = browserConfigMountPath, vm_name = configVolumeName\<rparr>]\<rparr>"

definition backup_script :: string where
  "backup_script = script_lines
     [''set -e'',
      ''tar czf /tmp/backup.tar.gz -C /config '' @ [CHR 0x22] @ ''$1'' @ [CHR 0x22] @ '' || {'',
      ''  rc=$?'',
      ''  if [ '' @ [CHR 0x22] @ ''$rc'' @ [CHR 0x22] @ '' -gt 1 ]; then'',
      ''    exit '' @ [CHR 0x22] @ ''$rc'' @ [CHR 0x22],
      ''  fi'',
      ''}'',
      ''curl -sf -X PUT --upload-file /tmp/backup.tar.gz '' @ [CHR 0x22] @ ''$2'' @ [CHR 0x22],
      ''rm -f /tmp/backup.tar.gz'']"

definition backup_result :: "string \<Rightarrow> operationResult" where
  "backup_result label = \<lparr>or_additionalInfo =
       [\<lparr>ai_name = ''result'', ai_type = AdditionalInfoPlain, ai_value = VStr ''backup_state.success''\<rparr>],
     or_file = Some \<lparr>fr_type = ''browser_profile_backup'', fr_label = label\<rparr>\<rparr>"

definition backup_run ::
  "lib \<Rightarrow> string \<Rightarrow> string \<Rightarrow> podRef \<Rightarrow> params \<Rightarrow> (go_error + operationResult) interaction" where
  "backup_run L profilePath containerName pod ps =
     (let uploadURL = paramString ps paramKeyUploadURL [] in
      if uploadURL = [] then Done (Inl (ErrText ''uploadUrl is required''))
      else Exec (pr_namespace pod) (pr_podName pod) containerName
        [''/bin/sh'', ''-c'', backup_script, ''sh'', profilePath, uploadURL]
        (\<lambda>(stdout, stderr, err). case err of
           Some e \<Rightarrow> Done (Inl (Wrap ''backup exec failed: '' e ('' (stderr: '' @ stderr @ '')'')))
         | None \<Rightarrow>
             let label = paramString ps paramKeyLabel [] in
             if label = [] then Now (\<lambda>t. Done (Inr (backup_result (''Backup '' @ rfc3339 L t))))
             else Done (Inr (backup_result label))))"

definition backupStateFunction :: "lib \<Rightarrow> string \<Rightarrow> string \<Rightarrow> string \<Rightarrow> operation" where
  "backupStateFunction L profilePath containerName profileSourceKey =
     \<lparr>op_key = ''backup_state'',
      op_label = ''Backup profile'',
      op_description = ''Tars the current browser profile and uploads it to R2 so it can be restored into a future deploy.'',
      op_parameters =
        [(param paramKeyLabel ''Backup name'' ParameterTypeString (dataSource_of DataSourceStatic))
           \<lparr>par_description := ''A name to identify this saved profile later, when restoring it into a future deploy.''\<rparr>,
         (param paramKeyUploadURL ''Upload URL (system)'' ParameterTypeString
            ((dataSource_of DataSourceFile)
               \<lparr>ds_direction := DirectionUpload, ds_group := profileSourceKey\<rparr>))
           \<lparr>par_validation := no_validation\<lparr>val_required := True\<rparr>\<rparr>],
      op_refreshable = False,
      op_run = backup_run L profilePath containerName\<rparr>"

definition browserResources :: "string \<Rightarrow> string \<Rightarrow> string \<Rightarrow> resourceRequirements" where
  "browserResources cpu memRequest memLimit =
     \<lparr>rr_limits = [ResourceCPU \<mapsto> MustParse cpu, ResourceMemory \<mapsto> MustParse memLimit],
      rr_requests = [ResourceCPU \<mapsto> MustParse cpu, ResourceMemory \<mapsto> MustParse memRequest]\<rparr>"

definition browserProbe :: "int32 \<Rightarrow> probe" where
  "browserProbe initialDelay =
     \<lparr>pr_failureThreshold = 3, pr_initialDelaySeconds = initialDelay, pr_periodSeconds = 10,
      pr_httpPath = ''/'', pr_httpPort = browserHTTPPort, pr_timeoutSeconds = 5\<rparr>"

definition resourceQuantityPtr :: "string \<Rightarrow> quantity option" where
  "resourceQuantityPtr s = Some (MustParse s)"

definition linuxserver_env :: "envVar list" where
  "linuxserver_env =
     [\<lparr>ev_name = ''PUID'', ev_value = linuxserverUID, ev_valueFrom = None\<rparr>,
      \<lparr>ev_name = ''PGID'', ev_value = linuxserverUID, ev_valueFrom = None\<rparr>,
      \<lparr>ev_name = ''TZ'', ev_value = linuxserverTimezone, ev_valueFrom = None\<rparr>]"

definition browser_ports :: "containerPort list" where
  "browser_ports =
     [\<lparr>cp_containerPort = browserHTTPPort, cp_name = portNameHTTP\<rparr>,
      \<lparr>cp_containerPort = browserHTTPSPort, cp_name = portNameHTTPS\<rparr>]"

definition config_volume :: volume where
  "config_volume = \<lparr>v_name = configVolumeName, v_emptyDir = \<lparr>ed_medium = [], ed_sizeLimit = None\<rparr>\<rparr>"

definition dshm_volume :: "string \<Rightarrow> volume" where
  "dshm_volume mem_size = \<lparr>v_name = dshmVolumeName,
     v_emptyDir = \<lparr>ed_medium = ''Memory'', ed_sizeLimit = resourceQuantityPtr mem_size\<rparr>\<rparr>"

section \<open>Nginx\<close>

definition Nginx_Build :: "lib \<Rightarrow> params \<Rightarrow> go_error + rendered" where
  "Nginx_Build L ps =
     (let logLevel = paramString ps paramKeyLogLevel ''info'';
          workerConnections = paramInt32 L ps ''workerConnections'' 1024 in
      Inr \<lparr>r_containers = [empty_container
             \<lparr>c_env := [\<lparr>ev_name = ''LOG_LEVEL'', ev_value = logLevel, ev_valueFrom = None\<rparr>,
                        \<lparr>ev_name = ''WORKER_CONNECTIONS'', ev_value = int32ToString workerConnections, ev_valueFrom = None\<rparr>],
              c_image := ''nginxdemos/hello:latest'',
              c_name := templateIDNginx,
              c_ports := [\<lparr>cp_containerPort = 80, cp_name = portNameHTTP\<rparr>],
              c_resources :=
                \<lparr>rr_limits = [ResourceCPU \<mapsto> MustParse ''200m'', ResourceMemory \<mapsto> MustParse ''128Mi''],
                 rr_requests = [ResourceCPU \<mapsto> MustParse ''50m'', ResourceMemory \<mapsto> MustParse ''64Mi'']\<rparr>\<rparr>],
           r_initContainers = [], r_volumes = [],
           r_servicePorts = [\<lparr>sp_name = portNameHTTP, sp_port = 80, sp_targetPort = 80\<rparr>]\<rparr>)"

definition Nginx_parameters :: "parameter list" where
  "Nginx_parameters =
     [(param paramKeyLogLevel ''Log level'' ParameterTypeSelect (dataSource_of DataSourceStatic))
        \<lparr>par_default := VStr ''info'',
         par_options := [\<lparr>so_value = ''info'', so_label = ''Info''\<rparr>,
                         \<lparr>so_value = ''warn'', so_label = ''Warn''\<rparr>,
                         \<lparr>so_value = ''error'', so_label = ''Error''\<rparr>]\<rparr>,
      (param ''workerConnections'' ''Worker connections'' ParameterTypeNumber (dataSource_of DataSourceStatic))
        \<lparr>par_default := VFloat 1024,
         par_description := ''Passed through as an env var for illustration.'',
         par_validation := no_validation\<lparr>val_min := Some 0, val_max := Some 65536\<rparr>\<rparr>]"

definition Nginx :: "lib \<Rightarrow> template" where
  "Nginx L = \<lparr>t_id = templateIDNginx, t_name = ''Nginx'',
     t_description = ''Simple nginx web server with hello world demo'',
     t_icon = [CHR 0xF0, CHR 0x9F, CHR 0x8C, CHR 0x90],
     t_version = initialTemplateVersion,
     t_parameters = Nginx_parameters,
     t_entrypoints = [\<lparr>ep_name = portNameHTTP, ep_label = entrypointLabelWeb\<rparr>],
     t_operations = [], t_build = Nginx_Build L\<rparr>"

section \<open>Firefox, Chrome, Webtop\<close>

definition Firefox_Build :: "params \<Rightarrow> go_error + rendered" where
  "Firefox_Build ps =
     (let profileDownloadURL = paramString ps paramKeyProfileURL [] in
      Inr \<lparr>r_containers = [empty_container
             \<lparr>c_env := linuxserver_env,
              c_image := ''linuxserver/firefox:latest'',
              c_livenessProbe := Some (browserProbe 30),
              c_name := templateIDFirefox,
              c_ports := browser_ports,
              c_readinessProbe := Some (browserProbe 15),
              c_resources := browserResources ''1000m'' ''1500Mi'' ''3Gi'',
              c_volumeMounts := [\<lparr>vm_mountPath = browserConfigMountPath, vm_name = configVolumeName\<rparr>]\<rparr>],
           r_initContainers = [restoreProfileInitContainer ''.mozilla/firefox'' profileDownloadURL],
           r_volumes = [config_volume],
           r_servicePorts = [\<lparr>sp_name = portNameHTTP, sp_port = 80, sp_targetPort = browserHTTPPort\<rparr>]\<rparr>)"

definition Firefox :: "lib \<Rightarrow> template" where
  "Firefox L = \<lparr>t_id = templateIDFirefox, t_name = ''Firefox Browser'',
     t_description = ''Full Firefox browser accessible via web interface'',
     t_icon = [CHR 0xF0, CHR 0x9F, CHR 0xA6, CHR 0x8A],
     t_version = ''1.1.1'',
     t_parameters = browserParameters profileSourceKeyFirefox,
     t_entrypoints = [\<lparr>ep_name = portNameHTTP, ep_label = entrypointLabelWeb\<rparr>],
     t_operations = [backupStateFunction L ''.mozilla/firefox'' templateIDFirefox profileSourceKeyFirefox],
     t_build = Firefox_Build\<rparr>"

definition Chrome_Build :: "params \<Rightarrow> go_error + rendered" where
  "Chrome_Build ps =
     (let profileDownloadURL = paramString ps paramKeyProfileURL [] in
      Inr \<lparr>r_containers = [empty_container
             \<lparr>c_env := linuxserver_env,
              c_image := ''lscr.io/linuxserver/chrome:latest'',
              c_livenessProbe := Some (browserProbe 30),
              c_name := templateIDChrome,
              c_ports := browser_ports,
              c_readinessProbe := Some (browserProbe 15),
              c_resources := browserResources ''1000m'' ''1500Mi'' ''3Gi'',
              c_volumeMounts := [\<lparr>vm_mountPath = browserConfigMountPath, vm_name = configVolumeName\<rparr>,
                                 \<lparr>vm_mountPath = ''/dev/shm'', vm_name = dshmVolumeName\<rparr>]\<rparr>],
           r_initContainers = [restoreProfileInitContainer ''.config/google-chrome'' profileDownloadURL],
           r_volumes = [config_volume, dshm_volume ''4Gi''],
           r_servicePorts = [\<lparr>sp_name = portNameHTTP, sp_port = 80, sp_targetPort = browserHTTPPort\<rparr>]\<rparr>)"

definition Chrome :: "lib \<Rightarrow> template" where
  "Chrome L = \<lparr>t_id = templateIDChrome, t_name = ''Chrome Browser'',
     t_description = ''Full Chrome browser accessible via web interface'',
     t_icon = [CHR 0xF0, CHR 0x9F, CHR 0x8C, CHR 0x90],
     t_version = ''1.1.1'',
     t_parameters = browserParameters profileSourceKeyChrome,
     t_entrypoints = [\<lparr>ep_name = portNameHTTP, ep_label = entrypointLabelWeb\<rparr>],
     t_operations = [backupStateFunction L ''.config/google-chrome'' templateIDChrome profileSourceKeyChrome],
     t_build = Chrome_Build\<rparr>"

definition flavor_option :: "string \<Rightarrow> string \<Rightarrow> selectOption" where
  "flavor_option v l = \<lparr>so_value = v, so_label = l\<rparr>"

definition webtopFlavors :: "selectOption list" where
  "webtopFlavors =
     [flavor_option ''latest'' ''Alpine + XFCE (latest)'',
      flavor_option ''alpine-i3'' ''Alpine + i3'', flavor_option ''alpine-kde'' ''Alpine + KDE'',
      flavor_option ''alpine-mate'' ''Alpine + MATE'', flavor_option ''arch-i3'' ''Arch + i3'',
      flavor_option ''arch-kde'' ''Arch + KDE'', flavor_option ''arch-mate'' ''Arch + MATE'',
      flavor_option ''arch-xfce'' ''Arch + XFCE'', flavor_option ''debian-i3'' ''Debian + i3'',
      flavor_option ''debian-kde'' ''Debian + KDE'', flavor_option ''debian-mate'' ''Debian + MATE'',
      flavor_option ''debian-xfce'' ''Debian + XFCE'', flavor_option ''fedora-i3'' ''Fedora + i3'',
      flavor_option ''fedora-kde'' ''Fedora + KDE'', flavor_option ''fedora-mate'' ''Fedora + MATE'',
      flavor_option ''fedora-xfce'' ''Fedora + XFCE'', flavor_option ''ubuntu-i3'' ''Ubuntu + i3'',
      flavor_option ''ubuntu-kde'' ''Ubuntu + KDE'', flavor_option ''ubuntu-mate'' ''Ubuntu + MATE'',
      flavor_option ''ubuntu-xfce'' ''Ubuntu + XFCE'']"

definition Webtop_Build :: "params \<Rightarrow> go_error + rendered" where
  "Webtop_Build ps =
     (let flavor = paramString ps ''flavor'' ''latest'';
          profileDownloadURL = paramString ps paramKeyProfileURL [] in
      Inr \<lparr>r_containers = [empty_container
             \<lparr>c_env := linuxserver_env,
              c_image := ''lscr.io/linuxserver/webtop:'' @ flavor,
              c_livenessProbe := Some (browserProbe 30),
              c_name := templateIDWebtop,
              c_ports := browser_ports,
              c_readinessProbe := Some (browserProbe 15),
              c_resources := browserResources ''1500m'' ''2Gi'' ''4Gi'',
              c_volumeMounts := [\<lparr>vm_mountPath = browserConfigMountPath, vm_name = configVolumeName\<rparr>,
                                 \<lparr>vm_mountPath = ''/dev/shm'', vm_name = dshmVolumeName\<rparr>]\<rparr>],
           r_initContainers = [restoreProfileInitContainer ''.'' profileDownloadURL],
           r_volumes = [config_volume, dshm_volume ''1Gi''],
           r_servicePorts = [\<lparr>sp_name = portNameHTTP, sp_port = 80, sp_targetPort = browserHTTPPort\<rparr>]\<rparr>)"

definition Webtop :: "lib \<Rightarrow> template" where
  "Webtop L = \<lparr>t_id = templateIDWebtop, t_name = ''Webtop Desktop'',
     t_description = ''Full Linux desktop environment accessible via web browser'',
     t_icon = [CHR 0xF0, CHR 0x9F, CHR 0x96, CHR 0xA5, CHR 0xEF, CHR 0xB8, CHR 0x8F],
     t_version = initialTemplateVersion,
     t_parameters =
       (param ''flavor'' ''Flavor'' ParameterTypeSelect (dataSource_of DataSourceStatic))
         \<lparr>par_default := VStr ''latest'',
          par_description := ''Base OS and desktop environment combination.'',
          par_options := webtopFlavors\<rparr>
       # browserParameters profileSourceKeyWebtop,
     t_entrypoints = [\<lparr>ep_name = portNameHTTP, ep_label = entrypointLabelWeb\<rparr>],
     t_operations = [backupStateFunction L ''.'' templateIDWebtop profileSourceKeyWebtop],
     t_build = Webtop_Build\<rparr>"

section \<open>The registry\<close>

definition templates :: "lib \<Rightarrow> template list" where
  "templates L = [Nginx L, Firefox L, Chrome L, Webtop L]"

definition List_templates :: "lib \<Rightarrow> template list" where
  "List_templates L = templates L"

definition Get :: "lib \<Rightarrow> string \<Rightarrow> template option" where
  "Get L i = Get_in (templates L) i"

text \<open>\<open>Hash\<close>: the SHA-256 digest, a parameter, of the JSON encoding, in hexadecimal.\<close>

definition hex_string :: "string \<Rightarrow> string" where
  "hex_string s = concat (map (\<lambda>c. [hex_char (byte c div 16), hex_char (byte c mod 16)]) s)"

definition catalog_json :: "lib \<Rightarrow> json" where
  "catalog_json L = slice_json (template_json (floats L)) (templates L)"

definition Hash :: "(string \<Rightarrow> string) \<Rightarrow> lib \<Rightarrow> string" where
  "Hash sha256 L = hex_string (sha256 (encode (catalog_json L)))"

section \<open>Every template meets the contract\<close>

lemmas template_defs = Nginx_def Firefox_def Chrome_def Webtop_def
lemmas build_defs = Nginx_Build_def Firefox_Build_def Chrome_Build_def Webtop_Build_def

lemma browserParameters_scalar: "list_all scalar_visibility (browserParameters k)"
  by (simp add: browserParameters_def scalar_visibility_def param_def when_restoring_def)

lemma backup_parameters_scalar:
  "list_all scalar_visibility (op_parameters (backupStateFunction L p c k))"
  by (simp add: backupStateFunction_def scalar_visibility_def param_def)

interpretation nginx_t: catalog_template L "Nginx L" for L
  by unfold_locales
     (auto simp: Nginx_def Nginx_Build_def Nginx_parameters_def param_def scalar_visibility_def
       containers_requests_def)

interpretation firefox_t: catalog_template L "Firefox L" for L
  by unfold_locales
     (auto simp: Firefox_def Firefox_Build_def browserParameters_scalar backup_parameters_scalar
       containers_requests_def)

interpretation chrome_t: catalog_template L "Chrome L" for L
  by unfold_locales
     (auto simp: Chrome_def Chrome_Build_def browserParameters_scalar backup_parameters_scalar
       containers_requests_def)

interpretation webtop_t: catalog_template L "Webtop L" for L
  by unfold_locales
     (auto simp: Webtop_def Webtop_Build_def browserParameters_scalar backup_parameters_scalar
       containers_requests_def param_def scalar_visibility_def)

lemma templates_distinct: "distinct (map t_id (templates L))"
  by (simp add: templates_def template_defs template_id_defs)

lemma Get_template:
  assumes "Get L i = Some t"
  shows "catalog_template L t" and "t_id t = i"
proof -
  from assms have t: "t \<in> set (templates L)" "t_id t = i"
    by (auto simp: Get_def dest: Get_in_Some)
  then show "catalog_template L t" "t_id t = i"
    using nginx_t.catalog_template_axioms firefox_t.catalog_template_axioms
      chrome_t.catalog_template_axioms webtop_t.catalog_template_axioms
    by (auto simp: templates_def)
qed

section \<open>Lemmas for the properties\<close>

lemma f64_of_nat_large:
  assumes "2 ^ 53 \<le> n"
  shows "2 ^ 52 \<le> f64_of_nat n"
proof -
  define k where "k = floorlog 2 n - 53"
  from assms have n: "0 < n" by (rule order_less_le_trans [rotated]) simp
  then have "2 ^ (floorlog 2 n - 1) \<le> n"
    using floorlog_bounds [of n 2] by simp
  moreover have "54 \<le> floorlog 2 n"
  proof (rule ccontr)
    assume "\<not> 54 \<le> floorlog 2 n"
    then have "(2 :: nat) ^ floorlog 2 n \<le> 2 ^ 53" by (intro power_increasing) auto
    with n assms show False
      using floorlog_bounds [of n 2] by simp
  qed
  ultimately have "2 ^ (52 + k) \<le> n" by (simp add: k_def)
  then have "2 ^ 52 * 2 ^ k \<le> n" by (simp only: power_add)
  then have q: "2 ^ 52 \<le> n div 2 ^ k"
    by (simp add: less_eq_div_iff_mult_less_eq)
  have "n div 2 ^ k \<le> f64_of_nat n"
    using assms by (auto simp: f64_of_nat_def Let_def k_def intro: trans_le_add2)
  with q show ?thesis by linarith
qed

lemma f64_of_int_bounds:
  assumes "0 \<le> f64_of_int i" and "f64_of_int i \<le> 65536"
  shows "0 \<le> i \<and> i \<le> 65536"
proof (cases "nat \<bar>i\<bar> < 2 ^ 53")
  case True
  then have "f64_of_int i = of_int i"
    by (simp add: f64_of_int_def f64_of_nat_exact sgn_mult_abs)
  with assms show ?thesis by simp
next
  case False
  then have big: "2 ^ 52 \<le> f64_of_nat (nat \<bar>i\<bar>)"
    by (intro f64_of_nat_large) simp
  from False have "i \<noteq> 0" by auto
  with assms(1) big have "0 < i"
    by (auto simp: f64_of_int_def sgn_if split: if_splits)
  with assms(2) have "(of_nat (f64_of_nat (nat \<bar>i\<bar>)) :: rat) \<le> of_nat 65536"
    by (simp add: f64_of_int_def)
  with big show ?thesis by (simp only: of_nat_le_iff) simp
qed

text \<open>A number accepted by the rule of \<open>workerConnections\<close> survives the conversion to int32.\<close>

lemma paramInt32_in_range:
  assumes "\<And>x. asFloat64 (vget m k) = Some x \<Longrightarrow> 0 \<le> x \<and> x \<le> 65536"
    and "0 \<le> sint d \<and> sint d \<le> 65536"
  shows "0 \<le> sint (paramInt32 L m k d) \<and> sint (paramInt32 L m k d) \<le> 65536"
proof (cases "vget m k")
  case (VFloat r)
  with assms(1) have r: "0 \<le> r" "r \<le> 65536" by simp_all
  then have "0 \<le> trunc r \<and> trunc r \<le> 65536"
    by (simp add: trunc_def)
  with VFloat show ?thesis
    by (simp add: paramInt32_def int32_of_float_def int32_range_def)
next
  case (VInt i)
  with assms(1) have "0 \<le> i \<and> i \<le> 65536"
    by (intro f64_of_int_bounds) simp_all
  with VInt show ?thesis by (simp add: paramInt32_def int32_range_def)
next
  case (VInt32 w)
  with assms(1) have "0 \<le> sint w \<and> sint w \<le> 65536"
    by (intro f64_of_int_bounds) simp_all
  with VInt32 show ?thesis by (simp add: paramInt32_def)
qed (use assms in \<open>simp_all add: paramInt32_def\<close>)

lemma satisfies_bounds:
  "satisfies L rule v \<Longrightarrow> asFloat64 v = Some x \<Longrightarrow> val_min rule = Some lo \<Longrightarrow>
   val_max rule = Some hi \<Longrightarrow> lo \<le> x \<and> x \<le> hi"
  by (simp add: satisfies_def)

lemma asFloat64_present: "asFloat64 (vget m k) = Some x \<Longrightarrow> present m k"
  by (auto simp: vget_def present_def split: option.splits)

lemma Nginx_env_range:
  assumes "ResolveParams L Nginx_parameters raw = Inr m"
  shows "0 \<le> sint (paramInt32 L m ''workerConnections'' 1024) \<and>
    sint (paramInt32 L m ''workerConnections'' 1024) \<le> 65536"
proof (rule paramInt32_in_range)
  fix x
  assume x: "asFloat64 (vget m ''workerConnections'') = Some x"
  from assms have "list_all (param_ok L m) Nginx_parameters"
    by (simp add: ResolveParams_Inr checkParams_None)
  with asFloat64_present [OF x] show "0 \<le> x \<and> x \<le> 65536"
    by (auto simp: Nginx_parameters_def param_ok_def is_visible_def param_def no_validation_def
      intro: satisfies_bounds [OF _ x, THEN conjunct1] satisfies_bounds [OF _ x, THEN conjunct2])
qed simp

lemma Get_cases:
  assumes "Get L i = Some t"
  obtains "t = Nginx L" | "t = Firefox L" | "t = Chrome L" | "t = Webtop L"
  using assms by (auto simp: Get_def templates_def split: if_splits)

text \<open>Running an operation of a catalog template execs at most one command, in the pod it was
  given and in a container the template renders: the fixed backup script, with the profile path
  and the non-empty upload URL as positional arguments of the shell.\<close>

lemma catalog_operation_command:
  assumes "Get L i = Some t" "GetOperation t k = Some x" "op_run x pod ps = Exec ns p c cmd cont"
    and "t_build t ps' = Inr r"
  shows "ns = pr_namespace pod \<and> p = pr_podName pod \<and> c \<in> c_name ` set (r_containers r) \<and>
    (\<exists>path url. cmd = [''/bin/sh'', ''-c'', backup_script, ''sh'', path, url] \<and>
       url \<noteq> [] \<and> ps paramKeyUploadURL = Some (VStr url))"
proof -
  from assms(1,2) obtain path src where x: "x = backupStateFunction L path (t_id t) src"
    by (cases rule: Get_cases)
       (auto simp: template_defs GetOperation_def split: if_splits)
  from assms(1,4) have "t_id t \<in> c_name ` set (r_containers r)"
    by (cases rule: Get_cases) (auto simp: template_defs build_defs)
  with assms(3) show ?thesis
    using paramString_cases [of ps paramKeyUploadURL "[]"]
    by (auto simp: x backupStateFunction_def backup_run_def Let_def split: if_splits)
qed

section \<open>Properties\<close>

text \<open>C32: \<open>ResolveParams\<close> succeeds exactly when every visible parameter has its required value and
  satisfies its validation rule in the resolved map, and that map holds what the caller gave,
  extended by the first declared default of every key the caller left out.\<close>

theorem ResolveParams_characterised:
  "ResolveParams L ps raw = Inr m \<longleftrightarrow>
     m = (\<lambda>k. case raw k of Some v \<Rightarrow> Some v | None \<Rightarrow> default_of ps k) \<and> list_all (param_ok L m) ps"
  by (auto simp: ResolveParams_Inr checkParams_None applyDefaults_eq [abs_def])

text \<open>A resolved map is a fixed point: resolving it again succeeds and changes nothing, so the
  API server and the controller, which both resolve, agree.\<close>

lemma ResolveParams_idempotent:
  assumes "ResolveParams L ps raw = Inr m"
  shows "ResolveParams L ps m = Inr m"
  using assms by (simp add: ResolveParams_Inr applyDefaults_idem)

text \<open>C33: Every template of the catalog renders for every parameter map, each of its declared
  entrypoints names exactly one port of the rendered Service, and the CPU and memory its
  containers request are the estimate \<open>EstimatedResources\<close> makes from empty parameters.\<close>

theorem catalog_contract:
  assumes "Get L i = Some t"
  shows "\<exists>r. t_build t ps = Inr r \<and> t_id t = i \<and> t_entrypoints t \<noteq> [] \<and>
    list_all (\<lambda>e. length (filter (\<lambda>sp. sp_name sp = ep_name e) (r_servicePorts r)) = 1) (t_entrypoints t) \<and>
    EstimatedResources L t = containers_requests L (r_containers r)"
proof -
  note T = Get_template [OF assms]
  obtain r where r: "t_build t ps = Inr r"
    using catalog_template.build_total [OF T(1)] by blast
  from T r show ?thesis
    using catalog_template.entrypoint_port [OF T(1) r] catalog_template.estimate_exact [OF T(1) r]
      catalog_template.entrypoints_declared [OF T(1)] by blast
qed

theorem catalog_contract_witness:
  "Get demo_lib ''nginx'' = Some (Nginx demo_lib) \<and>
   (\<exists>r. t_build (Nginx demo_lib) Map.empty = Inr r \<and>
      EstimatedResources demo_lib (Nginx demo_lib) = containers_requests demo_lib (r_containers r)) \<and>
   EstimatedResources demo_lib (Nginx demo_lib) = (50, 67108864)"
proof -
  have "Get demo_lib ''nginx'' = Some (Nginx demo_lib)"
    by (simp add: Get_def templates_def template_defs template_id_defs)
  from catalog_contract [OF this, of Map.empty] this show ?thesis
    by (auto simp: EstimatedResources_def Nginx_def Nginx_Build_def containers_requests_def
      Cpu_def Memory_def ResourceCPU_def ResourceMemory_def demo_lib_def table_milli_def
      table_value_def quantity_table_def)
qed

text \<open>Resolving the parameters of a catalog template or of one of its operations never ends in
  a run-time panic, whatever dynamic values the caller sends.\<close>

lemma catalog_resolve_no_panic:
  assumes "Get L i = Some t"
  shows "ResolveParams L (t_parameters t) raw \<noteq> Inl (GoPanic msg) \<and>
    list_all (\<lambda>x. ResolveParams L (op_parameters x) raw \<noteq> Inl (GoPanic msg)) (t_operations t)"
proof -
  note T = Get_template(1) [OF assms]
  from catalog_template.operation_visibilities [OF T]
  have "list_all (\<lambda>x. ResolveParams L (op_parameters x) raw \<noteq> Inl (GoPanic msg)) (t_operations t)"
    by (rule list.pred_mono_strong) (rule ResolveParams_no_panic)
  with catalog_template.resolve_no_panic [OF T] show ?thesis by blast
qed

text \<open>C34: No parameter value reaches a command line of a rendered pod: for every catalog template
  the commands of all containers and init containers are the same for every parameter map, so a
  profile URL can only travel as the value of an environment variable.\<close>

theorem catalog_commands_parameter_free:
  assumes "Get L i = Some t" "t_build t ps = Inr r" "t_build t ps' = Inr r'"
  shows "map c_command (r_initContainers r @ r_containers r) =
    map c_command (r_initContainers r' @ r_containers r')"
  using assms(1)
proof (rule Get_cases)
qed (use assms(2,3) in \<open>auto simp: template_defs build_defs restoreProfileInitContainer_def\<close>)

theorem catalog_commands_parameter_free_witness:
  "\<exists>r r'. Firefox_Build [paramKeyProfileURL \<mapsto> VStr ''x; reboot''] = Inr r \<and> Firefox_Build Map.empty = Inr r' \<and>
     map c_command (r_initContainers r @ r_containers r) =
     map c_command (r_initContainers r' @ r_containers r') \<and>
     map c_env (r_initContainers r) \<noteq> map c_env (r_initContainers r')"
proof -
  have G: "Get demo_lib ''firefox'' = Some (Firefox demo_lib)"
    by (simp add: Get_def templates_def template_defs template_id_defs)
  obtain r r' where r: "Firefox_Build [paramKeyProfileURL \<mapsto> VStr ''x; reboot''] = Inr r"
    "Firefox_Build Map.empty = Inr r'" by (simp add: Firefox_Build_def)
  have "map c_env (r_initContainers r) \<noteq> map c_env (r_initContainers r')"
    using r by (auto simp: Firefox_Build_def restoreProfileInitContainer_def paramString_def)
  with r show ?thesis
    using catalog_commands_parameter_free [OF G, of _ r _ r'] by (auto simp: Firefox_def)
qed

text \<open>An nginx configuration that resolves renders a pod whose WORKER_CONNECTIONS is the
  decimal text of a number between 0 and 65536: the conversion of the parameter to int32 cannot
  leave the range the template declares.\<close>

lemma nginx_worker_connections:
  assumes "ResolveParams L (t_parameters (Nginx L)) raw = Inr m"
  shows "\<exists>r c n. t_build (Nginx L) m = Inr r \<and> r_containers r = [c] \<and>
    0 \<le> n \<and> n \<le> 65536 \<and> \<lparr>ev_name = ''WORKER_CONNECTIONS'', ev_value = show_int n, ev_valueFrom = None\<rparr> \<in> set (c_env c)"
  using assms Nginx_env_range [of L raw m] by (auto simp: Nginx_def Nginx_Build_def int32ToString_def Let_def)

end
