(* ===== verification/Capacity.thy ===== *)
theory Capacity
  imports Templates
begin

text \<open>
  The capacity tracker (internal/capacity/tracker.go): a snapshot sums what the cluster's nodes
  can allocate and what the managed Deployments request, in int64 arithmetic that wraps, and
  \<open>Fits\<close> compares an estimate with the headroom. The properties say when the wrapping
  arithmetic is exact.
\<close>

section \<open>Snapshots\<close>

record snapshot =
  AllocatableMilliCPU :: int64
  AllocatableMemoryBytes :: int64
  UsedMilliCPU :: int64
  UsedMemoryBytes :: int64

definition empty_snapshot :: snapshot where
  "empty_snapshot = \<lparr>AllocatableMilliCPU = 0, AllocatableMemoryBytes = 0, UsedMilliCPU = 0,
     UsedMemoryBytes = 0\<rparr>"

definition Fits :: "snapshot \<Rightarrow> int64 \<Rightarrow> int64 \<Rightarrow> bool" where
  "Fits s estMilliCPU estMemoryBytes \<longleftrightarrow>
     sint (AllocatableMilliCPU s - UsedMilliCPU s) \<ge> sint estMilliCPU \<and>
     sint (AllocatableMemoryBytes s - UsedMemoryBytes s) \<ge> sint estMemoryBytes"

definition add_node :: "lib \<Rightarrow> node \<Rightarrow> snapshot \<Rightarrow> snapshot" where
  "add_node L n snap = snap
     \<lparr>AllocatableMilliCPU := AllocatableMilliCPU snap + milliValue L (Cpu (n_allocatable n)),
      AllocatableMemoryBytes := AllocatableMemoryBytes snap + quantityValue L (Memory (n_allocatable n))\<rparr>"

definition add_container :: "lib \<Rightarrow> int64 \<Rightarrow> container \<Rightarrow> snapshot \<Rightarrow> snapshot" where
  "add_container L n c snap = snap
     \<lparr>UsedMilliCPU := UsedMilliCPU snap + milliValue L (Cpu (rr_requests (c_resources c))) * n,
      UsedMemoryBytes := UsedMemoryBytes snap + quantityValue L (Memory (rr_requests (c_resources c))) * n\<rparr>"

definition replica_factor :: "deployment \<Rightarrow> int64" where
  "replica_factor d = (case d_replicas d of None \<Rightarrow> 1 | Some r \<Rightarrow> scast r)"

definition add_deployment :: "lib \<Rightarrow> deployment \<Rightarrow> snapshot \<Rightarrow> snapshot" where
  "add_deployment L d snap = fold (add_container L (replica_factor d)) (d_containers d) snap"

definition Snapshot :: "lib \<Rightarrow> 'w kube \<Rightarrow> string \<Rightarrow> ('w, 'n, go_error + snapshot) kprog" where
  "Snapshot L K ns = do {
     rn \<leftarrow> listNodes K;
     case rn of
       Inl e \<Rightarrow> ret (Inl (Wrap ''listing nodes: '' e []))
     | Inr nodes \<Rightarrow> do {
         let snap = fold (add_node L) nodes empty_snapshot;
         rd \<leftarrow> listDeployments K ns [ManagedBy \<mapsto> ManagedByValue];
         case rd of
           Inl e \<Rightarrow> ret (Inl (Wrap ''listing deployments: '' e []))
         | Inr ds \<Rightarrow> ret (Inr (fold (add_deployment L) ds snap))
       }
   }"

section \<open>The sums, declaratively\<close>

definition node_cpu :: "lib \<Rightarrow> node \<Rightarrow> int" where
  "node_cpu L n = sint (milliValue L (Cpu (n_allocatable n)))"

definition node_mem :: "lib \<Rightarrow> node \<Rightarrow> int" where
  "node_mem L n = sint (quantityValue L (Memory (n_allocatable n)))"

definition replica_count :: "deployment \<Rightarrow> int" where
  "replica_count d = (case d_replicas d of None \<Rightarrow> 1 | Some r \<Rightarrow> sint r)"

definition deployment_cpu :: "lib \<Rightarrow> deployment \<Rightarrow> int" where
  "deployment_cpu L d = replica_count d *
     (\<Sum>c\<leftarrow>d_containers d. sint (milliValue L (Cpu (rr_requests (c_resources c)))))"

definition deployment_mem :: "lib \<Rightarrow> deployment \<Rightarrow> int" where
  "deployment_mem L d = replica_count d *
     (\<Sum>c\<leftarrow>d_containers d. sint (quantityValue L (Memory (rr_requests (c_resources c)))))"

definition true_snapshot :: "lib \<Rightarrow> node list \<Rightarrow> deployment list \<Rightarrow> snapshot" where
  "true_snapshot L ns ds =
     \<lparr>AllocatableMilliCPU = word_of_int (\<Sum>n\<leftarrow>ns. node_cpu L n),
      AllocatableMemoryBytes = word_of_int (\<Sum>n\<leftarrow>ns. node_mem L n),
      UsedMilliCPU = word_of_int (\<Sum>d\<leftarrow>ds. deployment_cpu L d),
      UsedMemoryBytes = word_of_int (\<Sum>d\<leftarrow>ds. deployment_mem L d)\<rparr>"

lemma replica_factor_eq: "replica_factor d = word_of_int (replica_count d)"
  by (simp add: replica_factor_def replica_count_def split: option.split)

lemma fold_add_node:
  "fold (add_node L) ns snap = snap
     \<lparr>AllocatableMilliCPU := AllocatableMilliCPU snap + word_of_int (\<Sum>n\<leftarrow>ns. node_cpu L n),
      AllocatableMemoryBytes := AllocatableMemoryBytes snap + word_of_int (\<Sum>n\<leftarrow>ns. node_mem L n)\<rparr>"
  by (induction ns arbitrary: snap)
     (simp_all add: add_node_def node_cpu_def node_mem_def algebra_simps)

lemma fold_add_container:
  "fold (add_container L n) cs snap = snap
     \<lparr>UsedMilliCPU := UsedMilliCPU snap +
        n * word_of_int (\<Sum>c\<leftarrow>cs. sint (milliValue L (Cpu (rr_requests (c_resources c))))),
      UsedMemoryBytes := UsedMemoryBytes snap +
        n * word_of_int (\<Sum>c\<leftarrow>cs. sint (quantityValue L (Memory (rr_requests (c_resources c)))))\<rparr>"
  by (induction cs arbitrary: snap) (simp_all add: add_container_def algebra_simps)

lemma add_deployment_eq:
  "add_deployment L d snap = snap
     \<lparr>UsedMilliCPU := UsedMilliCPU snap + word_of_int (deployment_cpu L d),
      UsedMemoryBytes := UsedMemoryBytes snap + word_of_int (deployment_mem L d)\<rparr>"
  by (simp add: add_deployment_def fold_add_container replica_factor_eq deployment_cpu_def
    deployment_mem_def)

lemma fold_add_deployment:
  "fold (add_deployment L) ds snap = snap
     \<lparr>UsedMilliCPU := UsedMilliCPU snap + word_of_int (\<Sum>d\<leftarrow>ds. deployment_cpu L d),
      UsedMemoryBytes := UsedMemoryBytes snap + word_of_int (\<Sum>d\<leftarrow>ds. deployment_mem L d)\<rparr>"
  by (induction ds arbitrary: snap) (simp_all add: add_deployment_eq algebra_simps)

lemma snapshot_folds:
  "fold (add_deployment L) ds (fold (add_node L) ns empty_snapshot) = true_snapshot L ns ds"
  by (simp add: fold_add_deployment fold_add_node empty_snapshot_def true_snapshot_def)

lemma sint_int64: "- (2 ^ 63) \<le> i \<Longrightarrow> i < 2 ^ 63 \<Longrightarrow> sint (word_of_int i :: int64) = i"
  by (simp add: signed_take_bit_int_eq_self sint_sbintrunc')

lemma sint_int64_range: "- (2 ^ 63) \<le> sint (w :: int64) \<and> sint w < 2 ^ 63"
  using sint_range_size [of w] by (simp add: word_size)

text \<open>A difference of two non-negative int64 values does not wrap.\<close>

lemma sint_diff_nonneg:
  fixes a b :: int64
  assumes "0 \<le> sint a" "0 \<le> sint b"
  shows "sint (a - b) = sint a - sint b"
proof -
  have "a - b = word_of_int (sint a - sint b)" by simp
  moreover have "sint (word_of_int (sint a - sint b) :: int64) = sint a - sint b"
    using assms sint_int64_range [of a] sint_int64_range [of b] by (intro sint_int64) simp_all
  ultimately show ?thesis by simp
qed

lemma Fits_nonneg:
  assumes "0 \<le> sint (AllocatableMilliCPU s)" "0 \<le> sint (UsedMilliCPU s)"
    and "0 \<le> sint (AllocatableMemoryBytes s)" "0 \<le> sint (UsedMemoryBytes s)"
  shows "Fits s c m \<longleftrightarrow> sint (UsedMilliCPU s) + sint c \<le> sint (AllocatableMilliCPU s) \<and>
    sint (UsedMemoryBytes s) + sint m \<le> sint (AllocatableMemoryBytes s)"
  using assms by (auto simp: Fits_def sint_diff_nonneg)

lemma Snapshot_wp:
  "wp (Snapshot L K ns) Q s \<longleftrightarrow>
     (\<forall>rn w. k_listNodes K (world s) = (rn, w) \<longrightarrow>
       (case rn of
          Inl e \<Rightarrow> Q (Inl (Wrap ''listing nodes: '' e [])) \<lparr>world = w, calls = calls s @ [CListNodes rn]\<rparr>
        | Inr nodes \<Rightarrow>
            (\<forall>rd w'. k_listDeployments K ns [ManagedBy \<mapsto> ManagedByValue] w = (rd, w') \<longrightarrow>
              Q (case rd of Inl e \<Rightarrow> Inl (Wrap ''listing deployments: '' e [])
                 | Inr ds \<Rightarrow> Inr (true_snapshot L nodes ds))
                \<lparr>world = w', calls = calls s @
                  [CListNodes rn, CListDeployments ns [ManagedBy \<mapsto> ManagedByValue] rd]\<rparr>)))"
  by (auto simp: Snapshot_def kube_ops wp_simps snapshot_folds split: sum.splits)

section \<open>Properties\<close>

text \<open>C35: When the cluster's totals stay below 2^63, a snapshot's four int64 fields are the exact
  sums: allocatable CPU and memory over all nodes, and requests times replicas over the managed
  Deployments of the workload namespace, a Deployment scaled to 0 counting nothing.\<close>

theorem Snapshot_exact:
  assumes "k_listNodes K w = (Inr nodes, w1)"
    and "k_listDeployments K ns [ManagedBy \<mapsto> ManagedByValue] w1 = (Inr ds, w2)"
    and "\<bar>\<Sum>n\<leftarrow>nodes. node_cpu L n\<bar> < 2 ^ 63" "\<bar>\<Sum>n\<leftarrow>nodes. node_mem L n\<bar> < 2 ^ 63"
    and "\<bar>\<Sum>d\<leftarrow>ds. deployment_cpu L d\<bar> < 2 ^ 63" "\<bar>\<Sum>d\<leftarrow>ds. deployment_mem L d\<bar> < 2 ^ 63"
  shows "\<exists>snap. op_of (Snapshot L K ns) w = (Inr snap, w2) \<and>
    sint (AllocatableMilliCPU snap) = (\<Sum>n\<leftarrow>nodes. node_cpu L n) \<and>
    sint (AllocatableMemoryBytes snap) = (\<Sum>n\<leftarrow>nodes. node_mem L n) \<and>
    sint (UsedMilliCPU snap) = (\<Sum>d\<leftarrow>filter (\<lambda>d. d_replicas d \<noteq> Some 0) ds. deployment_cpu L d) \<and>
    sint (UsedMemoryBytes snap) = (\<Sum>d\<leftarrow>filter (\<lambda>d. d_replicas d \<noteq> Some 0) ds. deployment_mem L d)"
proof -
  have run: "op_of (Snapshot L K ns) w = (Inr (true_snapshot L nodes ds), w2)"
    using assms(1,2)
    by (simp add: op_of_def Snapshot_def kube_ops ext_def run_state_bind snapshot_folds)
  have stopped: "(\<Sum>d\<leftarrow>filter (\<lambda>d. d_replicas d \<noteq> Some 0) ds. deployment_cpu L d) = (\<Sum>d\<leftarrow>ds. deployment_cpu L d)"
    "(\<Sum>d\<leftarrow>filter (\<lambda>d. d_replicas d \<noteq> Some 0) ds. deployment_mem L d) = (\<Sum>d\<leftarrow>ds. deployment_mem L d)"
    by (induction ds) (auto simp: deployment_cpu_def deployment_mem_def replica_count_def)
  from assms(3-6) run show ?thesis
    by (auto simp: true_snapshot_def stopped sint_int64 abs_less_iff)
qed

definition demo_deployment :: "int32 option \<Rightarrow> deployment" where
  "demo_deployment n = \<lparr>d_name = ''d'', d_namespace = ''ns'', d_labels = Map.empty, d_replicas = n,
     d_selector = Map.empty, d_podLabels = Map.empty,
     d_containers = [empty_container\<lparr>c_resources := browserResources ''200m'' ''64Mi'' ''128Mi''\<rparr>],
     d_initContainers = [], d_volumes = [], d_owners = [], d_readyReplicas = 0\<rparr>"

lemmas demo_sums = demo_deployment_def node_cpu_def node_mem_def deployment_cpu_def deployment_mem_def
  replica_count_def browserResources_def Cpu_def Memory_def ResourceCPU_def ResourceMemory_def
  demo_lib_def table_milli_def table_value_def quantity_table_def

theorem Snapshot_exact_witness:
  "\<exists>snap. op_of (Snapshot demo_lib (demo_kube\<lparr>k_listDeployments :=
       (\<lambda>ns ls. answer (Inr [demo_deployment (Some 3), demo_deployment (Some 0)]))\<rparr>) ''ns'') 7 = (Inr snap, 7) \<and>
     sint (AllocatableMilliCPU snap) = 1500 \<and> sint (UsedMilliCPU snap) = 600"
proof -
  let ?K = "demo_kube\<lparr>k_listDeployments :=
       (\<lambda>ns ls. answer (Inr [demo_deployment (Some 3), demo_deployment (Some 0)]))\<rparr>"
  let ?ns = "[\<lparr>n_name = ''n1'', n_allocatable =
        [ResourceCPU \<mapsto> MustParse ''1500m'', ResourceMemory \<mapsto> MustParse ''2Gi'']\<rparr>]"
  let ?ds = "[demo_deployment (Some 3), demo_deployment (Some 0)]"
  have sums: "(\<Sum>n\<leftarrow>?ns. node_cpu demo_lib n) = 1500" "(\<Sum>n\<leftarrow>?ns. node_mem demo_lib n) = 2147483648"
    "(\<Sum>d\<leftarrow>?ds. deployment_cpu demo_lib d) = 600" "(\<Sum>d\<leftarrow>?ds. deployment_mem demo_lib d) = 201326592"
    "(\<Sum>d\<leftarrow>filter (\<lambda>d. d_replicas d \<noteq> Some 0) ?ds. deployment_cpu demo_lib d) = 600"
    by (simp_all add: demo_sums)
  have "k_listNodes ?K 7 = (Inr ?ns, 7)" "k_listDeployments ?K ''ns'' [ManagedBy \<mapsto> ManagedByValue] 7 = (Inr ?ds, 7)"
    by (simp_all add: demo_kube_simps)
  from Snapshot_exact [OF this, where L = demo_lib] show ?thesis
    unfolding sums by auto
qed

text \<open>\<open>Fits\<close> is the exact comparison \<open>used + estimate \<le> allocatable\<close> for CPU and memory whenever
  the snapshot's fields are non-negative: the int64 subtraction it is computed with cannot wrap.\<close>

lemma Fits_exact:
  assumes "0 \<le> sint (AllocatableMilliCPU s)" "0 \<le> sint (UsedMilliCPU s)"
    and "0 \<le> sint (AllocatableMemoryBytes s)" "0 \<le> sint (UsedMemoryBytes s)"
  shows "Fits s c m \<longleftrightarrow> sint (UsedMilliCPU s) + sint c \<le> sint (AllocatableMilliCPU s) \<and>
    sint (UsedMemoryBytes s) + sint m \<le> sint (AllocatableMemoryBytes s)"
  using assms by (rule Fits_nonneg)

end
