(* ===== verification/Provisioning.thy ===== *)
theory Provisioning
  imports Capacity
begin

text \<open>
  Creating, redeploying, suspending and destroying Workload objects
  (internal/provisioning/creator.go), shared by the HTTP API and the claim loop. The
  namespace is the field of \<open>WorkloadCreator\<close> and \<open>WorkloadDestroyer\<close>. A nil configuration map
  is \<open>None\<close>. The properties say that an object is written only after its configuration passed
  the template's own checks, and exactly which fields a write changes.
\<close>

section \<open>Operations\<close>

definition cfg_map :: "params option \<Rightarrow> params" where
  "cfg_map c = (case c of None \<Rightarrow> Map.empty | Some m \<Rightarrow> m)"

definition marshalConfig :: "lib \<Rightarrow> params option \<Rightarrow> go_error + string option" where
  "marshalConfig L c = (case c of
     None \<Rightarrow> Inr None
   | Some m \<Rightarrow> (case jsonMarshal L m of Inl e \<Rightarrow> Inl e | Inr raw \<Rightarrow> Inr (Some raw)))"

definition unknown_template :: "string \<Rightarrow> go_error" where
  "unknown_template n = Wrap [] (Sentinel ErrUnknownTemplate) ('': '' @ go_quote n)"

definition invalid_config :: "go_error \<Rightarrow> go_error" where
  "invalid_config e = Wrap [] (Sentinel ErrInvalidConfig) ('': '' @ error_text e)"

definition Create :: "lib \<Rightarrow> 'w kube \<Rightarrow> string \<Rightarrow> string \<Rightarrow> string \<Rightarrow> string \<Rightarrow> string \<Rightarrow> params option \<Rightarrow>
    ('w, 'n, go_error + workload) kprog" where
  "Create L K ns workloadID template_name user_id sub_domain cfg =
     (case Get L template_name of
        None \<Rightarrow> ret (Inl (unknown_template template_name))
      | Some tmpl \<Rightarrow>
     (case ResolveParams L (t_parameters tmpl) (cfg_map cfg) of
        Inl e \<Rightarrow> ret (Inl (invalid_config e))
      | Inr _ \<Rightarrow>
     (case marshalConfig L cfg of
        Inl e \<Rightarrow> ret (Inl (invalid_config e))
      | Inr configRaw \<Rightarrow> do {
          r \<leftarrow> createWorkload K (empty_workload
            \<lparr>w_generateName := template_name @ ''-'', w_namespace := ns,
             spec := empty_spec\<lparr>templateName := template_name, userID := user_id,
               subdomain := sub_domain, config := configRaw\<rparr>,
             w_labels := (if workloadID \<noteq> [] then [WorkloadID \<mapsto> workloadID] else Map.empty)\<rparr>);
          ret (case r of Inl e \<Rightarrow> Inl (Wrap ''creating workload: '' e []) | Inr w \<Rightarrow> Inr w)
        })))"

definition Redeploy :: "lib \<Rightarrow> 'w kube \<Rightarrow> string \<Rightarrow> string \<Rightarrow> params option \<Rightarrow>
    ('w, 'n, go_error option) kprog" where
  "Redeploy L K ns name cfg = do {
     g \<leftarrow> getWorkload K ns name;
     case g of
       Inl e \<Rightarrow> ret (Some (Wrap (''getting workload '' @ go_quote name @ '': '') e []))
     | Inr w \<Rightarrow>
     (case Get L (templateName (spec w)) of
        None \<Rightarrow> ret (Some (unknown_template (templateName (spec w))))
      | Some tmpl \<Rightarrow>
     (case ResolveParams L (t_parameters tmpl) (cfg_map cfg) of
        Inl e \<Rightarrow> ret (Some (invalid_config e))
      | Inr _ \<Rightarrow>
     (case marshalConfig L cfg of
        Inl e \<Rightarrow> ret (Some (invalid_config e))
      | Inr configRaw \<Rightarrow> do {
          t \<leftarrow> now K;
          u \<leftarrow> updateWorkload K (w\<lparr>spec := (spec w)
                 \<lparr>config := configRaw, lastRedeployedAt := rfc3339Nano L t\<rparr>\<rparr>);
          ret (case u of Inl e \<Rightarrow> Some (Wrap (''updating workload '' @ go_quote name @ '': '') e [])
               | Inr _ \<Rightarrow> None)
        })))
   }"

definition SetSuspended :: "'w kube \<Rightarrow> string \<Rightarrow> string \<Rightarrow> bool \<Rightarrow> ('w, 'n, go_error option) kprog" where
  "SetSuspended K ns name b = do {
     g \<leftarrow> getWorkload K ns name;
     case g of
       Inl e \<Rightarrow> ret (Some (Wrap (''getting workload '' @ go_quote name @ '': '') e []))
     | Inr w \<Rightarrow> do {
         u \<leftarrow> updateWorkload K (w\<lparr>spec := (spec w)\<lparr>suspended := b\<rparr>\<rparr>);
         ret (case u of Inl e \<Rightarrow> Some (Wrap (''updating workload '' @ go_quote name @ '': '') e [])
              | Inr _ \<Rightarrow> None)
       }
   }"

definition Destroy :: "'w kube \<Rightarrow> string \<Rightarrow> string \<Rightarrow> ('w, 'n, go_error option) kprog" where
  "Destroy K ns name = do {
     r \<leftarrow> deleteWorkload K ns name;
     ret (case r of None \<Rightarrow> None
          | Some e \<Rightarrow> if IsNotFound e then None
                      else Some (Wrap (''deleting workload '' @ go_quote name @ '': '') e []))
   }"

section \<open>Lemmas\<close>

lemma provisioning_errors [simp]:
  "errors_is (unknown_template n) x = (x = ErrUnknownTemplate)"
  "errors_is (invalid_config e) x = (x = ErrInvalidConfig)"
  by (auto simp: unknown_template_def invalid_config_def)

text \<open>A configuration that a template accepts and that can be stored.\<close>

definition accepted :: "lib \<Rightarrow> string \<Rightarrow> params option \<Rightarrow> string option \<Rightarrow> bool" where
  "accepted L tn cfg raw \<longleftrightarrow> (\<exists>tmpl m. Get L tn = Some tmpl \<and>
     ResolveParams L (t_parameters tmpl) (cfg_map cfg) = Inr m \<and> marshalConfig L cfg = Inr raw)"

definition created_object :: "string \<Rightarrow> string \<Rightarrow> string \<Rightarrow> string \<Rightarrow> string \<Rightarrow> string option \<Rightarrow> workload" where
  "created_object ns wid tn uid sub raw = empty_workload
     \<lparr>w_generateName := tn @ ''-'', w_namespace := ns,
      spec := empty_spec\<lparr>templateName := tn, userID := uid, subdomain := sub, config := raw\<rparr>,
      w_labels := (if wid \<noteq> [] then [WorkloadID \<mapsto> wid] else Map.empty)\<rparr>"

lemma Create_wp:
  "wp (Create L K ns wid tn uid sub cfg) Q s \<longleftrightarrow>
     (Get L tn = None \<longrightarrow> Q (Inl (unknown_template tn)) s) \<and>
     (\<forall>tmpl. Get L tn = Some tmpl \<longrightarrow>
        (\<forall>e. ResolveParams L (t_parameters tmpl) (cfg_map cfg) = Inl e \<longrightarrow> Q (Inl (invalid_config e)) s) \<and>
        (\<forall>m e. ResolveParams L (t_parameters tmpl) (cfg_map cfg) = Inr m \<longrightarrow>
          marshalConfig L cfg = Inl e \<longrightarrow> Q (Inl (invalid_config e)) s)) \<and>
     (\<forall>raw. accepted L tn cfg raw \<longrightarrow>
        (\<forall>r w. k_createWorkload K (created_object ns wid tn uid sub raw) (world s) = (r, w) \<longrightarrow>
           Q (case r of Inl e \<Rightarrow> Inl (Wrap ''creating workload: '' e []) | Inr x \<Rightarrow> Inr x)
             \<lparr>world = w, calls = calls s @ [CCreateWorkload (created_object ns wid tn uid sub raw) r]\<rparr>))"
  unfolding Create_def created_object_def [symmetric] accepted_def
  by (cases "Get L tn"; cases "marshalConfig L cfg")
     (auto simp: wp_simps kube_ops)

lemma Destroy_wp:
  "wp (Destroy K ns name) Q s \<longleftrightarrow>
     (\<forall>r w. k_deleteWorkload K ns name (world s) = (r, w) \<longrightarrow>
        Q (case r of None \<Rightarrow> None
           | Some e \<Rightarrow> if IsNotFound e then None
                       else Some (Wrap (''deleting workload '' @ go_quote name @ '': '') e []))
          \<lparr>world = w, calls = calls s @ [CDeleteWorkload ns name r]\<rparr>)"
  by (auto simp: Destroy_def wp_simps kube_ops split: option.splits)

section \<open>Effects\<close>

text \<open>\<open>Create\<close> writes to the API server at most once, and only for a known template whose own
  rules accept the configuration; the object written carries the generated-name prefix of the
  template, the tenant's fields, the stored configuration and, when there is a claimed row, its
  correlation label. A refused request is reported as the caller's error.\<close>

lemma Create_writes_accepted_only:
  "wp (Create L K ns wid tn uid sub cfg)
     (\<lambda>r t. calls t = calls s \<and> (\<exists>e. r = Inl e \<and> (errors_is e ErrUnknownTemplate \<or> errors_is e ErrInvalidConfig))
       \<or> (\<exists>raw res. accepted L tn cfg raw \<and>
           calls t = calls s @ [CCreateWorkload (created_object ns wid tn uid sub raw) res])) s"
  unfolding Create_wp by auto

text \<open>\<open>Redeploy\<close> writes at most one object, which is the object read with only the stored
  configuration and the redeploy time stamp replaced, and only when the configuration is
  accepted by the template the object already runs.\<close>

lemma Redeploy_frame:
  "wp (Redeploy L K ns name cfg)
     (\<lambda>r t. \<exists>g. calls t = calls s @ [CGetWorkload ns name g] \<and> r \<noteq> None
       \<or> (\<exists>w ts raw u. g = Inr w \<and> accepted L (templateName (spec w)) cfg raw \<and>
           calls t = calls s @ [CGetWorkload ns name g, CNow ts,
             CUpdateWorkload (w\<lparr>spec := (spec w)\<lparr>config := raw, lastRedeployedAt := rfc3339Nano L ts\<rparr>\<rparr>) u] \<and>
           (r = None \<longleftrightarrow> (\<exists>w'. u = Inr w')))) s"
  by (auto simp: Redeploy_def wp_simps kube_ops accepted_def split: sum.splits)

end
