(* ===== verification/Controller.thy ===== *)
theory Controller
  imports Provisioning
begin

text \<open>
  The reconciler (internal/controller/workload_controller.go): one definition per function,
  each a program over the Kubernetes parameter \<open>K\<close> and the optional notifier \<open>N\<close> (the field
  \<open>ConvexClient\<close>, nil when no Convex is attached). Go mutates the Workload object through a
  pointer; here a function that does so returns the new object. Times are in nanoseconds.
  The log lines and the timeout placed on a notifier call are not modelled: a call that times
  out is a call that returns an error.
\<close>

section \<open>Constants and interfaces\<close>

definition labelName :: string where "labelName = ''app.kubernetes.io/name''"
definition labelInstance :: string where "labelInstance = ''app.kubernetes.io/instance''"
definition labelUserID :: string where "labelUserID = ''apps.aicloud.dev/user-id''"
definition conditionTypeConvexSynced :: string where "conditionTypeConvexSynced = ''ConvexSynced''"
definition conditionTypeConvexLifecycleSynced :: string where
  "conditionTypeConvexLifecycleSynced = ''ConvexLifecycleSynced''"
definition reasonWorkloadSuspended :: string where "reasonWorkloadSuspended = ''WorkloadSuspended''"
definition reasonDeploymentReady :: string where "reasonDeploymentReady = ''DeploymentReady''"
definition reasonDeploymentProgressing :: string where
  "reasonDeploymentProgressing = ''DeploymentProgressing''"
definition reasonNotifyFailed :: string where "reasonNotifyFailed = ''NotifyFailed''"
definition reasonNotified :: string where "reasonNotified = ''Notified''"
definition reasonAlreadyResolved :: string where "reasonAlreadyResolved = ''AlreadyResolved''"
definition reasonReconcileError :: string where "reasonReconcileError = ''ReconcileError''"
definition reasonInvalidSpec :: string where "reasonInvalidSpec = ''InvalidSpec''"
definition reasonUnknownTemplate :: string where "reasonUnknownTemplate = ''UnknownTemplate''"
definition lifecyclePhaseActive :: string where "lifecyclePhaseActive = ''active''"
definition lifecyclePhaseFailed :: string where "lifecyclePhaseFailed = ''failed''"
definition lifecyclePhaseStopped :: string where "lifecyclePhaseStopped = ''stopped''"
definition defaultContainerPort :: int32 where "defaultContainerPort = 8080"
definition statusRequeueInterval :: int where "statusRequeueInterval = 10 * 10 ^ 9"
definition workloadFinalizer :: string where "workloadFinalizer = ''apps.aicloud.dev/workload-finalizer''"
definition unschedulableGracePeriod :: int where "unschedulableGracePeriod = 3 * 60 * 10 ^ 9"
definition maxLabelValueLen :: nat where "maxLabelValueLen = 63"

lemmas condition_type_defs = ConditionTypeReady_def conditionTypeConvexSynced_def
  conditionTypeConvexLifecycleSynced_def
lemmas reason_defs = reasonWorkloadSuspended_def reasonDeploymentReady_def
  reasonDeploymentProgressing_def reasonNotifyFailed_def reasonNotified_def
  reasonAlreadyResolved_def reasonReconcileError_def reasonInvalidSpec_def reasonUnknownTemplate_def

record workloadInfo =
  wi_name :: string
  wi_namespace :: string
  wi_subdomain :: string
  wi_templateName :: string
  wi_userID :: string
  wi_workloadID :: string

text \<open>The interface \<open>WorkloadNotifier\<close>, and the calls made through it.\<close>

record 'w workloadNotifier =
  UpsertWorkload :: "workloadInfo \<Rightarrow> 'w \<Rightarrow> go_error option \<times> 'w"
  RemoveWorkload :: "string \<Rightarrow> string \<Rightarrow> 'w \<Rightarrow> go_error option \<times> 'w"
  ReportLifecycle :: "string \<Rightarrow> string \<Rightarrow> string \<Rightarrow> string \<Rightarrow> bool \<Rightarrow> 'w \<Rightarrow> go_error option \<times> 'w"

datatype notify =
    NUpsert workloadInfo "go_error option"
  | NRemove string string "go_error option"
  | NLifecycle string string string string bool "go_error option"

type_synonym ('w, 'a) cprog = "('w, notify, 'a) kprog"

text \<open>\<open>ctrl.Result\<close>: the requeue delay, 0 for none.\<close>

type_synonym reconcile_result = "int \<times> go_error option"

section \<open>Rendering and labels\<close>

definition alnum :: "char \<Rightarrow> bool" where
  "alnum c = (let n = (of_char c :: nat) in
     65 \<le> n \<and> n \<le> 90 \<or> 97 \<le> n \<and> n \<le> 122 \<or> 48 \<le> n \<and> n \<le> 57)"

definition label_char :: "char \<Rightarrow> bool" where
  "label_char c = (alnum c \<or> c \<in> {CHR ''.'', CHR ''_'', CHR ''-''})"

definition labelValueRe :: "string \<Rightarrow> bool" where
  "labelValueRe s = (s \<noteq> [] \<and> alnum (hd s) \<and> alnum (last s) \<and> list_all label_char s)"

definition sanitizeLabelValue :: "string \<Rightarrow> string option" where
  "sanitizeLabelValue raw =
     (if raw = [] \<or> length raw > maxLabelValueLen \<or> \<not> labelValueRe raw then None else Some raw)"

definition desiredReplicaCount :: "workload \<Rightarrow> int32" where
  "desiredReplicaCount w = (if suspended (spec w) then 0 else
     case replicas (spec w) of Some r \<Rightarrow> r | None \<Rightarrow> DefaultReplicas)"

definition configToParams :: "lib \<Rightarrow> string option \<Rightarrow> go_error + params" where
  "configToParams L c = (case c of
     None \<Rightarrow> Inr Map.empty
   | Some raw \<Rightarrow> if length raw = 0 then Inr Map.empty else jsonUnmarshal L raw)"

definition legacyRendered :: "workload \<Rightarrow> rendered" where
  "legacyRendered w =
     (let port = (if containerPort (spec w) = 0 then defaultContainerPort else containerPort (spec w)) in
      empty_rendered
        \<lparr>r_containers := [empty_container
            \<lparr>c_name := ''workload'', c_image := image (spec w),
             c_ports := [\<lparr>cp_containerPort = port, cp_name = []\<rparr>], c_env := env (spec w)\<rparr>],
         r_servicePorts := [\<lparr>sp_name = ''http'', sp_port = port, sp_targetPort = port\<rparr>]\<rparr>)"

definition render :: "lib \<Rightarrow> workload \<Rightarrow> go_error + rendered" where
  "render L w =
     (if templateName (spec w) = [] then
        (if image (spec w) = [] then Inl (Sentinel ErrImageRequired) else Inr (legacyRendered w))
      else
     (case Get L (templateName (spec w)) of
        None \<Rightarrow> Inl (Wrap [] (Sentinel ErrUnknownTemplateRender) ('' '' @ go_quote (templateName (spec w))))
      | Some tmpl \<Rightarrow>
     (case configToParams L (config (spec w)) of
        Inl e \<Rightarrow> Inl (Wrap ''parsing config: '' e [])
      | Inr rawParams \<Rightarrow>
     (case ResolveParams L (t_parameters tmpl) rawParams of
        Inl e \<Rightarrow> Inl (Wrap ''resolving template parameters: '' e [])
      | Inr resolvedParams \<Rightarrow> t_build tmpl resolvedParams))))"

definition selectorLabels :: "workload \<Rightarrow> labels" where
  "selectorLabels w =
     [labelName \<mapsto> w_name w, ManagedBy \<mapsto> ManagedByValue, labelInstance \<mapsto> w_uid w]"

definition objectLabels :: "workload \<Rightarrow> labels" where
  "objectLabels w = (case sanitizeLabelValue (userID (spec w)) of
     None \<Rightarrow> selectorLabels w
   | Some v \<Rightarrow> (selectorLabels w)(labelUserID \<mapsto> v))"

definition mutateDeployment ::
  "lib \<Rightarrow> workload \<Rightarrow> labels \<Rightarrow> labels \<Rightarrow> rendered \<Rightarrow> deployment \<Rightarrow> go_error + deployment" where
  "mutateDeployment L w sel obj r d =
     (let d1 = d\<lparr>d_labels := obj, d_replicas := Some (desiredReplicaCount w), d_selector := sel,
                 d_podLabels := obj, d_containers := r_containers r,
                 d_initContainers := r_initContainers r, d_volumes := r_volumes r\<rparr> in
      case setControllerReference L w (d_owners d1) of
        Inl e \<Rightarrow> Inl e
      | Inr os \<Rightarrow> Inr (d1\<lparr>d_owners := os\<rparr>))"

definition reconcileDeployment ::
  "lib \<Rightarrow> 'w kube \<Rightarrow> workload \<Rightarrow> labels \<Rightarrow> labels \<Rightarrow> rendered \<Rightarrow> ('w, go_error option) cprog" where
  "reconcileDeployment L K w sel obj r =
     applyDeployment K (w_namespace w) (w_name w) (mutateDeployment L w sel obj r)"

definition mutateService ::
  "lib \<Rightarrow> workload \<Rightarrow> labels \<Rightarrow> labels \<Rightarrow> rendered \<Rightarrow> service \<Rightarrow> go_error + service" where
  "mutateService L w sel obj r x =
     (let x1 = x\<lparr>s_labels := obj, s_selector := sel, s_ports := r_servicePorts r\<rparr> in
      case setControllerReference L w (s_owners x1) of
        Inl e \<Rightarrow> Inl e
      | Inr os \<Rightarrow> Inr (x1\<lparr>s_owners := os\<rparr>))"

definition reconcileService ::
  "lib \<Rightarrow> 'w kube \<Rightarrow> workload \<Rightarrow> labels \<Rightarrow> labels \<Rightarrow> rendered \<Rightarrow> ('w, go_error option) cprog" where
  "reconcileService L K w sel obj r =
     applyService K (w_namespace w) (w_name w) (mutateService L w sel obj r)"

section \<open>Telling Convex\<close>

definition notifyUpserted :: "'w workloadNotifier option \<Rightarrow> workload \<Rightarrow> ('w, go_error option) cprog" where
  "notifyUpserted N w = (case N of
     None \<Rightarrow> ret None
   | Some n \<Rightarrow>
       (let info = \<lparr>wi_name = w_name w, wi_namespace = w_namespace w, wi_subdomain = subdomain (spec w),
          wi_templateName = templateName (spec w), wi_userID = userID (spec w),
          wi_workloadID = mget (w_labels w) WorkloadID\<rparr>
        in ext (UpsertWorkload n info) (\<lambda>e. Other (NUpsert info e))))"

definition notifyLifecycle ::
  "'w workloadNotifier option \<Rightarrow> workload \<Rightarrow> string \<Rightarrow> string \<Rightarrow> bool \<Rightarrow> ('w, go_error option) cprog" where
  "notifyLifecycle N w ph reason retryable = (case N of
     None \<Rightarrow> ret None
   | Some n \<Rightarrow>
       (let wid = mget (w_labels w) WorkloadID in
        ext (ReportLifecycle n (w_name w) wid ph reason retryable)
          (\<lambda>e. Other (NLifecycle (w_name w) wid ph reason retryable e))))"

definition notifyRemoved ::
  "'w workloadNotifier option \<Rightarrow> string \<Rightarrow> string \<Rightarrow> ('w, go_error option) cprog" where
  "notifyRemoved N ns name = (case N of
     None \<Rightarrow> ret None
   | Some n \<Rightarrow> ext (RemoveWorkload n name ns) (\<lambda>e. Other (NRemove name ns e)))"

text \<open>Whether a condition of a type is recorded as true for the current generation.\<close>

definition synced_for :: "lib \<Rightarrow> string \<Rightarrow> workload \<Rightarrow> bool" where
  "synced_for L ty w = (case findStatusCondition L (conditions (status w)) ty of
     None \<Rightarrow> False
   | Some c \<Rightarrow> cond_status c = ConditionTrue \<and> cond_observedGeneration c = w_generation w)"

definition setCondition :: "lib \<Rightarrow> workload \<Rightarrow> condition \<Rightarrow> workload" where
  "setCondition L w c = w\<lparr>status := (status w)\<lparr>conditions :=
     setStatusCondition L (conditions (status w)) c\<rparr>\<rparr>"

definition syncedCondition :: "workload \<Rightarrow> go_error option \<Rightarrow> condition" where
  "syncedCondition w err = (case err of
     Some e \<Rightarrow> \<lparr>cond_type = conditionTypeConvexSynced, cond_status = ConditionFalse,
       cond_reason = reasonNotifyFailed, cond_message = error_text e,
       cond_observedGeneration = w_generation w\<rparr>
   | None \<Rightarrow> \<lparr>cond_type = conditionTypeConvexSynced, cond_status = ConditionTrue,
       cond_reason = reasonNotified,
       cond_message = ''Convex has this workload'' @ [CHR 0x27] @ ''s current ownership info'',
       cond_observedGeneration = w_generation w\<rparr>)"

definition syncConvex ::
  "lib \<Rightarrow> 'w workloadNotifier option \<Rightarrow> workload \<Rightarrow> ('w, bool \<times> workload) cprog" where
  "syncConvex L N w =
     (if synced_for L conditionTypeConvexSynced w then ret (True, w)
      else do {
        r \<leftarrow> notifyUpserted N w;
        let c = syncedCondition w r;
        ret (cond_status c = ConditionTrue, setCondition L w c)
      })"

definition lifecycleCondition :: "workload \<Rightarrow> string \<Rightarrow> go_error option \<Rightarrow> condition" where
  "lifecycleCondition w ph err =
     (let (st, reason, msg) = (case err of
        None \<Rightarrow> (ConditionTrue, reasonNotified, ''Convex has been told this workload is '' @ ph)
      | Some e \<Rightarrow> if errors_is e ErrLifecycleStale
          then (ConditionTrue, reasonAlreadyResolved,
            ''Convex already reflects this workload'' @ [CHR 0x27] @ ''s current phase from an earlier report'')
          else (ConditionFalse, reasonNotifyFailed, error_text e))
      in \<lparr>cond_type = conditionTypeConvexLifecycleSynced, cond_status = st, cond_reason = reason,
          cond_message = msg, cond_observedGeneration = w_generation w\<rparr>)"

definition syncConvexLifecyclePhase ::
  "lib \<Rightarrow> 'w workloadNotifier option \<Rightarrow> workload \<Rightarrow> string \<Rightarrow> ('w, bool \<times> workload) cprog" where
  "syncConvexLifecyclePhase L N w ph =
     (if synced_for L conditionTypeConvexLifecycleSynced w then ret (True, w)
      else do {
        r \<leftarrow> notifyLifecycle N w ph [] False;
        let c = lifecycleCondition w ph r;
        ret (cond_status c = ConditionTrue, setCondition L w c)
      })"

section \<open>Status\<close>

definition readyCondition :: "workload \<Rightarrow> conditionStatus \<Rightarrow> string \<Rightarrow> string \<Rightarrow> condition" where
  "readyCondition w st reason msg = \<lparr>cond_type = ConditionTypeReady, cond_status = st,
     cond_reason = reason, cond_message = msg, cond_observedGeneration = w_generation w\<rparr>"

definition with_phase :: "workload \<Rightarrow> string \<Rightarrow> workload" where
  "with_phase w p = w\<lparr>status := (status w)\<lparr>phase := p\<rparr>\<rparr>"

definition observed :: "workload \<Rightarrow> deployment \<Rightarrow> workload" where
  "observed w d = w\<lparr>status := (status w)\<lparr>readyReplicas := d_readyReplicas d,
     observedGeneration := w_generation w\<rparr>\<rparr>"

definition updateStatus ::
  "lib \<Rightarrow> 'w workloadNotifier option \<Rightarrow> workload \<Rightarrow> deployment \<Rightarrow> ('w, bool \<times> workload) cprog" where
  "updateStatus L N w0 d =
     (let desired = desiredReplicaCount w0; w = observed w0 d in
      if suspended (spec w) \<and> d_readyReplicas d = 0 then do {
        (synced, w1) \<leftarrow> syncConvexLifecyclePhase L N (with_phase w PhaseStopped) lifecyclePhaseStopped;
        ret (synced, setCondition L w1 (readyCondition w ConditionFalse reasonWorkloadSuspended
          ''workload is intentionally stopped (spec.suspended=true)''))
      }
      else if sint desired > 0 \<and> sint (d_readyReplicas d) \<ge> sint desired then do {
        (synced, w1) \<leftarrow> syncConvexLifecyclePhase L N (with_phase w PhaseRunning) lifecyclePhaseActive;
        ret (synced, setCondition L w1 (readyCondition w ConditionTrue reasonDeploymentReady
          ''backing Deployment has reached the desired ready replica count''))
      }
      else ret (True, setCondition L (with_phase w PhaseDeploying)
        (readyCondition w ConditionFalse reasonDeploymentProgressing
          (show_int (sint (d_readyReplicas d)) @ ''/'' @ show_int (sint desired) @ '' replicas ready''))))"

definition failed_object :: "lib \<Rightarrow> workload \<Rightarrow> string \<Rightarrow> go_error \<Rightarrow> workload" where
  "failed_object L w reason err =
     setCondition L
       (w\<lparr>status := (status w)\<lparr>phase := PhaseFailed, observedGeneration := w_generation w\<rparr>\<rparr>)
       (readyCondition w ConditionFalse reason (error_text err))"

definition setFailedWithReason :: "lib \<Rightarrow> 'w kube \<Rightarrow> 'w workloadNotifier option \<Rightarrow> workload \<Rightarrow> string \<Rightarrow>
    go_error \<Rightarrow> ('w, reconcile_result) cprog" where
  "setFailedWithReason L K N w reason err = do {
     u \<leftarrow> statusUpdate K (failed_object L w reason err);
     notifyLifecycle N (case u of Inl _ \<Rightarrow> failed_object L w reason err | Inr w' \<Rightarrow> w')
       lifecyclePhaseFailed (error_text err) False;
     ret (0, Some err)
   }"

definition setFailed :: "lib \<Rightarrow> 'w kube \<Rightarrow> 'w workloadNotifier option \<Rightarrow> workload \<Rightarrow> go_error \<Rightarrow>
    ('w, reconcile_result) cprog" where
  "setFailed L K N w err = setFailedWithReason L K N w reasonReconcileError err"

section \<open>Unschedulable pods and deletion\<close>

definition unschedulable :: "podCondition \<Rightarrow> bool" where
  "unschedulable c = (pc_type c = ''PodScheduled'' \<and> pc_status c = ConditionFalse \<and>
     pc_reason c = ''Unschedulable'')"

fun scanConditions :: "'w kube \<Rightarrow> podCondition list \<Rightarrow> string \<Rightarrow> ('w, string) cprog" where
  "scanConditions K [] msg = ret msg"
| "scanConditions K (c # cs) msg =
     (if unschedulable c then do {
        t \<leftarrow> now K;
        scanConditions K cs
          (if t - pc_lastTransitionTime c \<ge> unschedulableGracePeriod then pc_message c else msg)
      }
      else scanConditions K cs msg)"

fun scanPods :: "'w kube \<Rightarrow> pod list \<Rightarrow> string \<Rightarrow> ('w, string) cprog" where
  "scanPods K [] msg = ret msg"
| "scanPods K (p # ps) msg = do { m \<leftarrow> scanConditions K (p_conditions p) msg; scanPods K ps m }"

definition releaseClaim ::
  "'w kube \<Rightarrow> 'w workloadNotifier option \<Rightarrow> workload \<Rightarrow> string \<Rightarrow> ('w, bool) cprog" where
  "releaseClaim K N w stuckMessage = do {
     e \<leftarrow> notifyLifecycle N w lifecyclePhaseFailed
           (''insufficient cluster capacity: '' @ stuckMessage) True;
     case e of
       Some _ \<Rightarrow> ret False
     | None \<Rightarrow> do {
         d \<leftarrow> deleteWorkload K (w_namespace w) (w_name w);
         ret (case d of None \<Rightarrow> True | Some e \<Rightarrow> IsNotFound e)
       }
   }"

definition checkUnschedulable ::
  "'w kube \<Rightarrow> 'w workloadNotifier option \<Rightarrow> workload \<Rightarrow> labels \<Rightarrow> ('w, bool) cprog" where
  "checkUnschedulable K N w sel =
     (if suspended (spec w) \<or> desiredReplicaCount w = 0 \<or> phase (status w) = PhaseRunning then ret False
      else do {
        r \<leftarrow> listPods K (w_namespace w) sel;
        case r of
          Inl e \<Rightarrow> ret False
        | Inr pods \<Rightarrow> do {
            stuckMessage \<leftarrow> scanPods K pods [];
            if stuckMessage = [] then ret False else releaseClaim K N w stuckMessage
          }
      })"

definition reconcileDelete ::
  "lib \<Rightarrow> 'w kube \<Rightarrow> 'w workloadNotifier option \<Rightarrow> workload \<Rightarrow> ('w, reconcile_result) cprog" where
  "reconcileDelete L K N w =
     (if \<not> containsFinalizer L (w_finalizers w) workloadFinalizer then ret (0, None)
      else do {
        e \<leftarrow> notifyRemoved N (w_namespace w) (w_name w);
        case e of
          Some _ \<Rightarrow> ret (statusRequeueInterval, None)
        | None \<Rightarrow> do {
            u \<leftarrow> updateWorkload K (w\<lparr>w_finalizers := removeFinalizer L (w_finalizers w) workloadFinalizer\<rparr>);
            ret (case u of Inl e \<Rightarrow> (0, Some (Wrap ''removing workload finalizer: '' e []))
                 | Inr _ \<Rightarrow> (0, None))
          }
      })"

section \<open>Reconcile\<close>

definition ensureFinalizer :: "lib \<Rightarrow> 'w kube \<Rightarrow> workload \<Rightarrow> ('w, go_error + workload) cprog" where
  "ensureFinalizer L K w =
     (if \<not> containsFinalizer L (w_finalizers w) workloadFinalizer
      then updateWorkload K (w\<lparr>w_finalizers := addFinalizer L (w_finalizers w) workloadFinalizer\<rparr>)
      else ret (Inr w))"

definition render_reason :: "go_error \<Rightarrow> string" where
  "render_reason e =
     (if errors_is e ErrImageRequired then reasonInvalidSpec
      else if errors_is e ErrUnknownTemplateRender then reasonUnknownTemplate
      else reasonReconcileError)"

definition requeue_decision :: "workload \<Rightarrow> bool \<Rightarrow> bool \<Rightarrow> reconcile_result" where
  "requeue_decision w convexSynced lifecycleSynced =
     (let settled = (phase (status w) = PhaseRunning \<or> phase (status w) = PhaseStopped) in
      if \<not> settled \<or> \<not> convexSynced \<or> \<not> lifecycleSynced then (statusRequeueInterval, None) else (0, None))"

definition writeStatus :: "lib \<Rightarrow> 'w kube \<Rightarrow> 'w workloadNotifier option \<Rightarrow> workload \<Rightarrow> deployment \<Rightarrow> bool \<Rightarrow>
    ('w, reconcile_result) cprog" where
  "writeStatus L K N w d convexSynced = do {
     (lifecycleSynced, w1) \<leftarrow> updateStatus L N w d;
     u \<leftarrow> statusUpdate K w1;
     ret (case u of Inl e \<Rightarrow> (0, Some (Wrap ''updating workload status: '' e []))
          | Inr w2 \<Rightarrow> requeue_decision w2 convexSynced lifecycleSynced)
   }"

definition observe :: "lib \<Rightarrow> 'w kube \<Rightarrow> 'w workloadNotifier option \<Rightarrow> string \<Rightarrow> string \<Rightarrow> workload \<Rightarrow>
    ('w, reconcile_result) cprog" where
  "observe L K N ns name w = do {
     (convexSynced, w1) \<leftarrow> syncConvex L N w;
     g \<leftarrow> getDeployment K ns name;
     case g of
       Inl e \<Rightarrow> ret (0, Some (Wrap ''getting deployment for status: '' e []))
     | Inr d \<Rightarrow> writeStatus L K N w1 d convexSynced
   }"

definition settle :: "lib \<Rightarrow> 'w kube \<Rightarrow> 'w workloadNotifier option \<Rightarrow> string \<Rightarrow> string \<Rightarrow> workload \<Rightarrow>
    ('w, reconcile_result) cprog" where
  "settle L K N ns name w = do {
     released \<leftarrow> checkUnschedulable K N w (selectorLabels w);
     if released then ret (0, None) else observe L K N ns name w
   }"

definition applyFailed :: "lib \<Rightarrow> 'w kube \<Rightarrow> 'w workloadNotifier option \<Rightarrow> workload \<Rightarrow> string \<Rightarrow> go_error \<Rightarrow>
    ('w, reconcile_result) cprog" where
  "applyFailed L K N w what e =
     (if IsConflict e then ret (0, Some e) else setFailed L K N w (Wrap what e []))"

definition reconcileLive :: "lib \<Rightarrow> 'w kube \<Rightarrow> 'w workloadNotifier option \<Rightarrow> string \<Rightarrow> string \<Rightarrow> workload \<Rightarrow>
    ('w, reconcile_result) cprog" where
  "reconcileLive L K N ns name w =
     (case render L w of
        Inl e \<Rightarrow> setFailedWithReason L K N w (render_reason e) (Wrap ''rendering workload: '' e [])
      | Inr r \<Rightarrow> do {
          ed \<leftarrow> reconcileDeployment L K w (selectorLabels w) (objectLabels w) r;
          case ed of
            Some e \<Rightarrow> applyFailed L K N w ''reconciling deployment: '' e
          | None \<Rightarrow> do {
              es \<leftarrow> reconcileService L K w (selectorLabels w) (objectLabels w) r;
              case es of
                Some e \<Rightarrow> applyFailed L K N w ''reconciling service: '' e
              | None \<Rightarrow> settle L K N ns name w
            }
        })"

definition Reconcile :: "lib \<Rightarrow> 'w kube \<Rightarrow> 'w workloadNotifier option \<Rightarrow> string \<Rightarrow> string \<Rightarrow>
    ('w, reconcile_result) cprog" where
  "Reconcile L K N ns name = do {
     g \<leftarrow> getWorkload K ns name;
     case g of
       Inl e \<Rightarrow>
         if IsNotFound e then do { notifyRemoved N ns name; ret (0, None) }
         else ret (0, Some (Wrap ''getting Workload: '' e []))
     | Inr w \<Rightarrow>
         if w_deletionTimestamp w \<noteq> None then reconcileDelete L K N w
         else do {
           f \<leftarrow> ensureFinalizer L K w;
           case f of
             Inl e \<Rightarrow> ret (0, Some (Wrap ''adding finalizer: '' e []))
           | Inr w1 \<Rightarrow> reconcileLive L K N ns name w1
         }
   }"

end
