(* ===== verification/Controller_Correct.thy ===== *)
theory Controller_Correct
  imports Controller
begin

text \<open>
  Correctness of the reconciler. The first part says which calls each step of \<open>Reconcile\<close> can
  make; the properties then speak of the call sequences of whole reconciliations (predicate
  \<open>runs\<close>), for every behaviour of the API server and of the notifier.
\<close>

section \<open>The calls of each step\<close>

text \<open>An element that a prefix cannot hold lies behind it.\<close>

lemma split_behind:
  "xs @ ds = pre @ c # post \<Longrightarrow> list_all (\<lambda>x. \<not> P x) xs \<Longrightarrow> P c \<Longrightarrow>
   \<exists>es. pre = xs @ es \<and> ds = es @ c # post"
  by (induction xs arbitrary: pre) (auto simp: Cons_eq_append_conv)

definition is_now :: "'n call \<Rightarrow> bool" where
  "is_now c = (case c of CNow _ \<Rightarrow> True | _ \<Rightarrow> False)"

text \<open>The calls that tell somebody how a Workload is doing.\<close>

definition reports :: "notify call \<Rightarrow> bool" where
  "reports c = (case c of CStatusUpdate _ _ \<Rightarrow> True | Other (NLifecycle _ _ _ _ _ _) \<Rightarrow> True | _ \<Rightarrow> False)"

definition applies :: "notify call \<Rightarrow> bool" where
  "applies c = (case c of CApplyDeployment _ _ _ _ \<Rightarrow> True | CApplyService _ _ _ _ \<Rightarrow> True | _ \<Rightarrow> False)"

definition updates :: "notify call \<Rightarrow> bool" where
  "updates c = (case c of CUpdateWorkload _ _ \<Rightarrow> True | _ \<Rightarrow> False)"

definition deletes :: "notify call \<Rightarrow> bool" where
  "deletes c = (case c of CDeleteWorkload _ _ _ \<Rightarrow> True | _ \<Rightarrow> False)"

definition removes :: "notify call \<Rightarrow> bool" where
  "removes c = (case c of Other (NRemove _ _ _) \<Rightarrow> True | _ \<Rightarrow> False)"

lemmas call_kinds = reports_def applies_def updates_def deletes_def removes_def
lemmas notify_defs = notifyUpserted_def notifyLifecycle_def notifyRemoved_def

lemma emits_scanConditions: "emits is_now (scanConditions K cs m)"
  by (induction K cs m rule: scanConditions.induct)
     (auto simp: kube_ops is_now_def intro!: emits_intros)

lemma emits_scanPods: "emits is_now (scanPods K ps m)"
  by (induction K ps m rule: scanPods.induct) (auto intro!: emits_intros emits_scanConditions)

lemma emits_notifyLifecycle:
  "emits (\<lambda>c. \<exists>n wid e. c = Other (NLifecycle n wid ph rs b e)) (notifyLifecycle N w ph rs b)"
  by (auto simp: notifyLifecycle_def Let_def intro!: emits_intros)

lemma emits_notifyUpserted: "emits (\<lambda>c. \<exists>i e. c = Other (NUpsert i e)) (notifyUpserted N w)"
  by (auto simp: notifyUpserted_def Let_def intro!: emits_intros)

definition quiet :: "notify call \<Rightarrow> bool" where
  "quiet c \<longleftrightarrow> \<not> applies c \<and> \<not> updates c \<and> \<not> deletes c \<and> \<not> removes c"

lemma quiet_now: "is_now c \<Longrightarrow> quiet c \<and> \<not> reports c"
  by (cases c) (auto simp: is_now_def quiet_def call_kinds)

lemma emits_setFailed: "emits quiet (setFailedWithReason L K N w rs e)"
  unfolding setFailedWithReason_def kube_ops Let_def
  by (intro emits_intros emits_notifyLifecycle [THEN emits_mono])
     (auto simp: quiet_def call_kinds)

lemma emits_syncConvex: "emits quiet (syncConvex L N w)"
  unfolding syncConvex_def Let_def
  by (intro emits_intros emits_notifyUpserted [THEN emits_mono]) (auto simp: quiet_def call_kinds)

lemma emits_syncLifecycle: "emits quiet (syncConvexLifecyclePhase L N w ph)"
  unfolding syncConvexLifecyclePhase_def Let_def
  by (intro emits_intros emits_notifyLifecycle [THEN emits_mono]) (auto simp: quiet_def call_kinds)

lemma emits_updateStatus: "emits quiet (updateStatus L N w d)"
  unfolding updateStatus_def Let_def by (intro emits_intros emits_syncLifecycle)

lemma emits_observe: "emits quiet (observe L K N ns n w)"
  unfolding observe_def writeStatus_def kube_ops
  by (intro emits_intros emits_syncConvex emits_updateStatus) (simp_all add: quiet_def call_kinds)

lemma emits_checkUnschedulable:
  "emits (\<lambda>c. \<not> applies c \<and> \<not> updates c \<and> \<not> removes c) (checkUnschedulable K N w sel)"
  unfolding checkUnschedulable_def releaseClaim_def kube_ops
  by (intro emits_intros emits_notifyLifecycle [THEN emits_mono] emits_scanPods [THEN emits_mono])
     (auto simp: call_kinds is_now_def split: call.splits)

definition apply_error :: "notify call \<Rightarrow> go_error option" where
  "apply_error c = (case c of CApplyDeployment _ _ _ e \<Rightarrow> e | CApplyService _ _ _ e \<Rightarrow> e | _ \<Rightarrow> None)"

lemma apply_error_None: "\<not> applies c \<Longrightarrow> apply_error c = None"
  by (cases c) (auto simp: apply_error_def applies_def)

lemma proper_kube [simp]:
  "proper (now K)" "proper (getWorkload K a b)" "proper (createWorkload K x)"
  "proper (updateWorkload K x)" "proper (statusUpdate K x)" "proper (deleteWorkload K a b)"
  "proper (getDeployment K a b)" "proper (applyDeployment K a b f)" "proper (applyService K a b g)"
  "proper (listPods K a ls)"
  by (simp_all add: kube_ops)

lemma proper_notify [simp]:
  "proper (notifyUpserted N x)" "proper (notifyLifecycle N x p r b)" "proper (notifyRemoved N a c)"
  by (simp_all add: notify_defs Let_def)

lemma proper_scanConditions [simp]: "proper (scanConditions K cs m)"
  by (induction K cs m rule: scanConditions.induct) simp_all

lemma proper_scanPods [simp]: "proper (scanPods K ps m)"
  by (induction K ps m rule: scanPods.induct) simp_all

lemma proper_releaseClaim [simp]: "proper (releaseClaim K N w m)"
  by (simp add: releaseClaim_def)

lemma proper_updateStatus [simp]: "proper (updateStatus L N w d)"
  by (simp add: updateStatus_def syncConvexLifecyclePhase_def Let_def)

lemma proper_writeStatus [simp]: "proper (writeStatus L K N w d b)"
  by (simp add: writeStatus_def)

lemma proper_steps [simp]:
  "proper (syncConvex L N w)" "proper (syncConvexLifecyclePhase L N w ph)"
  "proper (setFailedWithReason L K N w r e)"
  "proper (setFailed L K N w e)" "proper (checkUnschedulable K N w sel)"
  "proper (reconcileDelete L K N w)" "proper (ensureFinalizer L K w)"
  "proper (observe L K N ns n w)"
  by (simp_all add: syncConvex_def syncConvexLifecyclePhase_def setFailedWithReason_def setFailed_def checkUnschedulable_def reconcileDelete_def
    ensureFinalizer_def observe_def Let_def)

lemma proper_reconcileLive [simp]:
  "proper (settle L K N ns n w)" "proper (applyFailed L K N w what e)"
  "proper (reconcileService L K w sel obj r)" "proper (reconcileDeployment L K w sel obj r)"
  by (simp_all add: settle_def applyFailed_def reconcileDeployment_def reconcileService_def)

lemmas runs_rules = runs_simps kube_ops

lemma runs_notifyLifecycle:
  "runs (notifyLifecycle N w ph rs b) w0 e cs w1 \<longleftrightarrow>
     (N = None \<and> e = None \<and> cs = [] \<and> w1 = w0) \<or>
     (\<exists>n. N = Some n \<and> ReportLifecycle n (w_name w) (mget (w_labels w) WorkloadID) ph rs b w0 = (e, w1) \<and>
        cs = [Other (NLifecycle (w_name w) (mget (w_labels w) WorkloadID) ph rs b e)])"
  by (cases N) (auto simp: notifyLifecycle_def runs_simps Let_def)

lemma runs_notifyRemoved:
  "runs (notifyRemoved N ns nm) w0 e cs w1 \<longleftrightarrow>
     (N = None \<and> e = None \<and> cs = [] \<and> w1 = w0) \<or>
     (\<exists>n. N = Some n \<and> RemoveWorkload n nm ns w0 = (e, w1) \<and> cs = [Other (NRemove nm ns e)])"
  by (cases N) (auto simp: notifyRemoved_def runs_simps)

lemma runs_setFailed:
  "runs (setFailedWithReason L K N w rs err) w0 (q, err') cs w1 \<longleftrightarrow>
     q = 0 \<and> err' = Some err \<and>
     (\<exists>u ds w2 e. k_statusUpdateWorkload K (failed_object L w rs err) w0 = (u, w2) \<and>
        cs = CStatusUpdate (failed_object L w rs err) u # ds \<and>
        runs (notifyLifecycle N (case u of Inl _ \<Rightarrow> failed_object L w rs err | Inr w' \<Rightarrow> w')
          lifecyclePhaseFailed (error_text err) False) w2 e ds w1)"
  by (auto simp: setFailedWithReason_def runs_rules)

lemma runs_applyFailed:
  assumes "runs (applyFailed L K N w what e) w0 (q, err) cs w1"
  shows "if IsConflict e then (q, err) = (0, Some e) \<and> cs = []
    else err = Some (Wrap what e []) \<and> list_all quiet cs"
proof (cases "IsConflict e")
  case True
  with assms show ?thesis by (simp add: applyFailed_def runs_return)
next
  case False
  with assms have run: "runs (setFailedWithReason L K N w reasonReconcileError (Wrap what e []))
      w0 (q, err) cs w1" by (simp add: applyFailed_def setFailed_def)
  from emits_runs [OF emits_setFailed this] run False show ?thesis
    by (simp add: runs_setFailed del: error_text.simps)
qed

lemma proper_live [simp]: "proper (reconcileLive L K N ns n w)"
  by (simp add: reconcileLive_def)

section \<open>The shape of a reconciliation\<close>

abbreviation deployment_call :: "lib \<Rightarrow> workload \<Rightarrow> rendered \<Rightarrow> go_error option \<Rightarrow> notify call" where
  "deployment_call L w r e \<equiv> CApplyDeployment (w_namespace w) (w_name w)
     (mutateDeployment L w (selectorLabels w) (objectLabels w) r) e"

abbreviation service_call :: "lib \<Rightarrow> workload \<Rightarrow> rendered \<Rightarrow> go_error option \<Rightarrow> notify call" where
  "service_call L w r e \<equiv> CApplyService (w_namespace w) (w_name w)
     (mutateService L w (selectorLabels w) (objectLabels w) r) e"

text \<open>
  The calls of a live Workload's reconciliation: the Deployment is applied, then the Service,
  then the rest, each step only after the one before it succeeded.
\<close>

lemma reconcileLive_runs:
  assumes run: "runs (reconcileLive L K N ns n w) w0 (q, err) cs w1"
  obtains (render) e where "render L w = Inl e"
      "runs (setFailedWithReason L K N w (render_reason e) (Wrap ''rendering workload: '' e []))
         w0 (q, err) cs w1"
  | (deployment) r e ds w2 where "render L w = Inr r" "cs = deployment_call L w r (Some e) # ds"
      "runs (applyFailed L K N w ''reconciling deployment: '' e) w2 (q, err) ds w1"
  | (service) r e ds w2 where "render L w = Inr r"
      "cs = deployment_call L w r None # service_call L w r (Some e) # ds"
      "runs (applyFailed L K N w ''reconciling service: '' e) w2 (q, err) ds w1"
  | (applied) r ds w2 where "render L w = Inr r"
      "cs = deployment_call L w r None # service_call L w r None # ds"
      "runs (settle L K N ns n w) w2 (q, err) ds w1"
proof (cases "render L w")
  case (Inl e)
  with run show ?thesis by (intro render) (simp_all add: reconcileLive_def)
next
  case (Inr r)
  from run obtain ed w2 ds where cs: "cs = deployment_call L w r ed # ds"
    and rest: "runs (case ed of
        Some e \<Rightarrow> applyFailed L K N w ''reconciling deployment: '' e
      | None \<Rightarrow> do {
          es \<leftarrow> reconcileService L K w (selectorLabels w) (objectLabels w) r;
          case es of
            Some e \<Rightarrow> applyFailed L K N w ''reconciling service: '' e
          | None \<Rightarrow> settle L K N ns n w
        }) w2 (q, err) ds w1"
    unfolding reconcileLive_def reconcileDeployment_def applyDeployment_def Inr sum.case
    by (rule runs_ext_bindE) simp_all
  show ?thesis
  proof (cases ed)
    case (Some e)
    with rest cs show ?thesis by (intro deployment [OF Inr]) simp_all
  next
    case None
    from rest [unfolded None option.case reconcileService_def applyService_def]
    obtain es w3 fs where ds: "ds = service_call L w r es # fs"
      and rest': "runs (case es of Some e \<Rightarrow> applyFailed L K N w ''reconciling service: '' e
          | None \<Rightarrow> settle L K N ns n w) w3 (q, err) fs w1"
      by (rule runs_ext_bindE) simp_all
    from rest' cs ds None show ?thesis
      by (cases es) (simp_all add: service [OF Inr] applied [OF Inr])
  qed
qed

lemma Reconcile_runs:
  assumes run: "runs (Reconcile L K N ns n) w0 (q, err) cs w1"
  obtains (gone) e ds w2 e' where "IsNotFound e" "cs = CGetWorkload ns n (Inl e) # ds"
      "runs (notifyRemoved N ns n) w2 e' ds w1" "q = 0" "err = None"
  | (unread) e where "\<not> IsNotFound e" "cs = [CGetWorkload ns n (Inl e)]"
      "q = 0" "err = Some (Wrap ''getting Workload: '' e [])"
  | (deleting) w ds w2 where "w_deletionTimestamp w \<noteq> None" "cs = CGetWorkload ns n (Inr w) # ds"
      "runs (reconcileDelete L K N w) w2 (q, err) ds w1"
  | (unfinalized) w fs w2 e where "w_deletionTimestamp w = None" "cs = CGetWorkload ns n (Inr w) # fs"
      "runs (ensureFinalizer L K w) w2 (Inl e) fs w1" "q = 0" "err = Some (Wrap ''adding finalizer: '' e [])"
  | (live) w fs w2 w' w3 ds where "w_deletionTimestamp w = None"
      "cs = CGetWorkload ns n (Inr w) # fs @ ds"
      "runs (ensureFinalizer L K w) w2 (Inr w') fs w3"
      "runs (reconcileLive L K N ns n w') w3 (q, err) ds w1"
proof -
  from run obtain g w2 ds where cs: "cs = CGetWorkload ns n g # ds"
    and rest: "runs (case g of
         Inl e \<Rightarrow>
           if IsNotFound e then do { notifyRemoved N ns n; ret (0, None) }
           else ret (0, Some (Wrap ''getting Workload: '' e []))
       | Inr w \<Rightarrow>
           if w_deletionTimestamp w \<noteq> None then reconcileDelete L K N w
           else do {
             f \<leftarrow> ensureFinalizer L K w;
             case f of
               Inl e \<Rightarrow> ret (0, Some (Wrap ''adding finalizer: '' e []))
             | Inr w1 \<Rightarrow> reconcileLive L K N ns n w1
           }) w2 (q, err) ds w1"
    unfolding Reconcile_def getWorkload_def
    by (rule runs_ext_bindE) simp_all
  show ?thesis
  proof (cases g)
    case (Inl e)
    with rest cs show ?thesis
      by (cases "IsNotFound e") (auto simp: runs_bind runs_return intro: gone unread)
  next
    case (Inr w)
    show ?thesis
    proof (cases "w_deletionTimestamp w")
      case (Some t)
      with rest cs Inr show ?thesis by (intro deleting) simp_all
    next
      case None
      with rest Inr obtain f fs w3 es where
        "runs (ensureFinalizer L K w) w2 f fs w3" "ds = fs @ es"
        "runs (case f of Inl e \<Rightarrow> ret (0, Some (Wrap ''adding finalizer: '' e []))
             | Inr w1 \<Rightarrow> reconcileLive L K N ns n w1) w3 (q, err) es w1"
        by (auto simp: runs_bind)
      with None cs Inr show ?thesis
        by (cases f) (auto simp: runs_return intro: unfinalized live)
    qed
  qed
qed

section \<open>Lemmas on the steps\<close>

lemma runs_ensureFinalizer:
  "runs (ensureFinalizer L K w) w0 r cs w1 \<longleftrightarrow>
     (if containsFinalizer L (w_finalizers w) workloadFinalizer then r = Inr w \<and> cs = [] \<and> w1 = w0
      else let x = w\<lparr>w_finalizers := addFinalizer L (w_finalizers w) workloadFinalizer\<rparr> in
        k_updateWorkload K x w0 = (r, w1) \<and> cs = [CUpdateWorkload x r])"
  by (auto simp: ensureFinalizer_def runs_rules Let_def)

lemma reconcileDelete_runs:
  assumes "runs (reconcileDelete L K N w) w0 (q, err) cs w1"
  obtains (unowned) "\<not> containsFinalizer L (w_finalizers w) workloadFinalizer" "q = 0" "err = None" "cs = []"
  | (retry) e where "containsFinalizer L (w_finalizers w) workloadFinalizer"
      "q = statusRequeueInterval" "err = None"
      "runs (notifyRemoved N (w_namespace w) (w_name w)) w0 (Some e) cs w1"
  | (removed) ds w2 u where "containsFinalizer L (w_finalizers w) workloadFinalizer"
      "runs (notifyRemoved N (w_namespace w) (w_name w)) w0 None ds w2" "q = 0"
      "cs = ds @ [CUpdateWorkload (w\<lparr>w_finalizers := removeFinalizer L (w_finalizers w) workloadFinalizer\<rparr>) u]"
proof (cases "containsFinalizer L (w_finalizers w) workloadFinalizer")
  case False
  with assms show ?thesis by (intro unowned) (simp_all add: reconcileDelete_def runs_return)
next
  case True
  let ?x = "w\<lparr>w_finalizers := removeFinalizer L (w_finalizers w) workloadFinalizer\<rparr>"
  from assms True obtain e ds w2 es where
    e: "runs (notifyRemoved N (w_namespace w) (w_name w)) w0 e ds w2" "cs = ds @ es"
    "runs (case e of Some _ \<Rightarrow> ret (statusRequeueInterval, None)
       | None \<Rightarrow> do {
           u \<leftarrow> updateWorkload K ?x;
           ret (case u of Inl e \<Rightarrow> (0, Some (Wrap ''removing workload finalizer: '' e []))
                | Inr _ \<Rightarrow> (0, None))
         }) w2 (q, err) es w1"
    unfolding reconcileDelete_def by (auto elim!: runs_bindE)
  show ?thesis
  proof (cases e)
    case (Some e')
    with e True show ?thesis by (intro retry [of e']) (simp_all add: runs_return)
  next
    case None
    with e(3) obtain u where "es = [CUpdateWorkload ?x u]"
      "(q, err) = (case u of Inl e \<Rightarrow> (0, Some (Wrap ''removing workload finalizer: '' e []))
         | Inr _ \<Rightarrow> (0, None))" by (auto simp: runs_bind runs_ext runs_return updateWorkload_def)
    with e None True show ?thesis by (intro removed [of ds w2 u]) (auto split: sum.splits)
  qed
qed

lemma runs_settle_calls:
  assumes "runs (settle L K N ns n w) w0 (q, err) cs w1"
  shows "list_all (\<lambda>c. \<not> applies c \<and> \<not> updates c \<and> \<not> removes c) cs"
proof -
  from assms obtain b ds w2 es where d: "runs (checkUnschedulable K N w (selectorLabels w)) w0 b ds w2"
    and cs: "cs = ds @ es"
    and e: "runs (if b then ret (0, None) else observe L K N ns n w) w2 (q, err) es w1"
    unfolding settle_def by (rule runs_bindE) simp
  have "list_all quiet es"
    using e emits_runs [OF emits_observe] by (auto simp: runs_return split: if_splits)
  with emits_runs [OF emits_checkUnschedulable d] cs show ?thesis
    by (auto simp: list_all_iff quiet_def)
qed

lemma quiet_list: "list_all quiet cs \<Longrightarrow> list_all (\<lambda>c. \<not> applies c \<and> \<not> updates c \<and> \<not> removes c) cs"
  by (auto simp: list_all_iff quiet_def)

text \<open>What follows the applies of a live reconciliation touches neither children nor metadata.\<close>

lemma reconcileLive_calls:
  assumes "runs (reconcileLive L K N ns n w) w0 (q, err) cs w1"
  obtains as ds r where "cs = as @ ds" "list_all (\<lambda>c. \<not> applies c \<and> \<not> updates c \<and> \<not> removes c) ds"
    "as \<noteq> [] \<Longrightarrow> render L w = Inr r"
    "as = [] \<or> (\<exists>e. as = [deployment_call L w r e] \<and> e \<noteq> None) \<or>
     (\<exists>e. as = [deployment_call L w r None, service_call L w r e])"
    "\<And>c e. c \<in> set as \<Longrightarrow> apply_error c = Some e \<Longrightarrow> IsConflict e \<Longrightarrow> (q, err) = (0, Some e) \<and> ds = []"
  using assms
proof (cases rule: reconcileLive_runs)
  case (render e)
  then show ?thesis
    using that [of "[]" cs] quiet_list [OF emits_runs [OF emits_setFailed render(2)]] by simp
next
  case (deployment r e ds w2)
  from runs_applyFailed [OF deployment(3)] deployment show ?thesis
    by (intro that [of "[deployment_call L w r (Some e)]" ds r])
       (auto simp: apply_error_def quiet_list split: if_splits)
next
  case (service r e ds w2)
  from runs_applyFailed [OF service(3)] service show ?thesis
    by (intro that [of "[deployment_call L w r None, service_call L w r (Some e)]" ds r])
       (auto simp: apply_error_def quiet_list split: if_splits)
next
  case (applied r ds w2)
  with runs_settle_calls [OF applied(3)] show ?thesis
    by (intro that [of "[deployment_call L w r None, service_call L w r None]" ds r])
       (auto simp: apply_error_def)
qed

lemma ensureFinalizer_calls:
  assumes "runs (ensureFinalizer L K w) w0 r cs w1"
  shows "list_all (\<lambda>c. \<not> applies c \<and> \<not> reports c \<and> \<not> deletes c) cs"
  using assms by (auto simp: runs_ensureFinalizer Let_def call_kinds split: if_splits)

lemma reconcileDelete_calls:
  assumes "runs (reconcileDelete L K N w) w0 (q, err) cs w1"
  shows "list_all (\<lambda>c. \<not> applies c \<and> \<not> reports c \<and> \<not> deletes c) cs"
  using assms
  by (cases rule: reconcileDelete_runs) (auto simp: runs_notifyRemoved call_kinds)

lemma notifyRemoved_calls:
  "runs (notifyRemoved N ns n) w0 r cs w1 \<Longrightarrow>
   list_all (\<lambda>c. \<not> applies c \<and> \<not> reports c \<and> \<not> deletes c \<and> \<not> updates c) cs"
  by (auto simp: runs_notifyRemoved call_kinds)

text \<open>Children are applied, phases reported and Workloads deleted in the live branch only.\<close>

lemma Reconcile_live_call:
  assumes "runs (Reconcile L K N ns n) w0 (q, err) cs w1"
    and "c \<in> set cs" "applies c \<or> reports c \<or> deletes c"
  obtains w fs w2 w' w3 ds where "w_deletionTimestamp w = None"
    "cs = CGetWorkload ns n (Inr w) # fs @ ds" "c \<in> set ds"
    "runs (ensureFinalizer L K w) w2 (Inr w') fs w3"
    "list_all (\<lambda>c. \<not> applies c \<and> \<not> reports c \<and> \<not> deletes c) fs"
    "runs (reconcileLive L K N ns n w') w3 (q, err) ds w1"
proof -
  have get: "\<not> applies (CGetWorkload ns n g)" "\<not> reports (CGetWorkload ns n g)"
    "\<not> deletes (CGetWorkload ns n g)" for g
    by (simp_all add: call_kinds)
  from assms(1) show ?thesis
  proof (cases rule: Reconcile_runs)
    case (live w fs w2 w' w3 ds)
    note fs = ensureFinalizer_calls [OF live(3)]
    with assms(2,3) live(2) get have "c \<in> set ds" by (auto simp: list_all_iff)
    with live fs show ?thesis by (intro that) simp_all
  qed (use assms(2,3) get in \<open>auto simp: list_all_iff
       dest!: notifyRemoved_calls reconcileDelete_calls ensureFinalizer_calls\<close>)
qed

text \<open>A stuck pod's message comes from a condition that was seen past the grace period.\<close>

lemma scanConditions_runs:
  assumes "runs (scanConditions K cs m0) w m ds w'"
  shows "m = m0 \<or> (\<exists>c t. c \<in> set cs \<and> unschedulable c \<and> m = pc_message c \<and> CNow t \<in> set ds \<and>
    t - pc_lastTransitionTime c \<ge> unschedulableGracePeriod)"
  using assms
proof (induction K cs m0 arbitrary: w ds rule: scanConditions.induct)
  case (2 K c cs msg)
  show ?case
  proof (cases "unschedulable c")
    case True
    with "2.prems" obtain t w1 es where ds: "ds = CNow t # es" and
      run: "runs (scanConditions K cs
        (if t - pc_lastTransitionTime c \<ge> unschedulableGracePeriod then pc_message c else msg)) w1 m es w'"
      by (auto simp: runs_bind runs_ext now_def)
    from "2.IH"(1) [OF True run] True ds show ?thesis
      by (auto split: if_splits)
  next
    case False
    with "2.prems" "2.IH"(2) [OF False, of w ds] show ?thesis by auto
  qed
qed (simp add: runs_return)

lemma scanPods_runs:
  assumes "runs (scanPods K ps m0) w m ds w'"
  shows "m = m0 \<or> (\<exists>p c t. p \<in> set ps \<and> c \<in> set (p_conditions p) \<and> unschedulable c \<and>
    m = pc_message c \<and> CNow t \<in> set ds \<and> t - pc_lastTransitionTime c \<ge> unschedulableGracePeriod)"
  using assms
proof (induction K ps m0 arbitrary: w ds rule: scanPods.induct)
  case (2 K p ps msg)
  then obtain m1 ds1 w1 ds2 where m1: "runs (scanConditions K (p_conditions p) msg) w m1 ds1 w1"
    and ds: "ds = ds1 @ ds2" and rest: "runs (scanPods K ps m1) w1 m ds2 w'"
    by (auto simp: runs_bind)
  from scanConditions_runs [OF m1] "2.IH" [OF rest] ds show ?case by auto
qed (simp add: runs_return)

text \<open>\<open>stuck ps msg ds\<close>: the message is that of an unschedulable pod condition past its grace period.\<close>

definition stuck :: "pod list \<Rightarrow> string \<Rightarrow> notify call list \<Rightarrow> bool" where
  "stuck ps msg ds \<longleftrightarrow> (\<exists>p c t. p \<in> set ps \<and> c \<in> set (p_conditions p) \<and> unschedulable c \<and>
     msg = pc_message c \<and> CNow t \<in> set ds \<and> t - pc_lastTransitionTime c \<ge> unschedulableGracePeriod)"

abbreviation released_call :: "workload \<Rightarrow> string \<Rightarrow> notify call" where
  "released_call w msg \<equiv> Other (NLifecycle (w_name w) (mget (w_labels w) WorkloadID)
     lifecyclePhaseFailed (''insufficient cluster capacity: '' @ msg) True None)"

lemma releaseClaim_deletes:
  assumes "runs (releaseClaim K N w msg) w0 b cs w1" and "c \<in> set cs" "deletes c"
  shows "\<exists>d. b = (case d of None \<Rightarrow> True | Some e \<Rightarrow> IsNotFound e) \<and>
    cs = (if N = None then [] else [released_call w msg]) @ [CDeleteWorkload (w_namespace w) (w_name w) d]"
proof -
  from assms(1) obtain e ds w2 es where e: "runs (notifyLifecycle N w lifecyclePhaseFailed
      (''insufficient cluster capacity: '' @ msg) True) w0 e ds w2" "cs = ds @ es"
    "runs (case e of Some _ \<Rightarrow> ret False
       | None \<Rightarrow> do { d \<leftarrow> deleteWorkload K (w_namespace w) (w_name w);
                     ret (case d of None \<Rightarrow> True | Some e \<Rightarrow> IsNotFound e) }) w2 b es w1"
    unfolding releaseClaim_def by (rule runs_bindE) simp_all
  have "\<not> deletes c" if "c \<in> set ds" for c
    using e(1) that by (auto simp: runs_notifyLifecycle deletes_def)
  with assms(2,3) e(2) have "c \<in> set es" by auto
  with e(3) obtain d where "e = None" "b = (case d of None \<Rightarrow> True | Some e \<Rightarrow> IsNotFound e)"
    "es = [CDeleteWorkload (w_namespace w) (w_name w) d]"
    by (cases e) (auto simp: runs_bind runs_ext runs_return deleteWorkload_def)
  with e(1,2) show ?thesis by (cases N) (auto simp: runs_notifyLifecycle)
qed

lemma checkUnschedulable_deletes:
  assumes "runs (checkUnschedulable K N w sel) w0 b cs w1" and "c \<in> set cs" "deletes c"
  obtains pods ms msg d where "\<not> suspended (spec w)" "phase (status w) \<noteq> PhaseRunning" "msg \<noteq> []"
    "cs = CListPods (w_namespace w) sel (Inr pods) # ms @ (if N = None then [] else [released_call w msg])
       @ [CDeleteWorkload (w_namespace w) (w_name w) d]"
    "stuck pods msg ms" "list_all is_now ms"
proof -
  from assms obtain r w2 ds where guards: "\<not> suspended (spec w)" "phase (status w) \<noteq> PhaseRunning"
    and cs: "cs = CListPods (w_namespace w) sel r # ds"
    and rest: "runs (case r of Inl e \<Rightarrow> ret False
        | Inr pods \<Rightarrow> do { m \<leftarrow> scanPods K pods []; if m = [] then ret False else releaseClaim K N w m })
        w2 b ds w1"
    unfolding checkUnschedulable_def listPods_def
    by (auto simp: runs_return split: if_splits elim!: runs_ext_bindE)
  from assms(2,3) cs have c: "c \<in> set ds" by (auto simp: deletes_def)
  with rest obtain pods where r: "r = Inr pods"
    by (cases r) (auto simp: runs_return)
  with rest obtain msg ms w3 es where msg: "runs (scanPods K pods []) w2 msg ms w3" "ds = ms @ es"
    and rest': "runs (if msg = [] then ret False else releaseClaim K N w msg) w3 b es w1"
    by (auto elim!: runs_bindE)
  have ms: "list_all is_now ms" using msg(1) by (rule emits_runs [OF emits_scanPods])
  then have "\<not> deletes c" if "c \<in> set ms" for c
    using that quiet_now by (auto simp: list_all_iff quiet_def)
  with c msg(2) assms(3) have c: "c \<in> set es" by auto
  with rest' have m: "msg \<noteq> []" by (auto simp: runs_return)
  with rest' have run: "runs (releaseClaim K N w msg) w3 b es w1" by simp
  obtain d where "b = (case d of None \<Rightarrow> True | Some e \<Rightarrow> IsNotFound e)"
    "es = (if N = None then [] else [released_call w msg]) @ [CDeleteWorkload (w_namespace w) (w_name w) d]"
    using releaseClaim_deletes [OF run c assms(3)] by (elim exE conjE) (rule that)
  moreover from scanPods_runs [OF msg(1)] m have "stuck pods msg ms" by (auto simp: stuck_def)
  ultimately show ?thesis
    using guards m msg(2) cs r ms by (intro that [of msg pods ms d]) simp_all
qed

text \<open>In a live reconciliation only the check for unschedulable pods deletes.\<close>

lemma reconcileLive_deletes:
  assumes "runs (reconcileLive L K N ns n y) w0 (q, err) ds w1" and "c \<in> set ds" "deletes c"
  obtains pre hs es w2 w3 b where "ds = pre @ hs @ es" "c \<in> set hs"
    "runs (checkUnschedulable K N y (selectorLabels y)) w2 b hs w3"
proof -
  from assms(1) obtain as gs w4 where ds: "ds = as @ gs" and gs: "c \<in> set gs"
    and run: "runs (settle L K N ns n y) w4 (q, err) gs w1"
  proof (cases rule: reconcileLive_runs)
    case (render e)
    with assms(2,3) emits_runs [OF emits_setFailed render(2)] show ?thesis
      by (auto simp: list_all_iff quiet_def)
  next
    case (deployment r e gs w2)
    with assms(2,3) runs_applyFailed [OF deployment(3)] show ?thesis
      by (auto simp: list_all_iff quiet_def deletes_def split: if_splits)
  next
    case (service r e gs w2)
    with assms(2,3) runs_applyFailed [OF service(3)] show ?thesis
      by (auto simp: list_all_iff quiet_def deletes_def split: if_splits)
  next
    case (applied r gs w2)
    with assms(2,3) show ?thesis
      by (intro that [of "[deployment_call L y r None, service_call L y r None]" gs w2])
         (auto simp: deletes_def)
  qed
  from run obtain rel hs w5 ks where chk: "runs (checkUnschedulable K N y (selectorLabels y)) w4 rel hs w5"
    and split: "gs = hs @ ks" and obs: "runs (if rel then ret (0, None) else observe L K N ns n y) w5 (q, err) ks w1"
    unfolding settle_def by (rule runs_bindE) simp_all
  have "c \<notin> set ks"
    using obs emits_runs [OF emits_observe] assms(3)
    by (fastforce simp: list_all_iff quiet_def runs_return split: if_splits)
  with gs split ds chk show ?thesis by (intro that [of as hs ks w4 rel w5]) auto
qed

section \<open>Properties\<close>

text \<open>C1: A write conflict while applying the Deployment or the Service is routine: the
  reconciliation returns that very error for a retry with backoff and, in the whole pass, neither
  updates the Workload's status nor reports a lifecycle phase to Convex.\<close>

theorem conflict_never_reported:
  assumes "runs (Reconcile L K N ns n) w (q, err) cs w'"
    and "c \<in> set cs" "apply_error c = Some e" "IsConflict e"
  shows "q = 0 \<and> err = Some e \<and> list_all (\<lambda>c. \<not> reports c) cs"
proof -
  have "applies c" using assms(3) apply_error_None by fastforce
  with assms(1,2) obtain x fs w2 y w3 ds where live: "cs = CGetWorkload ns n (Inr x) # fs @ ds"
    "c \<in> set ds" "list_all (\<lambda>c. \<not> applies c \<and> \<not> reports c \<and> \<not> deletes c) fs"
    "runs (reconcileLive L K N ns n y) w3 (q, err) ds w'"
    by (elim Reconcile_live_call) blast+
  from live(4) show ?thesis
  proof (cases rule: reconcileLive_calls)
    case (1 as es r)
    with live(2) \<open>applies c\<close> have "c \<in> set as" by (auto simp: list_all_iff)
    with 1 assms(3,4) have res: "(q, err) = (0, Some e)" "es = []" by blast+
    have "list_all (\<lambda>c. \<not> reports c) as"
      using 1(4) by (auto simp: reports_def)
    with res 1(1) live(1,3) show ?thesis by (auto simp: list_all_iff reports_def)
  qed
qed

definition demo_workload :: workload where
  "demo_workload = empty_workload\<lparr>w_name := ''web'', w_namespace := ''ns'', w_uid := ''u1'',
     w_finalizers := [workloadFinalizer], spec := empty_spec\<lparr>image := ''nginx''\<rparr>\<rparr>"

definition demo_cluster :: "workload \<Rightarrow> nat kube" where
  "demo_cluster w = demo_kube\<lparr>k_getWorkload := (\<lambda>ns n. answer (Inr w))\<rparr>"

text \<open>A notifier every call of which ends with the given outcome.\<close>

definition demo_notifier :: "go_error option \<Rightarrow> nat workloadNotifier" where
  "demo_notifier e = \<lparr>UpsertWorkload = (\<lambda>i. answer e), RemoveWorkload = (\<lambda>n ns. answer e),
     ReportLifecycle = (\<lambda>n wid p r b. answer e)\<rparr>"

lemma demo_workload_simps [simp]:
  "w_name demo_workload = ''web''" "w_namespace demo_workload = ''ns''"
  "w_finalizers demo_workload = [workloadFinalizer]" "w_deletionTimestamp demo_workload = None"
  "spec demo_workload = empty_spec\<lparr>image := ''nginx''\<rparr>" "status demo_workload = empty_status"
  "w_labels demo_workload = Map.empty" "w_generation demo_workload = 0"
  by (simp_all add: demo_workload_def empty_workload_def)

lemma demo_render: "render demo_lib demo_workload = Inr (legacyRendered demo_workload)"
  by (simp add: render_def empty_spec_def)

lemmas demo_defs = demo_cluster_def demo_notifier_def demo_kube_simps demo_render

theorem conflict_never_reported_witness:
  "\<exists>cs w'. runs (Reconcile demo_lib ((demo_cluster demo_workload)
       \<lparr>k_createOrUpdateDeployment := (\<lambda>a b f. answer (Some (ApiErr Conflict ''modified'')))\<rparr>)
       (Some (demo_notifier None)) ''ns'' ''web'') 0 (0, Some (ApiErr Conflict ''modified'')) cs w' \<and>
     list_all (\<lambda>c. \<not> reports c) cs \<and> cs \<noteq> []"
proof -
  let ?cs = "[CGetWorkload ''ns'' ''web'' (Inr demo_workload), deployment_call demo_lib demo_workload
    (legacyRendered demo_workload) (Some (ApiErr Conflict ''modified''))]"
  have run: "runs (Reconcile demo_lib ((demo_cluster demo_workload)
       \<lparr>k_createOrUpdateDeployment := (\<lambda>a b f. answer (Some (ApiErr Conflict ''modified'')))\<rparr>)
       (Some (demo_notifier None)) ''ns'' ''web'') 0 (0, Some (ApiErr Conflict ''modified'')) ?cs 0"
    by (simp add: Reconcile_def reconcileLive_def reconcileDeployment_def runs_ensureFinalizer
      applyFailed_def runs_rules demo_defs)
  from conflict_never_reported [OF this, of "?cs ! 1"] run show ?thesis
    by (auto simp: apply_error_def)
qed

text \<open>C2: The finalizer guards the removal notice: whenever a reconciliation writes the Workload
  without the finalizer, the object was read with a deletion time stamp, and the write directly
  follows a removal notice for it that Convex confirmed (or no Convex is attached).\<close>

theorem finalizer_released_after_removal:
  assumes "finalizer_laws L" "runs (Reconcile L K N ns n) w (q, err) cs w'"
    and "CUpdateWorkload x u \<in> set cs" "workloadFinalizer \<notin> set (w_finalizers x)"
  shows "\<exists>y. w_deletionTimestamp y \<noteq> None \<and> x = y\<lparr>w_finalizers := w_finalizers x\<rparr> \<and>
    cs = CGetWorkload ns n (Inr y) #
      (if N = None then [] else [Other (NRemove (w_name y) (w_namespace y) None)]) @ [CUpdateWorkload x u]"
  using assms(2)
proof (cases rule: Reconcile_runs)
  case (deleting y ds w2)
  from deleting(3) show ?thesis
    by (cases rule: reconcileDelete_runs)
       (use assms(3) deleting in \<open>auto simp: runs_notifyRemoved\<close>)
next
  case (unfinalized y fs w2 e)
  with assms show ?thesis
    by (auto simp: runs_ensureFinalizer Let_def finalizer_lawsD split: if_splits)
next
  case (live y fs w2 y' w3 ds)
  have "CUpdateWorkload x u \<notin> set fs"
    using live(3) assms(1,4) by (auto simp: runs_ensureFinalizer Let_def finalizer_lawsD split: if_splits)
  moreover from live(4) have "CUpdateWorkload x u \<notin> set ds"
    by (cases rule: reconcileLive_calls) (auto simp: list_all_iff updates_def)
  ultimately show ?thesis using assms(3) live(2) by auto
qed (use assms(3) in \<open>auto simp: runs_notifyRemoved\<close>)

theorem finalizer_released_after_removal_witness:
  "\<exists>cs w'. runs (Reconcile demo_lib (demo_cluster (demo_workload\<lparr>w_deletionTimestamp := Some 1\<rparr>))
       (Some (demo_notifier None)) ''ns'' ''web'') 0 (0, None) cs w' \<and>
     (\<exists>y x u. cs = CGetWorkload ''ns'' ''web'' (Inr y) #
        [Other (NRemove (w_name y) (w_namespace y) None)] @ [CUpdateWorkload x u])"
proof -
  let ?y = "demo_workload\<lparr>w_deletionTimestamp := Some 1\<rparr>"
  let ?x = "?y\<lparr>w_finalizers := []\<rparr>"
  let ?cs = "[CGetWorkload ''ns'' ''web'' (Inr ?y), Other (NRemove ''web'' ''ns'' None), CUpdateWorkload ?x (Inr ?x)]"
  have "runs (Reconcile demo_lib (demo_cluster ?y) (Some (demo_notifier None)) ''ns'' ''web'') 0 (0, None) ?cs 0"
    by (simp add: Reconcile_def reconcileDelete_def notifyRemoved_def runs_rules demo_defs)
  then have run: "runs (Reconcile demo_lib (demo_cluster ?y) (Some (demo_notifier None)) ''ns'' ''web'') 0 (0, None) ?cs 0" .
  obtain y where "?cs = CGetWorkload ''ns'' ''web'' (Inr y) #
      [Other (NRemove (w_name y) (w_namespace y) None)] @ [CUpdateWorkload ?x (Inr ?x)]"
    using finalizer_released_after_removal [OF demo_finalizer_laws run, of ?x "Inr ?x"] by auto
  with run show ?thesis by metis
qed

text \<open>A Workload being deleted whose removal notice fails keeps its finalizer and is retried:
  the pass ends with a requeue after ten seconds, without error and without any write.\<close>

lemma failed_removal_is_retried:
  assumes "runs (Reconcile L K N ns n) w (q, err) cs w'"
    and "cs ! 0 = CGetWorkload ns n (Inr y)" "Other (NRemove a b (Some e)) \<in> set cs"
  shows "q = statusRequeueInterval \<and> err = None \<and> w_deletionTimestamp y \<noteq> None \<and>
    cs = [CGetWorkload ns n (Inr y), Other (NRemove (w_name y) (w_namespace y) (Some e))]"
  using assms(1)
proof (cases rule: Reconcile_runs)
  case (deleting z ds w2)
  from deleting(3) show ?thesis
    by (cases rule: reconcileDelete_runs)
       (use assms(2,3) deleting in \<open>auto simp: runs_notifyRemoved\<close>)
next
  case (live z fs w2 z' w3 ds)
  from live(4) have "Other (NRemove a b (Some e)) \<notin> set ds"
    by (cases rule: reconcileLive_calls) (auto simp: list_all_iff removes_def)
  with live(2,3) assms(3) show ?thesis
    by (auto simp: runs_ensureFinalizer Let_def split: if_splits)
qed (use assms(2,3) in \<open>auto simp: runs_ensureFinalizer Let_def split: if_splits\<close>)

text \<open>No Deployment or Service is applied for an object that could vanish unnoticed: before the
  first apply, the pass has read the Workload alive, and either saw the finalizer on it or wrote
  it there successfully.\<close>

lemma finalizer_before_children:
  assumes "finalizer_laws L" "runs (Reconcile L K N ns n) w (q, err) cs w'"
    and "cs = pre @ c # post" "applies c"
  shows "\<exists>y fs ds. pre = CGetWorkload ns n (Inr y) # fs @ ds \<and> w_deletionTimestamp y = None \<and>
    (fs = [] \<and> workloadFinalizer \<in> set (w_finalizers y) \<or>
     (\<exists>x u. fs = [CUpdateWorkload x (Inr u)] \<and> workloadFinalizer \<in> set (w_finalizers x)))"
proof -
  from assms(3) have "c \<in> set cs" by simp
  with assms(2,4) obtain y fs w2 y' w3 ds where live: "w_deletionTimestamp y = None"
    "cs = CGetWorkload ns n (Inr y) # fs @ ds" "runs (ensureFinalizer L K y) w2 (Inr y') fs w3"
    "list_all (\<lambda>c. \<not> applies c \<and> \<not> reports c \<and> \<not> deletes c) fs"
    by (elim Reconcile_live_call) blast+
  have fs: "fs = [] \<and> workloadFinalizer \<in> set (w_finalizers y) \<or>
     (\<exists>x u. fs = [CUpdateWorkload x (Inr u)] \<and> workloadFinalizer \<in> set (w_finalizers x))"
    using live(3) assms(1)
    by (auto simp: runs_ensureFinalizer Let_def finalizer_lawsD split: if_splits)
  have "\<exists>es. pre = (CGetWorkload ns n (Inr y) # fs) @ es \<and> ds = es @ c # post"
    by (rule split_behind [where P = applies])
       (use assms(3,4) live(2,4) in \<open>auto simp: list_all_iff applies_def [of "CGetWorkload ns n (Inr y)"]\<close>)
  then obtain es where "pre = CGetWorkload ns n (Inr y) # fs @ es" by auto
  with fs live(1) show ?thesis by blast
qed

text \<open>C3: A reconciliation deletes a Workload only to release a claim that can never be scheduled:
  the Workload, as it was read or as writing its finalizer returned it, is not suspended and not
  running, its pods were listed, one of them showed an
  unschedulable condition older than the grace period, and immediately before the delete Convex
  confirmed a retryable failure report carrying that condition's message (or no Convex is
  attached).\<close>

theorem released_before_deleted:
  assumes "runs (Reconcile L K N ns n) w (q, err) cs w'" and "CDeleteWorkload a b d \<in> set cs"
  shows "\<exists>y pods msg pre ms es. a = w_namespace y \<and> b = w_name y \<and>
    (CGetWorkload ns n (Inr y) \<in> set pre \<or> (\<exists>x. CUpdateWorkload x (Inr y) \<in> set pre)) \<and>
    \<not> suspended (spec y) \<and> phase (status y) \<noteq> PhaseRunning \<and> stuck pods msg ms \<and> msg \<noteq> [] \<and>
    cs = pre @ CListPods (w_namespace y) (selectorLabels y) (Inr pods) # ms @
      (if N = None then [] else [released_call y msg]) @ CDeleteWorkload a b d # es"
proof -
  have del: "deletes (CDeleteWorkload a b d)" by (simp add: deletes_def)
  with assms obtain x fs w2 y w3 ds where live: "cs = CGetWorkload ns n (Inr x) # fs @ ds"
    "CDeleteWorkload a b d \<in> set ds" "runs (reconcileLive L K N ns n y) w3 (q, err) ds w'"
    "runs (ensureFinalizer L K x) w2 (Inr y) fs w3"
    by (elim Reconcile_live_call) blast+
  from live(4) have y: "y = x \<or> (\<exists>z. CUpdateWorkload z (Inr y) \<in> set fs)"
    by (auto simp: runs_ensureFinalizer Let_def split: if_splits)
  from live(3,2) del obtain pre hs es w4 w5 rel where ds: "ds = pre @ hs @ es"
    and c: "CDeleteWorkload a b d \<in> set hs"
    and chk: "runs (checkUnschedulable K N y (selectorLabels y)) w4 rel hs w5"
    by (rule reconcileLive_deletes)
  from chk c del show ?thesis
  proof (cases rule: checkUnschedulable_deletes)
    case (1 pods ms msg d')
    from 1(6) have "CDeleteWorkload a b d \<notin> set ms" by (auto simp: list_all_iff is_now_def)
    with c 1(4) have "a = w_namespace y \<and> b = w_name y \<and> d = d'" by (auto split: if_splits)
    moreover from this 1(4) live(1) ds have
      "cs = (CGetWorkload ns n (Inr x) # fs @ pre) @ CListPods (w_namespace y) (selectorLabels y) (Inr pods) # ms @
        (if N = None then [] else [released_call y msg]) @ CDeleteWorkload a b d # es" by simp
    moreover have "CGetWorkload ns n (Inr y) \<in> set (CGetWorkload ns n (Inr x) # fs @ pre) \<or>
        (\<exists>x'. CUpdateWorkload x' (Inr y) \<in> set (CGetWorkload ns n (Inr x) # fs @ pre))" using y by auto
    ultimately show ?thesis using 1(1-3,5) by blast
  qed
qed

definition demo_pod :: pod where
  "demo_pod = \<lparr>p_name = ''web-1'', p_namespace = ''ns'', p_labels = Map.empty, p_nodeName = [], p_phase = ''Pending'',
     p_conditions = [\<lparr>pc_type = ''PodScheduled'', pc_status = ConditionFalse, pc_reason = ''Unschedulable'',
       pc_message = ''no cpu'', pc_lastTransitionTime = 0\<rparr>]\<rparr>"

theorem released_before_deleted_witness:
  "\<exists>cs q err w' y msg pre post. runs (Reconcile demo_lib ((demo_cluster demo_workload)
       \<lparr>k_listPods := (\<lambda>ns ls. answer (Inr [demo_pod]))\<rparr>)
       (Some (demo_notifier None)) ''ns'' ''web'') 200000000000 (q, err) cs w' \<and>
     cs = pre @ released_call y msg # CDeleteWorkload ''ns'' ''web'' None # post"
proof -
  let ?K = "(demo_cluster demo_workload)\<lparr>k_listPods := (\<lambda>ns ls. answer (Inr [demo_pod]))\<rparr>"
  let ?N = "Some (demo_notifier None)"
  obtain q err cs w' where run: "runs (Reconcile demo_lib ?K ?N ''ns'' ''web'') 200000000000 (q, err) cs w'"
    using runs_total [of "Reconcile demo_lib ?K ?N ''ns'' ''web''" 200000000000] by (metis surj_pair)
  then have "CDeleteWorkload ''ns'' ''web'' None \<in> set cs"
    by (clarsimp simp: Reconcile_def reconcileLive_def reconcileDeployment_def reconcileService_def
      runs_ensureFinalizer settle_def checkUnschedulable_def releaseClaim_def runs_notifyLifecycle
      desiredReplicaCount_def DefaultReplicas_def demo_pod_def unschedulable_def
      unschedulableGracePeriod_def empty_spec_def empty_status_def phase_defs runs_rules demo_defs)
  from released_before_deleted [OF run this] obtain y msg pre ms pods es where
    "cs = pre @ CListPods (w_namespace y) (selectorLabels y) (Inr pods) # ms @
      [released_call y msg] @ CDeleteWorkload ''ns'' ''web'' None # es" by auto
  then have "cs = (pre @ CListPods (w_namespace y) (selectorLabels y) (Inr pods) # ms) @
      released_call y msg # CDeleteWorkload ''ns'' ''web'' None # es" by simp
  with run show ?thesis by blast
qed

text \<open>C31: What a reconciliation applies is what the Workload read in this pass asks for: the
  Deployment runs the rendered containers at the desired replica count (0 when suspended), its
  selector depends on the name and UID only and selects its own pods, and the Service selects the
  same pods and exposes the rendered ports.\<close>

theorem applied_children:
  assumes "runs (Reconcile L K N ns n) w (q, err) cs w'" and "c \<in> set cs" "applies c"
  shows "\<exists>y r. (CGetWorkload ns n (Inr y) \<in> set cs \<or> (\<exists>x. CUpdateWorkload x (Inr y) \<in> set cs)) \<and>
    render L y = Inr r \<and>
    (case c of
       CApplyDeployment a b f e \<Rightarrow> a = w_namespace y \<and> b = w_name y \<and>
         (\<forall>d d'. f d = Inr d' \<longrightarrow> d_replicas d' = Some (desiredReplicaCount y) \<and>
            d_selector d' = [labelName \<mapsto> w_name y, ManagedBy \<mapsto> ManagedByValue, labelInstance \<mapsto> w_uid y] \<and>
            d_selector d' \<subseteq>\<^sub>m d_podLabels d' \<and> d_containers d' = r_containers r \<and>
            d_initContainers d' = r_initContainers r \<and> d_volumes d' = r_volumes r)
     | CApplyService a b g e \<Rightarrow> a = w_namespace y \<and> b = w_name y \<and>
         (\<forall>x x'. g x = Inr x' \<longrightarrow> s_selector x' = selectorLabels y \<and> s_ports x' = r_servicePorts r)
     | _ \<Rightarrow> False)"
proof -
  from assms obtain x fs w2 y w3 ds where live: "cs = CGetWorkload ns n (Inr x) # fs @ ds" "c \<in> set ds"
    "runs (ensureFinalizer L K x) w2 (Inr y) fs w3" "runs (reconcileLive L K N ns n y) w3 (q, err) ds w'"
    by (elim Reconcile_live_call) blast+
  have read: "CGetWorkload ns n (Inr y) \<in> set cs \<or> (\<exists>x. CUpdateWorkload x (Inr y) \<in> set cs)"
    using live(1,3) by (auto simp: runs_ensureFinalizer Let_def split: if_splits)
  have sub: "selectorLabels y \<subseteq>\<^sub>m objectLabels y"
    by (auto simp: selectorLabels_def objectLabels_def map_le_def labelName_def labelInstance_def
      labelUserID_def ManagedBy_def split: option.splits if_splits)
  from live(4) show ?thesis
  proof (cases rule: reconcileLive_calls)
    case (1 as es r)
    with live(2) assms(3) have c: "c \<in> set as" by (auto simp: list_all_iff)
    then have "as \<noteq> []" by auto
    from 1(3) [OF this] c 1(4) sub read show ?thesis
      by (intro exI [of _ y] exI [of _ r])
         (auto simp: mutateDeployment_def mutateService_def selectorLabels_def Let_def split: sum.splits)
  qed
qed

theorem applied_children_witness:
  "\<exists>cs q err w' f y. runs (Reconcile demo_lib (demo_cluster demo_workload) None ''ns'' ''web'') 0 (q, err) cs w' \<and>
     CApplyDeployment ''ns'' ''web'' f None \<in> set cs \<and>
     (\<exists>d d'. f d = Inr d' \<and> d_replicas d' = Some (desiredReplicaCount y) \<and> d_selector d' \<subseteq>\<^sub>m d_podLabels d')"
proof -
  let ?R = "Reconcile demo_lib (demo_cluster demo_workload) None ''ns'' ''web''"
  let ?c = "deployment_call demo_lib demo_workload (legacyRendered demo_workload) None"
  let ?f = "mutateDeployment demo_lib demo_workload (selectorLabels demo_workload)
    (objectLabels demo_workload) (legacyRendered demo_workload)"
  obtain q err cs w' where run: "runs ?R 0 (q, err) cs w'"
    using runs_total [of ?R 0] by (metis surj_pair)
  then have c: "?c \<in> set cs"
    by (clarsimp simp: Reconcile_def reconcileLive_def reconcileDeployment_def
      runs_ensureFinalizer runs_rules demo_defs)
  obtain d' where d': "?f (demo_deployment None) = Inr d'"
    by (simp add: mutateDeployment_def Let_def)
  obtain y where "d_replicas d' = Some (desiredReplicaCount y) \<and> d_selector d' \<subseteq>\<^sub>m d_podLabels d'"
    using applied_children [OF run c] d' by (auto simp: applies_def)
  moreover from c have "CApplyDeployment ''ns'' ''web'' ?f None \<in> set cs" by simp
  ultimately show ?thesis using run d' by blast
qed

end
