(* ===== verification/Controller_Status.thy ===== *)
theory Controller_Status
  imports Controller_Correct
begin

text \<open>
  Status, Convex synchronisation and termination of the requeue cycle of the reconciler: what
  \<open>updateStatus\<close> writes, that a successful notification is made once per generation, when a pass
  is the last one, and how failures are recorded.
\<close>

section \<open>Conditions\<close>

lemma setCondition_simps [simp]:
  "spec (setCondition L w c) = spec w" "w_generation (setCondition L w c) = w_generation w"
  "phase (status (setCondition L w c)) = phase (status w)"
  "readyReplicas (status (setCondition L w c)) = readyReplicas (status w)"
  "observedGeneration (status (setCondition L w c)) = observedGeneration (status w)"
  "w_labels (setCondition L w c) = w_labels w" "w_name (setCondition L w c) = w_name w"
  "w_namespace (setCondition L w c) = w_namespace w" "w_uid (setCondition L w c) = w_uid w"
  "w_finalizers (setCondition L w c) = w_finalizers w"
  by (simp_all add: setCondition_def)

lemma with_phase_simps [simp]:
  "spec (with_phase w p) = spec w" "w_generation (with_phase w p) = w_generation w"
  "phase (status (with_phase w p)) = p" "conditions (status (with_phase w p)) = conditions (status w)"
  "w_labels (with_phase w p) = w_labels w" "w_name (with_phase w p) = w_name w"
  "readyReplicas (status (with_phase w p)) = readyReplicas (status w)"
  "observedGeneration (status (with_phase w p)) = observedGeneration (status w)"
  by (simp_all add: with_phase_def)

lemma find_setCondition:
  "condition_laws L \<Longrightarrow> findStatusCondition L (conditions (status (setCondition L w c))) t =
     (if t = cond_type c then Some c else findStatusCondition L (conditions (status w)) t)"
  by (simp add: setCondition_def condition_lawsD)

lemma synced_setCondition:
  "condition_laws L \<Longrightarrow> synced_for L t (setCondition L w c) =
     (if t = cond_type c then cond_status c = ConditionTrue \<and> cond_observedGeneration c = w_generation w
      else synced_for L t w)"
  by (simp add: synced_for_def find_setCondition split: option.split)

lemma synced_with_phase [simp]: "synced_for L t (with_phase w p) = synced_for L t w"
  by (simp add: synced_for_def split: option.split)

lemma condition_types_distinct [simp]:
  "ConditionTypeReady \<noteq> conditionTypeConvexSynced" "conditionTypeConvexSynced \<noteq> ConditionTypeReady"
  "ConditionTypeReady \<noteq> conditionTypeConvexLifecycleSynced"
  "conditionTypeConvexLifecycleSynced \<noteq> ConditionTypeReady"
  "conditionTypeConvexSynced \<noteq> conditionTypeConvexLifecycleSynced"
  "conditionTypeConvexLifecycleSynced \<noteq> conditionTypeConvexSynced"
  by (simp_all add: condition_type_defs)

section \<open>Synchronisation\<close>

lemma syncedCondition_simps [simp]:
  "cond_type (syncedCondition w e) = conditionTypeConvexSynced"
  "cond_observedGeneration (syncedCondition w e) = w_generation w"
  "cond_status (syncedCondition w e) = ConditionTrue \<longleftrightarrow> e = None"
  by (simp_all add: syncedCondition_def split: option.split)

text \<open>A lifecycle report counts as delivered when it was accepted or the row is already resolved.\<close>

definition delivered :: "go_error option \<Rightarrow> bool" where
  "delivered r = (case r of None \<Rightarrow> True | Some e \<Rightarrow> errors_is e ErrLifecycleStale)"

lemma lifecycleCondition_simps [simp]:
  "cond_type (lifecycleCondition w ph e) = conditionTypeConvexLifecycleSynced"
  "cond_observedGeneration (lifecycleCondition w ph e) = w_generation w"
  "cond_status (lifecycleCondition w ph e) = ConditionTrue \<longleftrightarrow> delivered e"
  by (simp_all add: lifecycleCondition_def delivered_def split: option.split)

lemma runs_syncConvex:
  "runs (syncConvex L N w) w0 (b, w') cs w1 \<longleftrightarrow>
     (if synced_for L conditionTypeConvexSynced w then b \<and> w' = w \<and> cs = [] \<and> w1 = w0
      else \<exists>e. runs (notifyUpserted N w) w0 e cs w1 \<and> b = (e = None) \<and>
        w' = setCondition L w (syncedCondition w e))"
  by (auto simp: syncConvex_def runs_bind runs_return Let_def)

lemma runs_syncLifecycle:
  "runs (syncConvexLifecyclePhase L N w ph) w0 (b, w') cs w1 \<longleftrightarrow>
     (if synced_for L conditionTypeConvexLifecycleSynced w then b \<and> w' = w \<and> cs = [] \<and> w1 = w0
      else \<exists>e. runs (notifyLifecycle N w ph [] False) w0 e cs w1 \<and> b = delivered e \<and>
        w' = setCondition L w (lifecycleCondition w ph e))"
  by (auto simp: syncConvexLifecyclePhase_def runs_bind runs_return Let_def)

lemma observed_simps [simp]:
  "spec (observed w d) = spec w" "w_generation (observed w d) = w_generation w"
  "conditions (status (observed w d)) = conditions (status w)"
  "readyReplicas (status (observed w d)) = d_readyReplicas d"
  "observedGeneration (status (observed w d)) = w_generation w"
  "w_name (observed w d) = w_name w" "w_labels (observed w d) = w_labels w"
  "readyCondition (observed w d) st rs m = readyCondition w st rs m"
  by (simp_all add: observed_def readyCondition_def)

lemma readyCondition_simps [simp]:
  "cond_type (readyCondition w st rs m) = ConditionTypeReady"
  "cond_status (readyCondition w st rs m) = st" "cond_reason (readyCondition w st rs m) = rs"
  "cond_observedGeneration (readyCondition w st rs m) = w_generation w"
  by (simp_all add: readyCondition_def)

text \<open>The three phases \<open>updateStatus\<close> tells apart.\<close>

definition is_stopped :: "workload \<Rightarrow> deployment \<Rightarrow> bool" where
  "is_stopped w d \<longleftrightarrow> suspended (spec w) \<and> d_readyReplicas d = 0"

definition is_running :: "workload \<Rightarrow> deployment \<Rightarrow> bool" where
  "is_running w d \<longleftrightarrow> \<not> is_stopped w d \<and> 0 < sint (desiredReplicaCount w) \<and>
     sint (desiredReplicaCount w) \<le> sint (d_readyReplicas d)"

lemma updateStatus_runs:
  assumes run: "runs (updateStatus L N w d) w0 (b, w') cs w1"
  obtains (stopped) x m where "is_stopped w d"
      "runs (syncConvexLifecyclePhase L N (with_phase (observed w d) PhaseStopped) lifecyclePhaseStopped)
         w0 (b, x) cs w1"
      "w' = setCondition L x (readyCondition w ConditionFalse reasonWorkloadSuspended m)"
  | (running) x m where "is_running w d"
      "runs (syncConvexLifecyclePhase L N (with_phase (observed w d) PhaseRunning) lifecyclePhaseActive)
         w0 (b, x) cs w1"
      "w' = setCondition L x (readyCondition w ConditionTrue reasonDeploymentReady m)"
  | (deploying) m where "\<not> is_stopped w d" "\<not> is_running w d" "b" "cs = []"
      "w' = setCondition L (with_phase (observed w d) PhaseDeploying)
         (readyCondition w ConditionFalse reasonDeploymentProgressing m)"
proof -
  consider "is_stopped w d" | "is_running w d" | "\<not> is_stopped w d" "\<not> is_running w d" by blast
  then show ?thesis
  proof cases
    case 1
    with run show ?thesis
      by (auto simp: is_stopped_def updateStatus_def Let_def runs_bind runs_return intro: stopped [OF 1])
  next
    case 2
    with run show ?thesis
      by (auto simp: is_running_def is_stopped_def updateStatus_def Let_def runs_bind runs_return
        intro: running [OF 2])
  next
    case 3
    then have "updateStatus L N w d = ret (True, setCondition L (with_phase (observed w d) PhaseDeploying)
        (readyCondition w ConditionFalse reasonDeploymentProgressing
          (show_int (sint (d_readyReplicas d)) @ ''/'' @ show_int (sint (desiredReplicaCount w)) @
           '' replicas ready'')))"
      by (auto simp: updateStatus_def is_running_def is_stopped_def Let_def)
    with run 3 show ?thesis by (intro deploying) (simp_all add: runs_return)
  qed
qed

section \<open>Properties\<close>

text \<open>\<open>updateStatus\<close> classifies a Workload completely: Stopped exactly when it is suspended and
  no replica is ready, otherwise Running exactly when at least the desired, positive number of
  replicas is ready, otherwise Deploying. The Ready condition is true exactly in phase Running,
  carries the matching reason and the current generation, and the counters mirror the
  Deployment.\<close>

lemma updateStatus_classifies:
  assumes "condition_laws L" "runs (updateStatus L N w d) w0 (b, w') cs w1"
  shows "\<exists>c. findStatusCondition L (conditions (status w')) ConditionTypeReady = Some c \<and>
    cond_observedGeneration c = w_generation w \<and>
    (if suspended (spec w) \<and> d_readyReplicas d = 0
     then phase (status w') = PhaseStopped \<and> cond_status c = ConditionFalse \<and> cond_reason c = reasonWorkloadSuspended
     else if 0 < sint (desiredReplicaCount w) \<and> sint (desiredReplicaCount w) \<le> sint (d_readyReplicas d)
     then phase (status w') = PhaseRunning \<and> cond_status c = ConditionTrue \<and> cond_reason c = reasonDeploymentReady
     else phase (status w') = PhaseDeploying \<and> cond_status c = ConditionFalse \<and> cond_reason c = reasonDeploymentProgressing) \<and>
    readyReplicas (status w') = d_readyReplicas d \<and> observedGeneration (status w') = w_generation w \<and>
    spec w' = spec w"
  using assms(2)
proof (cases rule: updateStatus_runs)
  case (stopped x m)
  then have "phase (status x) = PhaseStopped" "readyReplicas (status x) = d_readyReplicas d"
    "observedGeneration (status x) = w_generation w" "spec x = spec w"
    by (auto simp: runs_syncLifecycle split: if_splits)
  with stopped assms(1) show ?thesis by (auto simp: find_setCondition is_stopped_def)
next
  case (running x m)
  then have "phase (status x) = PhaseRunning" "readyReplicas (status x) = d_readyReplicas d"
    "observedGeneration (status x) = w_generation w" "spec x = spec w"
    by (auto simp: runs_syncLifecycle split: if_splits)
  with running assms(1) show ?thesis by (auto simp: find_setCondition is_running_def is_stopped_def)
next
  case (deploying m)
  with assms(1) show ?thesis by (auto simp: find_setCondition is_running_def is_stopped_def)
qed

text \<open>The two notifications are made once per generation: after one that Convex accepted (for a
  lifecycle report also one it rejected as stale) the condition records it, a further call makes
  no external call and returns the same object; after a failed one the condition is false, so
  the next pass tries again.\<close>

lemma sync_once_per_generation:
  assumes "condition_laws L"
  shows "(runs (syncConvex L N w) w0 (b, w') cs w1 \<longrightarrow>
            synced_for L conditionTypeConvexSynced w' = b \<and> (b \<longrightarrow> syncConvex L N w' = ret (True, w'))) \<and>
         (runs (syncConvexLifecyclePhase L N w ph) w0 (b, w') cs w1 \<longrightarrow>
            synced_for L conditionTypeConvexLifecycleSynced w' = b \<and>
            (b \<longrightarrow> syncConvexLifecyclePhase L N w' ph = ret (True, w')))"
proof (intro conjI impI)
  assume "runs (syncConvex L N w) w0 (b, w') cs w1"
  with assms show s: "synced_for L conditionTypeConvexSynced w' = b"
    by (auto simp: runs_syncConvex synced_setCondition split: if_splits)
  show "b \<Longrightarrow> syncConvex L N w' = ret (True, w')"
    using s by (simp add: syncConvex_def)
next
  assume "runs (syncConvexLifecyclePhase L N w ph) w0 (b, w') cs w1"
  with assms show s: "synced_for L conditionTypeConvexLifecycleSynced w' = b"
    by (auto simp: runs_syncLifecycle synced_setCondition split: if_splits)
  show "b \<Longrightarrow> syncConvexLifecyclePhase L N w' ph = ret (True, w')"
    using s by (simp add: syncConvexLifecyclePhase_def)
qed

section \<open>The end of the requeue cycle\<close>

text \<open>The API server returns the status it stored.\<close>

definition status_echo :: "'w kube \<Rightarrow> bool" where
  "status_echo K \<longleftrightarrow> (\<forall>x w u w'. k_statusUpdateWorkload K x w = (Inr u, w') \<longrightarrow> status u = status x)"

lemma demo_status_echo: "status_echo (demo_cluster w)"
  by (simp add: status_echo_def demo_defs)

lemma updateStatus_synced:
  assumes "condition_laws L" "runs (updateStatus L N w d) w0 (b, w') cs w1"
  shows "synced_for L conditionTypeConvexSynced w' = synced_for L conditionTypeConvexSynced w"
    and "b \<Longrightarrow> phase (status w') \<noteq> PhaseDeploying \<Longrightarrow> synced_for L conditionTypeConvexLifecycleSynced w'"
proof -
  have obs: "synced_for L t (observed w d) = synced_for L t w" for t
    by (simp add: synced_for_def split: option.split)
  from assms(2) show "synced_for L conditionTypeConvexSynced w' = synced_for L conditionTypeConvexSynced w"
    by (cases rule: updateStatus_runs)
       (use assms(1) in \<open>auto simp: runs_syncLifecycle synced_setCondition obs split: if_splits\<close>)
  from assms(2) show "b \<Longrightarrow> phase (status w') \<noteq> PhaseDeploying \<Longrightarrow>
      synced_for L conditionTypeConvexLifecycleSynced w'"
    by (cases rule: updateStatus_runs)
       (use assms(1) in \<open>auto simp: runs_syncLifecycle synced_setCondition obs split: if_splits\<close>)
qed

text \<open>The claim was released: Convex, when there is one, confirmed a retryable failure of the Workload \<open>n\<close>,
  and the last call removed it, or found it removed.\<close>

definition released :: "bool \<Rightarrow> notify call list \<Rightarrow> bool" where
  "released notifies cs \<longleftrightarrow> (\<exists>ns n wid reason d. last cs = CDeleteWorkload ns n d \<and> (\<forall>e. d = Some e \<longrightarrow> IsNotFound e) \<and>
     (notifies \<longrightarrow> Other (NLifecycle n wid lifecyclePhaseFailed reason True None) \<in> set cs))"

lemma released_append [simp]: "ds \<noteq> [] \<Longrightarrow> released b ds \<Longrightarrow> released b (cs @ ds)"
  by (auto simp: released_def) blast

lemma releaseClaim_True:
  assumes "runs (releaseClaim K N w msg) w0 True cs w1"
  shows "cs \<noteq> []" "released (N \<noteq> None) cs"
proof -
  from assms obtain e ds w2 es where rep: "runs (notifyLifecycle N w lifecyclePhaseFailed
      (''insufficient cluster capacity: '' @ msg) True) w0 e ds w2" and cs: "cs = ds @ es"
    and rest: "runs (case e of Some _ \<Rightarrow> ret False
       | None \<Rightarrow> do { d \<leftarrow> deleteWorkload K (w_namespace w) (w_name w);
                     ret (case d of None \<Rightarrow> True | Some e \<Rightarrow> IsNotFound e) }) w2 True es w1"
    unfolding releaseClaim_def by (rule runs_bindE) simp_all
  then obtain d where e: "e = None" and d: "es = [CDeleteWorkload (w_namespace w) (w_name w) d]"
    "\<forall>e. d = Some e \<longrightarrow> IsNotFound e"
    by (cases e) (auto simp: runs_bind runs_ext runs_return deleteWorkload_def split: option.splits)
  with cs show "cs \<noteq> []" by simp
  from rep e have "N \<noteq> None \<longrightarrow> Other (NLifecycle (w_name w) (mget (w_labels w) WorkloadID) lifecyclePhaseFailed
      (''insufficient cluster capacity: '' @ msg) True None) \<in> set ds" by (auto simp: runs_notifyLifecycle)
  with cs d show "released (N \<noteq> None) cs" unfolding released_def by auto
qed

lemma checkUnschedulable_True:
  assumes "runs (checkUnschedulable K N w sel) w0 True cs w1"
  shows "cs \<noteq> []" "released (N \<noteq> None) cs"
proof -
  from assms obtain r w2 ds where cs: "cs = CListPods (w_namespace w) sel r # ds"
    and rest: "runs (case r of Inl e \<Rightarrow> ret False
        | Inr pods \<Rightarrow> do { m \<leftarrow> scanPods K pods []; if m = [] then ret False else releaseClaim K N w m })
        w2 True ds w1"
    unfolding checkUnschedulable_def listPods_def
    by (auto simp: runs_return split: if_splits elim!: runs_ext_bindE)
  from rest obtain m w3 ms es where ds: "ds = ms @ es"
    and m: "runs (if m = [] then ret False else releaseClaim K N w m) w3 True es w1"
    by (cases r) (auto simp: runs_return elim!: runs_bindE)
  from m have "runs (releaseClaim K N w m) w3 True es w1" by (simp add: runs_return split: if_splits)
  from releaseClaim_True [OF this] released_append [of es "N \<noteq> None" "CListPods (w_namespace w) sel r # ms"] cs ds
  show "cs \<noteq> []" "released (N \<noteq> None) cs" by simp_all
qed

text \<open>The finalizer was given up: there was none of the operator's on the object, or Convex confirmed the
  removal and then the write of the object without it succeeded.\<close>

definition let_go :: "lib \<Rightarrow> bool \<Rightarrow> workload \<Rightarrow> notify call list \<Rightarrow> bool" where
  "let_go L notifies y cs \<longleftrightarrow> \<not> containsFinalizer L (w_finalizers y) workloadFinalizer \<or>
     (notifies \<longrightarrow> Other (NRemove (w_name y) (w_namespace y) None) \<in> set cs) \<and>
     (\<exists>u. last cs = CUpdateWorkload (y\<lparr>w_finalizers := removeFinalizer L (w_finalizers y) workloadFinalizer\<rparr>) (Inr u))"

lemma reconcileDelete_done:
  assumes "runs (reconcileDelete L K N y) w0 (0, None) cs w1"
  shows "let_go L (N \<noteq> None) y (c # cs)"
proof (cases "containsFinalizer L (w_finalizers y) workloadFinalizer")
  case True
  let ?x = "y\<lparr>w_finalizers := removeFinalizer L (w_finalizers y) workloadFinalizer\<rparr>"
  from assms True obtain e ds w2 es where rep: "runs (notifyRemoved N (w_namespace y) (w_name y)) w0 e ds w2" and cs: "cs = ds @ es"
    and rest: "runs (case e of
          Some _ \<Rightarrow> ret (statusRequeueInterval, None)
        | None \<Rightarrow> do {
            u \<leftarrow> updateWorkload K ?x;
            ret (case u of Inl e \<Rightarrow> (0, Some (Wrap ''removing workload finalizer: '' e [])) | Inr _ \<Rightarrow> (0, None))
          }) w2 (0, None) es w1"
    unfolding reconcileDelete_def by (auto elim!: runs_bindE)
  from rest have "e = None" by (cases e) (auto simp: runs_return statusRequeueInterval_def)
  with rest obtain u where u: "es = [CUpdateWorkload ?x u]"
    "(0 :: int, None) = (case u of Inl e \<Rightarrow> (0, Some (Wrap ''removing workload finalizer: '' e [])) | Inr _ \<Rightarrow> (0, None))"
    by (auto simp: runs_bind runs_ext runs_return updateWorkload_def)
  then obtain v where "u = Inr v" by (cases u) simp_all
  with rep cs u(1) \<open>e = None\<close> show ?thesis by (auto simp: let_go_def runs_notifyRemoved)
qed (simp add: let_go_def)

lemma writeStatus_runs:
  assumes "runs (writeStatus L K N w d b) w0 (q, None) cs w1"
  obtains b2 x bs w2 u where "runs (updateStatus L N w d) w0 (b2, x) bs w2"
    "k_statusUpdateWorkload K x w2 = (Inr u, w1)" "cs = bs @ [CStatusUpdate x (Inr u)]"
    "(q, None) = requeue_decision u b b2"
proof -
  from assms obtain b2 x bs w2 ds where "runs (updateStatus L N w d) w0 (b2, x) bs w2" "cs = bs @ ds"
    and rest: "runs (do { u \<leftarrow> statusUpdate K x;
      ret (case u of Inl e \<Rightarrow> (0, Some (Wrap ''updating workload status: '' e []))
          | Inr w2 \<Rightarrow> requeue_decision w2 b b2) }) w2 (q, None) ds w1"
    unfolding writeStatus_def by (rule runs_pair_bindE) simp
  moreover from rest obtain v where v: "k_statusUpdateWorkload K x w2 = (v, w1)" "ds = [CStatusUpdate x v]"
    "(q, None) = (case v of Inl e \<Rightarrow> (0, Some (Wrap ''updating workload status: '' e []))
          | Inr w2 \<Rightarrow> requeue_decision w2 b b2)"
    by (auto simp: runs_bind runs_ext runs_return statusUpdate_def)
  moreover from v(3) obtain u where "v = Inr u" by (cases v) simp_all
  ultimately show ?thesis by (intro that) auto
qed

lemma observe_runs:
  assumes "runs (observe L K N ns n w) w0 (q, None) cs w1"
  obtains b x as w2 d w3 bs where "runs (syncConvex L N w) w0 (b, x) as w2"
    "cs = as @ CGetDeployment ns n (Inr d) # bs" "runs (writeStatus L K N x d b) w3 (q, None) bs w1"
proof -
  from assms obtain b x as w2 ds where "runs (syncConvex L N w) w0 (b, x) as w2" "cs = as @ ds"
    and rest: "runs (do { g \<leftarrow> getDeployment K ns n;
      case g of Inl e \<Rightarrow> ret (0, Some (Wrap ''getting deployment for status: '' e []))
      | Inr d \<Rightarrow> writeStatus L K N x d b }) w2 (q, None) ds w1"
    unfolding observe_def by (rule runs_pair_bindE) simp
  moreover from rest [unfolded getDeployment_def] obtain g w3 bs where
    g: "ds = CGetDeployment ns n g # bs" "runs (case g of
      Inl e \<Rightarrow> ret (0, Some (Wrap ''getting deployment for status: '' e []))
      | Inr d \<Rightarrow> writeStatus L K N x d b) w3 (q, None) bs w1"
    by (rule runs_ext_bindE) simp_all
  moreover from g obtain d where "g = Inr d" by (cases g) (simp_all add: runs_return)
  ultimately show ?thesis by (intro that) auto
qed

text \<open>The pass ended in rest: its last call stored a status that reflects the Deployment read before, in
  phase Running with at least the desired number of replicas ready or in phase Stopped with the
  Workload suspended and none ready, and whose conditions record both notices to Convex as
  delivered for the generation of the object.\<close>

definition recorded :: "lib \<Rightarrow> string \<Rightarrow> workload \<Rightarrow> bool" where
  "recorded L t x \<longleftrightarrow> (\<exists>c. findStatusCondition L (conditions (status x)) t = Some c \<and>
     cond_status c = ConditionTrue \<and> cond_observedGeneration c = w_generation x)"

lemma recorded_iff: "recorded L t x \<longleftrightarrow> synced_for L t x"
  by (auto simp: recorded_def synced_for_def split: option.splits)

definition at_phase :: "workload \<Rightarrow> deployment \<Rightarrow> bool" where
  "at_phase x d \<longleftrightarrow>
     phase (status x) = PhaseRunning \<and> 0 < sint (desiredReplicaCount x) \<and> sint (desiredReplicaCount x) \<le> sint (d_readyReplicas d) \<or>
     phase (status x) = PhaseStopped \<and> suspended (spec x) \<and> d_readyReplicas d = 0"

definition settled :: "lib \<Rightarrow> string \<Rightarrow> string \<Rightarrow> notify call list \<Rightarrow> bool" where
  "settled L ns n cs \<longleftrightarrow> (\<exists>x u d. last cs = CStatusUpdate x (Inr u) \<and> CGetDeployment ns n (Inr d) \<in> set cs \<and> at_phase x d \<and>
     recorded L conditionTypeConvexSynced x \<and> recorded L conditionTypeConvexLifecycleSynced x)"

lemma settled_append [simp]: "ds \<noteq> [] \<Longrightarrow> settled L ns n ds \<Longrightarrow> settled L ns n (cs @ ds)"
  by (auto simp: settled_def)

lemma updateStatus_at_phase:
  assumes "condition_laws L" "runs (updateStatus L N w d) w0 (b, w') cs w1" "phase (status w') \<noteq> PhaseDeploying"
  shows "at_phase w' d"
proof -
  from updateStatus_classifies [OF assms(1,2)] assms(3) have "spec w' = spec w"
    "phase (status w') = PhaseStopped \<and> suspended (spec w) \<and> d_readyReplicas d = 0 \<or>
     phase (status w') = PhaseRunning \<and> 0 < sint (desiredReplicaCount w) \<and> sint (desiredReplicaCount w) \<le> sint (d_readyReplicas d)"
    by (auto split: if_splits)
  then show ?thesis by (auto simp: at_phase_def desiredReplicaCount_def)
qed

text \<open>A pass of a live Workload that asks for no further pass either released its claim or left a
  settled status behind.\<close>

lemma settle_done:
  assumes "condition_laws L" "status_echo K" "runs (settle L K N ns n w) w0 (0, None) cs w1"
  shows "cs \<noteq> [] \<and> (released (N \<noteq> None) cs \<or> settled L ns n cs)"
proof -
  from assms(3) obtain rel hs w2 ks where chk: "runs (checkUnschedulable K N w (selectorLabels w)) w0 rel hs w2"
    and cs: "cs = hs @ ks" and obs: "runs (if rel then ret (0, None) else observe L K N ns n w) w2 (0, None) ks w1"
    unfolding settle_def by (rule runs_bindE) simp_all
  show ?thesis
  proof (cases rel)
    case True
    with chk obs cs show ?thesis using checkUnschedulable_True [of K N w "selectorLabels w" w0 hs w2] by (simp add: runs_return)
  next
    case False
    with obs have "runs (observe L K N ns n w) w2 (0, None) ks w1" by simp
    then obtain b x as w3 d w4 bs where sync: "runs (syncConvex L N w) w2 (b, x) as w3"
      and ks: "ks = as @ CGetDeployment ns n (Inr d) # bs"
      and wr: "runs (writeStatus L K N x d b) w4 (0, None) bs w1" by (rule observe_runs)
    from wr obtain b2 y es w5 u where up: "runs (updateStatus L N x d) w4 (b2, y) es w5"
      and st: "k_statusUpdateWorkload K y w5 = (Inr u, w1)" "bs = es @ [CStatusUpdate y (Inr u)]"
      and dec: "(0, None) = requeue_decision u b b2" by (rule writeStatus_runs)
    from assms(2) st(1) have "status u = status y" by (auto simp: status_echo_def)
    with dec have ok: "phase (status y) \<noteq> PhaseDeploying" "b" "b2"
      by (auto simp: requeue_decision_def Let_def statusRequeueInterval_def phase_defs split: if_splits)
    from sync ok(2) assms(1) have "synced_for L conditionTypeConvexSynced x"
      by (auto simp: runs_syncConvex synced_setCondition split: if_splits)
    with updateStatus_synced [OF assms(1) up] ok
    have "recorded L conditionTypeConvexSynced y" "recorded L conditionTypeConvexLifecycleSynced y"
      by (simp_all add: recorded_iff)
    with updateStatus_at_phase [OF assms(1) up ok(1)] cs ks st(2) show ?thesis by (auto simp: settled_def)
  qed
qed

lemma reconcileLive_done:
  assumes "condition_laws L" "status_echo K" "runs (reconcileLive L K N ns n y) w0 (0, None) cs w1"
  shows "cs \<noteq> [] \<and> (released (N \<noteq> None) cs \<or> settled L ns n cs)"
  using assms(3)
proof (cases rule: reconcileLive_runs)
  case (render e)
  then show ?thesis by (simp add: runs_setFailed)
next
  case (deployment r e es w4)
  from runs_applyFailed [OF deployment(3)] show ?thesis by (simp split: if_splits)
next
  case (service r e es w4)
  from runs_applyFailed [OF service(3)] show ?thesis by (simp split: if_splits)
next
  case (applied r es w4)
  from settle_done [OF assms(1,2) applied(3)] show ?thesis
    unfolding applied(2) using released_append settled_append by (metis append_Cons append_Nil list.discI)
qed


text \<open>A demonstration pass over a Workload whose Deployment is ready.\<close>

definition demo_ready :: "nat kube" where
  "demo_ready = (demo_cluster demo_workload)
     \<lparr>k_getDeployment := (\<lambda>ns n. answer (Inr ((demo_deployment None)\<lparr>d_readyReplicas := 1\<rparr>)))\<rparr>"

lemma demo_ready_simps [simp]:
  "k_getWorkload demo_ready ns n w = (Inr demo_workload, w)"
  "k_createOrUpdateDeployment demo_ready ns n f w = (None, w)"
  "k_createOrUpdateService demo_ready ns n g w = (None, w)"
  "k_listPods demo_ready ns ls w = (Inr [], w)"
  "k_getDeployment demo_ready ns n w = (Inr ((demo_deployment None)\<lparr>d_readyReplicas := 1\<rparr>), w)"
  "k_statusUpdateWorkload demo_ready x w = (Inr x, w)"
  by (simp_all add: demo_ready_def demo_defs)

lemma demo_not_synced: "\<not> synced_for demo_lib t demo_workload"
  by (simp add: synced_for_def empty_status_def)

lemma demo_settle:
  "\<exists>ls y. runs (settle demo_lib demo_ready None ''ns'' ''web'' demo_workload) 0 (0, None)
     [CListPods ''ns'' ls (Inr []), CGetDeployment ''ns'' ''web'' (Inr ((demo_deployment None)\<lparr>d_readyReplicas := 1\<rparr>)),
      CStatusUpdate y (Inr y)] 0"
proof -
  let ?d = "(demo_deployment None)\<lparr>d_readyReplicas := 1\<rparr>"
  let ?S = "selectorLabels demo_workload"
  have chk: "runs (checkUnschedulable demo_ready None demo_workload ?S) 0 False
      [CListPods ''ns'' ?S (Inr [])] 0"
    by (simp add: checkUnschedulable_def desiredReplicaCount_def DefaultReplicas_def empty_spec_def
      empty_status_def phase_defs runs_rules)
  obtain x where sync: "runs (syncConvex demo_lib None demo_workload) (0 :: nat) (True, x) [] 0"
    and x: "spec x = spec demo_workload" "\<not> synced_for demo_lib conditionTypeConvexLifecycleSynced x"
    by (simp add: runs_syncConvex notifyUpserted_def runs_return demo_not_synced
      synced_setCondition [OF demo_condition_laws])
  have desired: "desiredReplicaCount x = 1"
    using x(1) by (simp add: desiredReplicaCount_def DefaultReplicas_def empty_spec_def)
  have "\<not> synced_for demo_lib conditionTypeConvexLifecycleSynced (with_phase (observed x ?d) PhaseRunning)"
    using x(2) by (simp add: synced_for_def split: option.splits)
  then obtain y where up: "runs (updateStatus demo_lib None x ?d) (0 :: nat) (True, y) [] 0"
    and "phase (status y) = PhaseRunning"
    by (auto simp: updateStatus_def Let_def desired runs_bind runs_syncLifecycle runs_notifyLifecycle
      delivered_def runs_return)
  then have "runs (writeStatus demo_lib demo_ready None x ?d True) 0 (0, None) [CStatusUpdate y (Inr y)] 0"
    unfolding writeStatus_def
    by (intro runs_bindI [OF up, of _ _ "[CStatusUpdate y (Inr y)]", simplified])
       (simp_all add: runs_rules requeue_decision_def)
  then have "runs (observe demo_lib demo_ready None ''ns'' ''web'' demo_workload) 0 (0, None)
      [CGetDeployment ''ns'' ''web'' (Inr ?d), CStatusUpdate y (Inr y)] 0"
    unfolding observe_def
    by (intro runs_bindI [OF sync, of _ _ "[CGetDeployment ''ns'' ''web'' (Inr ?d), CStatusUpdate y (Inr y)]", simplified])
       (simp_all add: runs_rules)
  then have "runs (settle demo_lib demo_ready None ''ns'' ''web'' demo_workload) 0 (0, None)
      ([CListPods ''ns'' ?S (Inr [])] @ [CGetDeployment ''ns'' ''web'' (Inr ?d), CStatusUpdate y (Inr y)]) 0"
    unfolding settle_def by (intro runs_bindI [OF chk]) simp_all
  then show ?thesis by auto
qed

abbreviation demo_calls :: "labels \<Rightarrow> workload \<Rightarrow> notify call list" where
  "demo_calls ls y \<equiv> [CGetWorkload ''ns'' ''web'' (Inr demo_workload),
    deployment_call demo_lib demo_workload (legacyRendered demo_workload) None,
    service_call demo_lib demo_workload (legacyRendered demo_workload) None,
    CListPods ''ns'' ls (Inr []), CGetDeployment ''ns'' ''web'' (Inr ((demo_deployment None)\<lparr>d_readyReplicas := 1\<rparr>)),
    CStatusUpdate y (Inr y)]"

lemma demo_pass: "\<exists>ls y. runs (Reconcile demo_lib demo_ready None ''ns'' ''web'') 0 (0, None) (demo_calls ls y) 0"
proof -
  obtain ls y where ds: "runs (settle demo_lib demo_ready None ''ns'' ''web'' demo_workload) 0 (0, None)
      [CListPods ''ns'' ls (Inr []), CGetDeployment ''ns'' ''web'' (Inr ((demo_deployment None)\<lparr>d_readyReplicas := 1\<rparr>)),
       CStatusUpdate y (Inr y)] 0"
    using demo_settle by (elim exE) (rule that)
  have "runs (reconcileLive demo_lib demo_ready None ''ns'' ''web'' demo_workload) 0 (0, None) (tl (demo_calls ls y)) 0"
    unfolding reconcileLive_def reconcileDeployment_def reconcileService_def demo_render sum.case
      applyDeployment_def applyService_def list.sel
    by (rule runs_ext_bindI [OF demo_ready_simps(2)], unfold option.case,
        rule runs_ext_bindI [OF demo_ready_simps(3)], unfold option.case, rule ds) simp_all
  then have "runs (Reconcile demo_lib demo_ready None ''ns'' ''web'') 0 (0, None) (demo_calls ls y) 0"
    unfolding Reconcile_def getWorkload_def
    by (intro runs_ext_bindI [OF demo_ready_simps(1)]) (simp_all add: runs_bind runs_ensureFinalizer)
  then show ?thesis by blast
qed

lemma demo_ready_echo: "status_echo demo_ready"
  by (simp add: status_echo_def)


section \<open>Failures\<close>

text \<open>The errors of the JSON and regular-expression packages are none of the repository's own.\<close>

definition foreign_errors :: "lib \<Rightarrow> bool" where
  "foreign_errors L \<longleftrightarrow>
     (\<forall>s x. \<not> errors_is (jsonError L s) x) \<and>
     (\<forall>p s e x. regexMatch L p s = Inl e \<longrightarrow> \<not> errors_is e x)"

lemma demo_foreign_errors: "foreign_errors demo_lib"
  by (simp add: foreign_errors_def)

lemma checkValidation_foreign:
  "foreign_errors L \<Longrightarrow> checkValidation L r v = Some e \<Longrightarrow> \<not> errors_is e x"
  by (auto simp: checkValidation_def foreign_errors_def Let_def split: option.splits sum.splits if_splits)

lemma checkParams_foreign:
  "foreign_errors L \<Longrightarrow> checkParams L ps m = Some e \<Longrightarrow> \<not> errors_is e x"
  by (induction L ps m rule: checkParams.induct)
     (auto dest: checkValidation_foreign split: option.splits bool.splits if_splits)

lemma ResolveParams_foreign:
  "foreign_errors L \<Longrightarrow> ResolveParams L ps m = Inl e \<Longrightarrow> \<not> errors_is e x"
  by (auto simp: ResolveParams_def Let_def dest: checkParams_foreign split: option.splits)

lemma render_reason_eq:
  assumes "foreign_errors L" "render L w = Inl e"
  shows "render_reason e =
    (if templateName (spec w) = [] then reasonInvalidSpec
     else if Get L (templateName (spec w)) = None then reasonUnknownTemplate else reasonReconcileError)"
proof (cases "Get L (templateName (spec w))")
  case None
  with assms show ?thesis by (auto simp: render_def render_reason_def split: if_splits)
next
  case (Some t)
  have total: "\<exists>r. t_build t ps = Inr r" for ps
    by (rule catalog_template.build_total [OF Get_template(1) [OF Some]])
  have "\<not> errors_is e x" if "templateName (spec w) \<noteq> []" for x
    using assms Some that total
    by (auto simp: render_def configToParams_def jsonUnmarshal_def foreign_errors_def split: option.splits sum.splits if_splits
      dest: ResolveParams_foreign [OF assms(1)]) (metis Inl_Inr_False)+
  with assms Some show ?thesis by (auto simp: render_reason_def render_def split: if_splits)
qed

text \<open>A live Workload that cannot be rendered is marked Failed with a false Ready condition whose
  reason tells an absent image, an unknown template and every other failure apart; one
  non-retryable failure report with the error text goes to Convex, and the error is returned so
  that the pass is retried with backoff.\<close>

lemma render_failure_recorded:
  assumes "condition_laws L" "foreign_errors L" "runs (Reconcile L K N ns n) w (q, err) cs w'"
    and "cs ! 0 = CGetWorkload ns n (Inr y)" "w_deletionTimestamp y = None"
    and "containsFinalizer L (w_finalizers y) workloadFinalizer" "render L y = Inl e"
  shows "\<exists>x u c z. err = Some (Wrap ''rendering workload: '' e []) \<and> q = 0 \<and>
    phase (status x) = PhaseFailed \<and>
    findStatusCondition L (conditions (status x)) ConditionTypeReady = Some c \<and>
    cond_status c = ConditionFalse \<and> cond_reason c =
      (if templateName (spec y) = [] then reasonInvalidSpec
       else if Get L (templateName (spec y)) = None then reasonUnknownTemplate else reasonReconcileError) \<and>
    cs = [CGetWorkload ns n (Inr y), CStatusUpdate x u] @
      (if N = None then [] else [Other (NLifecycle (w_name (case u of Inl _ \<Rightarrow> x | Inr x' \<Rightarrow> x'))
         (mget (w_labels (case u of Inl _ \<Rightarrow> x | Inr x' \<Rightarrow> x')) WorkloadID) lifecyclePhaseFailed
         (''rendering workload: '' @ error_text e) False z)])"
  using assms(3)
proof (cases rule: Reconcile_runs)
  case (live y0 fs w2 y1 w3 ds)
  with assms(4) have "y0 = y" by simp
  with live assms(6) have y: "y1 = y" "fs = []" by (auto simp: runs_ensureFinalizer)
  with live(4) assms(7) have "runs (setFailedWithReason L K N y (render_reason e)
      (Wrap ''rendering workload: '' e [])) w3 (q, err) ds w'" by (simp add: reconcileLive_def)
  then obtain u es w4 z where res: "q = 0" "err = Some (Wrap ''rendering workload: '' e [])"
    and ds: "ds = CStatusUpdate (failed_object L y (render_reason e) (Wrap ''rendering workload: '' e [])) u # es"
    and es: "runs (notifyLifecycle N (case u of
        Inl _ \<Rightarrow> failed_object L y (render_reason e) (Wrap ''rendering workload: '' e [])
      | Inr w' \<Rightarrow> w') lifecyclePhaseFailed (error_text (Wrap ''rendering workload: '' e [])) False) w4 z es w'"
    unfolding runs_setFailed by (elim exE conjE) (rule that)
  show ?thesis
    apply (rule exI [of _ "failed_object L y (render_reason e) (Wrap ''rendering workload: '' e [])"])
    apply (rule exI [of _ u])
    apply (rule exI [of _ "readyCondition y ConditionFalse (render_reason e) (error_text (Wrap ''rendering workload: '' e []))"])
    apply (rule exI [of _ z])
    using res ds es y \<open>y0 = y\<close> live(2) assms(1) render_reason_eq [OF assms(2,7)]
    by (auto simp: failed_object_def find_setCondition runs_notifyLifecycle)
qed (use assms(4,5,6) in \<open>auto simp: runs_ensureFinalizer\<close>)

text \<open>C36: A Workload that is not suspended but asks for no replicas can never settle: every pass over
  it ends with an error or with a requeue in ten seconds, whatever the Deployment reports.\<close>

theorem zero_replicas_never_settle:
  assumes "condition_laws L" "status_echo K" "runs (reconcileLive L K N ns n y) w (q, err) cs w'"
    and "\<not> suspended (spec y)" "replicas (spec y) = Some 0"
  shows "q = statusRequeueInterval \<or> err \<noteq> None"
proof (cases err)
  case None
  have desired: "desiredReplicaCount y = 0" using assms(4,5) by (simp add: desiredReplicaCount_def)
  from assms(3) show ?thesis
  proof (cases rule: reconcileLive_runs)
    case (applied r ds w2)
    have "runs (observe L K N ns n y) w2 (q, None) ds w'"
      using applied(3) None by (simp add: settle_def checkUnschedulable_def desired runs_bind runs_return)
    then obtain b x as w3 d w4 bs where sync: "runs (syncConvex L N y) w2 (b, x) as w3"
      and wr: "runs (writeStatus L K N x d b) w4 (q, None) bs w'" by (rule observe_runs)
    from wr obtain b2 z es w5 u where up: "runs (updateStatus L N x d) w4 (b2, z) es w5"
      and st: "k_statusUpdateWorkload K z w5 = (Inr u, w')"
      and dec: "(q, None) = requeue_decision u b b2" by (rule writeStatus_runs)
    from sync have "spec x = spec y" by (auto simp: runs_syncConvex split: if_splits)
    then have "\<not> is_stopped x d" "\<not> is_running x d"
      using assms(4,5) by (auto simp: is_stopped_def is_running_def desiredReplicaCount_def)
    with up have "phase (status z) = PhaseDeploying" by (cases rule: updateStatus_runs) auto
    moreover from st assms(2) have "status u = status z" by (auto simp: status_echo_def)
    ultimately show ?thesis using dec by (simp add: requeue_decision_def phase_defs)
  qed (use None in \<open>auto simp: runs_setFailed dest: runs_applyFailed split: if_splits\<close>)
qed simp

theorem zero_replicas_never_settle_witness:
  "\<exists>q err cs w'. runs (reconcileLive demo_lib (demo_cluster demo_workload) None ''ns'' ''web''
       (demo_workload\<lparr>spec := empty_spec\<lparr>image := ''nginx'', replicas := Some 0\<rparr>\<rparr>)) 0 (q, err) cs w' \<and>
     (q = statusRequeueInterval \<or> err \<noteq> None)"
proof -
  let ?y = "demo_workload\<lparr>spec := empty_spec\<lparr>image := ''nginx'', replicas := Some 0\<rparr>\<rparr>"
  let ?R = "reconcileLive demo_lib (demo_cluster demo_workload) None ''ns'' ''web'' ?y"
  obtain q err cs w' where run: "runs ?R 0 (q, err) cs w'"
    using runs_total [of ?R 0] by (metis surj_pair)
  from zero_replicas_never_settle [OF demo_condition_laws demo_status_echo run]
  have "q = statusRequeueInterval \<or> err \<noteq> None" by (simp add: empty_spec_def)
  with run show ?thesis by (intro exI conjI)
qed

end
