(* ===== verification/TokenStore.thy ===== *)
theory TokenStore
  imports Controller_Status
begin

text \<open>
  The token store (internal/tokenstore/tokenstore.go): the operator's credentials, kept in one
  Secret of a namespace. The property is the round trip through the API server.
\<close>

definition SecretName :: string where "SecretName = ''ai-cloud-operator-token''"
definition keyHeartbeatToken :: string where "keyHeartbeatToken = ''heartbeatToken''"
definition keyDeployToken :: string where "keyDeployToken = ''deployToken''"
definition keyCatalogHash :: string where "keyCatalogHash = ''catalogHash''"
definition keyOperatorVersion :: string where "keyOperatorVersion = ''operatorVersion''"
definition keyTagsFingerprint :: string where "keyTagsFingerprint = ''tagsFingerprint''"

lemmas token_key_defs = keyHeartbeatToken_def keyDeployToken_def keyCatalogHash_def
  keyOperatorVersion_def keyTagsFingerprint_def

record tokens =
  HeartbeatToken :: string
  DeployToken :: string
  CatalogHash :: string
  OperatorVersion :: string
  TagsFingerprint :: string

definition no_tokens :: tokens where
  "no_tokens = \<lparr>HeartbeatToken = [], DeployToken = [], CatalogHash = [], OperatorVersion = [],
     TagsFingerprint = []\<rparr>"

definition tokens_of_data :: "string strmap \<Rightarrow> tokens" where
  "tokens_of_data d = \<lparr>HeartbeatToken = mget d keyHeartbeatToken, DeployToken = mget d keyDeployToken,
     CatalogHash = mget d keyCatalogHash, OperatorVersion = mget d keyOperatorVersion,
     TagsFingerprint = mget d keyTagsFingerprint\<rparr>"

definition put_tokens :: "tokens \<Rightarrow> string strmap \<Rightarrow> string strmap" where
  "put_tokens t d = d(keyHeartbeatToken \<mapsto> HeartbeatToken t, keyDeployToken \<mapsto> DeployToken t,
     keyCatalogHash \<mapsto> CatalogHash t, keyOperatorVersion \<mapsto> OperatorVersion t,
     keyTagsFingerprint \<mapsto> TagsFingerprint t)"

text \<open>\<open>Load\<close> returns \<open>(Tokens, bool, error)\<close>: an error, nothing usable, or the tokens.\<close>

definition Load :: "'w kube \<Rightarrow> string \<Rightarrow> ('w, 'n, go_error + tokens option) kprog" where
  "Load K ns = do {
     r \<leftarrow> getSecret K ns SecretName;
     ret (case r of
       Inl e \<Rightarrow> if IsNotFound e then Inr None else Inl (Wrap ''getting token secret: '' e [])
     | Inr x \<Rightarrow>
         let t = tokens_of_data (sec_data x) in
         if HeartbeatToken t = [] \<or> DeployToken t = [] then Inr None else Inr (Some t))
   }"

definition Save :: "'w kube \<Rightarrow> string \<Rightarrow> tokens \<Rightarrow> ('w, 'n, go_error option) kprog" where
  "Save K ns t = do {
     r \<leftarrow> getSecret K ns SecretName;
     case r of
       Inl e \<Rightarrow>
         if IsNotFound e then do {
           c \<leftarrow> createSecret K \<lparr>sec_name = SecretName, sec_namespace = ns,
                  sec_labels = [ManagedBy \<mapsto> ManagedByValue], sec_type = ''Opaque'',
                  sec_data = put_tokens t Map.empty\<rparr>;
           ret (map_option (\<lambda>e. Wrap ''creating token secret: '' e []) c)
         }
         else ret (Some (Wrap ''getting token secret before update: '' e []))
     | Inr x \<Rightarrow> do {
         u \<leftarrow> updateSecret K (x\<lparr>sec_data := put_tokens t (sec_data x)\<rparr>);
         ret (map_option (\<lambda>e. Wrap ''updating token secret: '' e []) u)
       }
   }"

section \<open>Round trip\<close>

lemma tokens_round [simp]: "tokens_of_data (put_tokens t d) = t"
  by (simp add: tokens_of_data_def put_tokens_def token_key_defs)

lemma put_tokens_other:
  "k \<notin> {keyHeartbeatToken, keyDeployToken, keyCatalogHash, keyOperatorVersion, keyTagsFingerprint} \<Longrightarrow>
   put_tokens t d k = d k"
  by (simp add: put_tokens_def)

lemma proper_secrets [simp]:
  "proper (getSecret K ns n)" "proper (createSecret K x)" "proper (updateSecret K x)"
  by (simp_all add: kube_ops)

lemma proper_store [simp]: "proper (Load K ns)" "proper (Save K ns t)"
  by (simp_all add: Load_def Save_def)

text \<open>
  What the API server promises for one Secret name: a created or updated Secret is what the next
  read returns, and a Secret read is named as asked for.
\<close>

definition secret_laws :: "'w kube \<Rightarrow> bool" where
  "secret_laws K \<longleftrightarrow>
     (\<forall>x w w'. k_createSecret K x w = (None, w') \<longrightarrow>
        fst (k_getSecret K (sec_namespace x) (sec_name x) w') = Inr x) \<and>
     (\<forall>x w w'. k_updateSecret K x w = (None, w') \<longrightarrow>
        fst (k_getSecret K (sec_namespace x) (sec_name x) w') = Inr x) \<and>
     (\<forall>ns n w x w'. k_getSecret K ns n w = (Inr x, w') \<longrightarrow> sec_namespace x = ns \<and> sec_name x = n)"

lemma Save_stores:
  assumes "secret_laws K" "runs (Save K ns t) w None cs w'"
  shows "\<exists>x. fst (k_getSecret K ns SecretName w') = Inr x \<and> (\<exists>d. sec_data x = put_tokens t d)"
proof -
  from assms(2) obtain r w1 ds where g: "k_getSecret K ns SecretName w = (r, w1)"
    and "cs = CGetSecret ns SecretName r # ds"
    and rest: "runs (case r of
       Inl e \<Rightarrow>
         if IsNotFound e then do {
           c \<leftarrow> createSecret K \<lparr>sec_name = SecretName, sec_namespace = ns,
                  sec_labels = [ManagedBy \<mapsto> ManagedByValue], sec_type = ''Opaque'',
                  sec_data = put_tokens t Map.empty\<rparr>;
           ret (map_option (\<lambda>e. Wrap ''creating token secret: '' e []) c)
         }
         else ret (Some (Wrap ''getting token secret before update: '' e []))
     | Inr x \<Rightarrow> do {
         u \<leftarrow> updateSecret K (x\<lparr>sec_data := put_tokens t (sec_data x)\<rparr>);
         ret (map_option (\<lambda>e. Wrap ''updating token secret: '' e []) u)
       }) w1 None ds w'"
    unfolding Save_def getSecret_def by (rule runs_ext_bindE) simp_all
  show ?thesis
  proof (cases r)
    case (Inl e)
    with rest assms(1) show ?thesis
      by (fastforce simp: secret_laws_def createSecret_def runs_bind runs_ext runs_return split: if_splits)
  next
    case (Inr x)
    with assms(1) g have x: "sec_namespace x = ns" "sec_name x = SecretName"
      unfolding secret_laws_def by blast+
    from rest Inr have "k_updateSecret K (x\<lparr>sec_data := put_tokens t (sec_data x)\<rparr>) w1 = (None, w')"
      by (auto simp: updateSecret_def runs_bind runs_ext runs_return)
    with assms(1) have "fst (k_getSecret K (sec_namespace (x\<lparr>sec_data := put_tokens t (sec_data x)\<rparr>))
        (sec_name (x\<lparr>sec_data := put_tokens t (sec_data x)\<rparr>)) w') =
      Inr (x\<lparr>sec_data := put_tokens t (sec_data x)\<rparr>)" unfolding secret_laws_def by blast
    with x show ?thesis by auto
  qed
qed

section \<open>Properties\<close>

text \<open>Credentials survive a restart: after \<open>Save\<close> succeeded, \<open>Load\<close> returns exactly the saved
  tokens with all three registration fingerprints, unless one of the two tokens is empty, in
  which case it reports that there is nothing usable and never an error.\<close>

lemma Save_Load:
  assumes "secret_laws K" "runs (Save K ns t) w None cs w1" "runs (Load K ns) w1 r ds w2"
  shows "r = (if HeartbeatToken t = [] \<or> DeployToken t = [] then Inr None else Inr (Some t))"
proof -
  from Save_stores [OF assms(1,2)] obtain x d where
    x: "fst (k_getSecret K ns SecretName w1) = Inr x" "sec_data x = put_tokens t d" by auto
  from assms(3) x(1) have "r = (let t = tokens_of_data (sec_data x) in
      if HeartbeatToken t = [] \<or> DeployToken t = [] then Inr None else Inr (Some t))"
    by (auto simp: Load_def runs_bind runs_ext runs_return getSecret_def Let_def)
  with x(2) show ?thesis by simp
qed

text \<open>A cluster whose world is the one stored Secret.\<close>

definition secret_kube :: "secret option kube" where
  "secret_kube = (idle_kube (answer 0))
     \<lparr>k_getSecret := (\<lambda>ns n w. (case w of None \<Rightarrow> Inl (not_found n)
        | Some x \<Rightarrow> if sec_namespace x = ns \<and> sec_name x = n then Inr x else Inl (not_found n), w)),
      k_createSecret := (\<lambda>x w. (None, Some x)), k_updateSecret := (\<lambda>x w. (None, Some x))\<rparr>"

lemma secret_kube_laws: "secret_laws secret_kube"
  by (auto simp: secret_laws_def secret_kube_def split: option.splits if_splits)

end
