(* ===== verification/Metrics.thy ===== *)
theory Metrics
  imports TokenStore
begin

text \<open>
  Usage metrics (internal/metrics/collector.go): the collector that samples network counters per
  workload and the one that sums live CPU and memory usage over the nodes. The kubelet's summary
  endpoint is a parameter that returns text. The node an iteration
  over a Go map visits next is unspecified; the parameter \<open>order\<close> lists the keys in the order
  visited. Counters are uint64, sums int64 that wrap.
\<close>

section \<open>Types\<close>

definition workloadNameLabel :: string where "workloadNameLabel = ''app.kubernetes.io/name''"
definition MetricNetworkRxBytes :: string where "MetricNetworkRxBytes = ''network.rxBytes''"
definition MetricNetworkTxBytes :: string where "MetricNetworkTxBytes = ''network.txBytes''"

record sample =
  sm_name :: string
  sm_metric :: string
  sm_value :: rat
  sm_sampledAt :: int

record cpuStats = UsageNanoCores :: "uint64 option"
record memoryStats = WorkingSetBytes :: "uint64 option"

record nodeStats =
  ns_CPU :: "cpuStats option"
  ns_Memory :: "memoryStats option"

record networkStats =
  nw_rxBytes :: "uint64 option"
  nw_txBytes :: "uint64 option"

type_synonym podKey = "string \<times> string"

record podStats =
  ps_podRef :: podKey
  ps_CPU :: "cpuStats option"
  ps_Memory :: "memoryStats option"
  ps_network :: "networkStats option"

record nodeStatsSummary =
  su_node :: "nodeStats option"
  su_pods :: "podStats list"

record usageSnapshot =
  ClusterUsedMilliCPU :: int64
  ClusterUsedMemoryBytes :: int64
  ManagedUsedMilliCPU :: int64
  ManagedUsedMemoryBytes :: int64
  NodesReporting :: nat
  NodesTotal :: nat

record 'w kubelet =
  kl_summary :: "string \<Rightarrow> 'w \<Rightarrow> (go_error + string) \<times> 'w"
  kl_jsonError :: "string \<Rightarrow> go_error"

section \<open>The summary in JSON\<close>

definition cpuStats_fields :: "(string \<times> cpuStats setter) list" where
  "cpuStats_fields = [(''usageNanoCores'', set_uint64_pointer (\<lambda>x. UsageNanoCores_update (\<lambda>_. x)))]"

definition memoryStats_fields :: "(string \<times> memoryStats setter) list" where
  "memoryStats_fields = [(''workingSetBytes'', set_uint64_pointer (\<lambda>x. WorkingSetBytes_update (\<lambda>_. x)))]"

definition networkStats_fields :: "(string \<times> networkStats setter) list" where
  "networkStats_fields = [(''rxBytes'', set_uint64_pointer (\<lambda>x. nw_rxBytes_update (\<lambda>_. x))),
     (''txBytes'', set_uint64_pointer (\<lambda>x. nw_txBytes_update (\<lambda>_. x)))]"

definition set_cpu :: "('s \<Rightarrow> cpuStats option) \<Rightarrow> (cpuStats option \<Rightarrow> 's \<Rightarrow> 's) \<Rightarrow> 's setter" where
  "set_cpu = set_pointer (to_struct cpuStats_fields) \<lparr>UsageNanoCores = None\<rparr>"

definition set_memory :: "('s \<Rightarrow> memoryStats option) \<Rightarrow> (memoryStats option \<Rightarrow> 's \<Rightarrow> 's) \<Rightarrow> 's setter" where
  "set_memory = set_pointer (to_struct memoryStats_fields) \<lparr>WorkingSetBytes = None\<rparr>"

definition nodeStats_fields :: "(string \<times> nodeStats setter) list" where
  "nodeStats_fields = [(''cpu'', set_cpu ns_CPU (\<lambda>x. ns_CPU_update (\<lambda>_. x))),
     (''memory'', set_memory ns_Memory (\<lambda>x. ns_Memory_update (\<lambda>_. x)))]"

definition podReference_fields :: "(string \<times> podKey setter) list" where
  "podReference_fields = [(''name'', set_string (\<lambda>x (ns, n). (ns, x))), (''namespace'', set_string (\<lambda>x (ns, n). (x, n)))]"

definition podStats_fields :: "(string \<times> podStats setter) list" where
  "podStats_fields = [(''podRef'', set_nested (to_struct podReference_fields) ps_podRef (\<lambda>x. ps_podRef_update (\<lambda>_. x))),
     (''cpu'', set_cpu ps_CPU (\<lambda>x. ps_CPU_update (\<lambda>_. x))),
     (''memory'', set_memory ps_Memory (\<lambda>x. ps_Memory_update (\<lambda>_. x))),
     (''network'', set_pointer (to_struct networkStats_fields) \<lparr>nw_rxBytes = None, nw_txBytes = None\<rparr>
        ps_network (\<lambda>x. ps_network_update (\<lambda>_. x)))]"

definition zero_podStats :: podStats where
  "zero_podStats = \<lparr>ps_podRef = ([], []), ps_CPU = None, ps_Memory = None, ps_network = None\<rparr>"

definition nodeStatsSummary_fields :: "(string \<times> nodeStatsSummary setter) list" where
  "nodeStatsSummary_fields =
     [(''node'', set_pointer (to_struct nodeStats_fields) \<lparr>ns_CPU = None, ns_Memory = None\<rparr> su_node (\<lambda>x. su_node_update (\<lambda>_. x))),
      (''pods'', set_list (to_struct podStats_fields) zero_podStats su_pods (\<lambda>x. su_pods_update (\<lambda>_. x)))]"

definition kl_decode :: "'w kubelet \<Rightarrow> string \<Rightarrow> go_error + nodeStatsSummary" where
  "kl_decode Q raw = (case Option.bind (Unmarshal raw) (\<lambda>v. to_struct nodeStatsSummary_fields v \<lparr>su_node = None, su_pods = []\<rparr>) of
     None \<Rightarrow> Inl (kl_jsonError Q raw)
   | Some x \<Rightarrow> Inr x)"

lemmas summary_fields = cpuStats_fields_def memoryStats_fields_def networkStats_fields_def set_cpu_def set_memory_def
  nodeStats_fields_def podReference_fields_def podStats_fields_def nodeStatsSummary_fields_def

section \<open>Operations\<close>

text \<open>\<open>emb\<close> says how a summary request appears in the history of the calling component.\<close>

definition fetchNodeSummary :: "(string \<Rightarrow> go_error + string \<Rightarrow> 'n) \<Rightarrow> 'w kubelet \<Rightarrow> string \<Rightarrow>
    ('w, 'n, go_error + nodeStatsSummary) kprog" where
  "fetchNodeSummary emb Q nodeName = do {
     r \<leftarrow> ext (kl_summary Q nodeName) (\<lambda>r. Other (emb nodeName r));
     ret (case r of
       Inl e \<Rightarrow> Inl (Wrap ''requesting stats summary: '' e [])
     | Inr raw \<Rightarrow> (case kl_decode Q raw of
         Inl e \<Rightarrow> Inl (Wrap ''decoding stats summary: '' e [])
       | Inr x \<Rightarrow> Inr x))
   }"

definition wanted :: "pod \<Rightarrow> bool" where
  "wanted p = (p_nodeName p \<noteq> [] \<and> mget (p_labels p) workloadNameLabel \<noteq> [])"

definition wantByNode :: "pod list \<Rightarrow> string \<Rightarrow> podKey \<Rightarrow> string option" where
  "wantByNode ps nodeName = fold
     (\<lambda>p m. if wanted p \<and> p_nodeName p = nodeName
            then m((p_namespace p, p_name p) \<mapsto> mget (p_labels p) workloadNameLabel) else m) ps Map.empty"

definition wantedNodes :: "pod list \<Rightarrow> string list" where
  "wantedNodes ps = remdups (map p_nodeName (filter wanted ps))"

definition f64_of_uint64 :: "uint64 \<Rightarrow> rat" where
  "f64_of_uint64 u = of_nat (f64_of_nat (unat u))"

definition podSamples :: "int \<Rightarrow> (podKey \<Rightarrow> string option) \<Rightarrow> podStats \<Rightarrow> sample list" where
  "podSamples t want ps = (case want (ps_podRef ps) of
     None \<Rightarrow> []
   | Some workloadName \<Rightarrow>
     (case ps_network ps of
        None \<Rightarrow> []
      | Some nw \<Rightarrow>
          (case nw_rxBytes nw of None \<Rightarrow> [] | Some b \<Rightarrow>
             [\<lparr>sm_name = workloadName, sm_metric = MetricNetworkRxBytes, sm_value = f64_of_uint64 b, sm_sampledAt = t\<rparr>]) @
          (case nw_txBytes nw of None \<Rightarrow> [] | Some b \<Rightarrow>
             [\<lparr>sm_name = workloadName, sm_metric = MetricNetworkTxBytes, sm_value = f64_of_uint64 b, sm_sampledAt = t\<rparr>])))"

fun collectNodes :: "(string \<Rightarrow> go_error + string \<Rightarrow> 'n) \<Rightarrow> 'w kubelet \<Rightarrow> int \<Rightarrow> pod list \<Rightarrow> string list \<Rightarrow>
    sample list \<Rightarrow> ('w, 'n, sample list) kprog" where
  "collectNodes emb Q t pods [] samples = ret samples"
| "collectNodes emb Q t pods (n # ns) samples = do {
     r \<leftarrow> fetchNodeSummary emb Q n;
     collectNodes emb Q t pods ns (case r of
       Inl _ \<Rightarrow> samples
     | Inr x \<Rightarrow> samples @ concat (map (podSamples t (wantByNode pods n)) (su_pods x)))
   }"

definition Collect :: "(string \<Rightarrow> go_error + string \<Rightarrow> 'n) \<Rightarrow> (string list \<Rightarrow> string list) \<Rightarrow> 'w kube \<Rightarrow>
    'w kubelet \<Rightarrow> string \<Rightarrow> ('w, 'n, go_error + sample list) kprog" where
  "Collect emb order K Q ns = do {
     r \<leftarrow> listPods K ns [ManagedBy \<mapsto> ManagedByValue];
     case r of
       Inl e \<Rightarrow> ret (Inl (Wrap ''listing managed pods: '' e []))
     | Inr pods \<Rightarrow> do {
         t \<leftarrow> now K;
         samples \<leftarrow> collectNodes emb Q t pods (order (wantedNodes pods)) [];
         ret (Inr samples)
       }
   }"

definition milli_of_nano :: "uint64 \<Rightarrow> int64" where
  "milli_of_nano u = u div 1000000"

definition opt_add :: "int64 \<Rightarrow> int64 option \<Rightarrow> int64" where
  "opt_add a x = (case x of None \<Rightarrow> a | Some b \<Rightarrow> a + b)"

definition addNodeUsage :: "nodeStats option \<Rightarrow> usageSnapshot \<Rightarrow> usageSnapshot" where
  "addNodeUsage n snap = (case n of
     None \<Rightarrow> snap
   | Some x \<Rightarrow> snap
       \<lparr>ClusterUsedMilliCPU := opt_add (ClusterUsedMilliCPU snap) (map_option milli_of_nano (Option.bind (ns_CPU x) UsageNanoCores)),
        ClusterUsedMemoryBytes := opt_add (ClusterUsedMemoryBytes snap) (Option.bind (ns_Memory x) WorkingSetBytes)\<rparr>)"

definition addPodUsage :: "pod list \<Rightarrow> podStats \<Rightarrow> usageSnapshot \<Rightarrow> usageSnapshot" where
  "addPodUsage pods ps snap =
     (if ps_podRef ps \<notin> set (map (\<lambda>p. (p_namespace p, p_name p)) pods) then snap
      else snap
        \<lparr>ManagedUsedMilliCPU := opt_add (ManagedUsedMilliCPU snap) (map_option milli_of_nano (Option.bind (ps_CPU ps) UsageNanoCores)),
         ManagedUsedMemoryBytes := opt_add (ManagedUsedMemoryBytes snap) (Option.bind (ps_Memory ps) WorkingSetBytes)\<rparr>)"

definition addSummary :: "pod list \<Rightarrow> nodeStatsSummary \<Rightarrow> usageSnapshot \<Rightarrow> usageSnapshot" where
  "addSummary pods x snap = fold (addPodUsage pods) (su_pods x)
     (addNodeUsage (su_node x) (snap\<lparr>NodesReporting := NodesReporting snap + 1\<rparr>))"

fun usageNodes :: "(string \<Rightarrow> go_error + string \<Rightarrow> 'n) \<Rightarrow> 'w kubelet \<Rightarrow> pod list \<Rightarrow> node list \<Rightarrow>
    usageSnapshot \<Rightarrow> ('w, 'n, usageSnapshot) kprog" where
  "usageNodes emb Q pods [] snap = ret snap"
| "usageNodes emb Q pods (n # ns) snap = do {
     r \<leftarrow> fetchNodeSummary emb Q (n_name n);
     usageNodes emb Q pods ns (case r of Inl _ \<Rightarrow> snap | Inr x \<Rightarrow> addSummary pods x snap)
   }"

definition CollectUsage :: "(string \<Rightarrow> go_error + string \<Rightarrow> 'n) \<Rightarrow> 'w kube \<Rightarrow> 'w kubelet \<Rightarrow> string \<Rightarrow>
    ('w, 'n, go_error + usageSnapshot) kprog" where
  "CollectUsage emb K Q ns = do {
     rn \<leftarrow> listNodes K;
     case rn of
       Inl e \<Rightarrow> ret (Inl (Wrap ''listing nodes: '' e []))
     | Inr nodes \<Rightarrow> do {
         rp \<leftarrow> listPods K ns [ManagedBy \<mapsto> ManagedByValue];
         case rp of
           Inl e \<Rightarrow> ret (Inl (Wrap ''listing managed pods: '' e []))
         | Inr pods \<Rightarrow> do {
             snap \<leftarrow> usageNodes emb Q pods nodes
               \<lparr>ClusterUsedMilliCPU = 0, ClusterUsedMemoryBytes = 0, ManagedUsedMilliCPU = 0,
                ManagedUsedMemoryBytes = 0, NodesReporting = 0, NodesTotal = length nodes\<rparr>;
             ret (Inr snap)
           }
       }
   }"

text \<open>
  One tick of the metrics reporter (internal/metrics/reporter.go); \<open>ReportMetrics\<close> is the
  operation it is given. Errors are only logged.
\<close>

definition reportOnce :: "('w, 'n, go_error + sample list) kprog \<Rightarrow>
    (sample list \<Rightarrow> ('w, 'n, go_error option) kprog) \<Rightarrow> ('w, 'n, unit) kprog" where
  "reportOnce collect ReportMetrics = do {
     r \<leftarrow> collect;
     case r of
       Inl _ \<Rightarrow> ret ()
     | Inr samples \<Rightarrow> do { e \<leftarrow> ReportMetrics samples; ret () }
   }"

section \<open>Lemmas\<close>

lemma proper_fetch [simp]: "proper (fetchNodeSummary emb Q n)"
  by (simp add: fetchNodeSummary_def)

lemma proper_listNodes [simp]: "proper (listNodes K)"
  by (simp add: listNodes_def)

lemma proper_collectNodes [simp]: "proper (collectNodes emb Q t ps ns xs)"
  by (induction emb Q t ps ns xs rule: collectNodes.induct) simp_all

lemma proper_usageNodes [simp]: "proper (usageNodes emb Q ps ns x)"
  by (induction emb Q ps ns x rule: usageNodes.induct) simp_all

lemma proper_collect [simp]: "proper (Collect emb order K Q ns)" "proper (CollectUsage emb K Q ns)"
  by (simp_all add: Collect_def CollectUsage_def)

lemma wantByNode_Some:
  "wantByNode ps n k = Some v \<Longrightarrow> \<exists>p \<in> set ps. wanted p \<and> p_nodeName p = n \<and>
     k = (p_namespace p, p_name p) \<and> v = mget (p_labels p) workloadNameLabel"
proof -
  have "fold (\<lambda>p m. if wanted p \<and> p_nodeName p = n
            then m((p_namespace p, p_name p) \<mapsto> mget (p_labels p) workloadNameLabel) else m) ps m k = Some v \<Longrightarrow>
    m k = Some v \<or> (\<exists>p \<in> set ps. wanted p \<and> p_nodeName p = n \<and>
     k = (p_namespace p, p_name p) \<and> v = mget (p_labels p) workloadNameLabel)" for m
    by (induction ps arbitrary: m) (fastforce split: if_splits)+
  then show "wantByNode ps n k = Some v \<Longrightarrow> ?thesis" by (fastforce simp: wantByNode_def)
qed

text \<open>
  A sample of time \<open>t\<close> that a summary in the history \<open>C\<close> vouches for: its workload has a wanted
  pod, the summary came from that pod's node and lists the pod with this counter.
\<close>

definition sample_of :: "(string \<Rightarrow> go_error + string \<Rightarrow> 'n) \<Rightarrow> 'w kubelet \<Rightarrow> pod list \<Rightarrow> int \<Rightarrow>
    'n call set \<Rightarrow> sample \<Rightarrow> bool" where
  "sample_of emb Q pods t C x \<longleftrightarrow> sm_sampledAt x = t \<and>
     (\<exists>p raw su ps nw b. p \<in> set pods \<and> wanted p \<and> sm_name x = mget (p_labels p) workloadNameLabel \<and>
        Other (emb (p_nodeName p) (Inr raw)) \<in> C \<and> kl_decode Q raw = Inr su \<and> ps \<in> set (su_pods su) \<and>
        ps_podRef ps = (p_namespace p, p_name p) \<and> ps_network ps = Some nw \<and> sm_value x = f64_of_uint64 b \<and>
        (sm_metric x = MetricNetworkRxBytes \<and> nw_rxBytes nw = Some b \<or>
         sm_metric x = MetricNetworkTxBytes \<and> nw_txBytes nw = Some b))"

lemma sample_of_mono: "sample_of emb Q pods t C x \<Longrightarrow> C \<subseteq> D \<Longrightarrow> sample_of emb Q pods t D x"
  unfolding sample_of_def by (elim conjE exE, intro conjI exI) auto

lemma podSamples_sound:
  assumes "x \<in> set (podSamples t (wantByNode pods n) ps)" "Other (emb n (Inr raw)) \<in> C"
    and "kl_decode Q raw = Inr su" "ps \<in> set (su_pods su)"
  shows "sample_of emb Q pods t C x"
proof -
  from assms(1) obtain v nw b where v: "wantByNode pods n (ps_podRef ps) = Some v"
    and nw: "ps_network ps = Some nw" and x: "sm_name x = v" "sm_sampledAt x = t" "sm_value x = f64_of_uint64 b"
    and m: "sm_metric x = MetricNetworkRxBytes \<and> nw_rxBytes nw = Some b \<or>
         sm_metric x = MetricNetworkTxBytes \<and> nw_txBytes nw = Some b"
    by (cases "wantByNode pods n (ps_podRef ps)"; cases "ps_network ps")
       (auto simp: podSamples_def split: option.splits)
  from wantByNode_Some [OF v] obtain p where "p \<in> set pods" "wanted p" "p_nodeName p = n"
    "ps_podRef ps = (p_namespace p, p_name p)" "v = mget (p_labels p) workloadNameLabel" by auto
  with assms(2-4) nw x m show ?thesis unfolding sample_of_def by (intro conjI exI) auto
qed

lemma fetch_once: "runs (fetchNodeSummary emb Q n) w r cs w' \<Longrightarrow>
  \<exists>q. cs = [Other (emb n q)] \<and> (\<forall>x. r = Inr x \<longrightarrow> (\<exists>raw. q = Inr raw \<and> kl_decode Q raw = Inr x))"
proof -
  assume "runs (fetchNodeSummary emb Q n) w r cs w'"
  then obtain q where "cs = [Other (emb n q)]" "r = (case q of
       Inl e \<Rightarrow> Inl (Wrap ''requesting stats summary: '' e [])
     | Inr raw \<Rightarrow> (case kl_decode Q raw of
         Inl e \<Rightarrow> Inl (Wrap ''decoding stats summary: '' e [])
       | Inr x \<Rightarrow> Inr x))"
    by (auto simp: fetchNodeSummary_def runs_bind runs_ext runs_return)
  then show ?thesis by (intro exI [of _ q]) (simp split: sum.splits)
qed

lemma collectNodes_sound:
  assumes "runs (collectNodes emb Q t pods ns xs) w ys cs w'" "set cs \<subseteq> C"
    and "list_all (sample_of emb Q pods t C) xs"
  shows "list_all (sample_of emb Q pods t C) ys"
  using assms
proof (induction ns arbitrary: xs w cs)
  case (Cons n ns)
  from Cons.prems(1) obtain r ds1 w1 ds where f: "runs (fetchNodeSummary emb Q n) w r ds1 w1" and cs: "cs = ds1 @ ds"
    and run: "runs (collectNodes emb Q t pods ns (case r of
       Inl _ \<Rightarrow> xs | Inr x \<Rightarrow> xs @ concat (map (podSamples t (wantByNode pods n)) (su_pods x)))) w1 ys ds w'"
    unfolding collectNodes.simps by (rule runs_bindE) simp_all
  have "list_all (sample_of emb Q pods t C) (case r of
       Inl _ \<Rightarrow> xs | Inr x \<Rightarrow> xs @ concat (map (podSamples t (wantByNode pods n)) (su_pods x)))"
  proof (cases r)
    case (Inr x)
    with fetch_once [OF f] cs Cons.prems(2) obtain raw where "Other (emb n (Inr raw)) \<in> C" "kl_decode Q raw = Inr x"
      by auto
    with Cons.prems(3) Inr show ?thesis by (auto simp: list_all_iff intro: podSamples_sound)
  qed (use Cons.prems(3) in simp)
  moreover from cs Cons.prems(2) have "set ds \<subseteq> C" by simp
  ultimately show ?case using Cons.IH [OF run] by simp
qed (simp add: runs_return)

lemma addSummary_counts:
  "NodesReporting (addSummary pods x snap) = NodesReporting snap + 1"
  "NodesTotal (addSummary pods x snap) = NodesTotal snap"
proof -
  have "NodesReporting (fold (addPodUsage pods) ps s) = NodesReporting s \<and>
    NodesTotal (fold (addPodUsage pods) ps s) = NodesTotal s" for ps s
    by (induction ps arbitrary: s) (simp_all add: addPodUsage_def)
  then show "NodesReporting (addSummary pods x snap) = NodesReporting snap + 1"
    "NodesTotal (addSummary pods x snap) = NodesTotal snap"
    by (simp_all add: addSummary_def addNodeUsage_def split: option.split)
qed

lemma usageNodes_runs:
  assumes "runs (usageNodes emb Q pods ns s0) w s cs w'"
  shows "\<exists>rs. length rs \<le> length ns \<and> s = fold (addSummary pods) rs s0 \<and>
    NodesReporting s = NodesReporting s0 + length rs \<and> NodesTotal s = NodesTotal s0 \<and>
    length cs = length ns"
  using assms
proof (induction ns arbitrary: s0 w cs)
  case (Cons n ns)
  from Cons.prems obtain r ds1 w1 ds where "runs (fetchNodeSummary emb Q (n_name n)) w r ds1 w1" "cs = ds1 @ ds"
    and run: "runs (usageNodes emb Q pods ns
      (case r of Inl _ \<Rightarrow> s0 | Inr x \<Rightarrow> addSummary pods x s0)) w1 s ds w'"
    unfolding usageNodes.simps by (rule runs_bindE) simp_all
  then obtain c where cs: "cs = c # ds" using fetch_once by fastforce
  from Cons.IH [OF run] obtain rs where rs: "length rs \<le> length ns"
    "s = fold (addSummary pods) rs (case r of Inl _ \<Rightarrow> s0 | Inr x \<Rightarrow> addSummary pods x s0)"
    "NodesReporting s = NodesReporting (case r of Inl _ \<Rightarrow> s0 | Inr x \<Rightarrow> addSummary pods x s0) + length rs"
    "NodesTotal s = NodesTotal (case r of Inl _ \<Rightarrow> s0 | Inr x \<Rightarrow> addSummary pods x s0)"
    "length ds = length ns" by auto
  show ?case
  proof (cases r)
    case (Inl e)
    with rs cs show ?thesis by (intro exI [of _ rs]) simp
  next
    case (Inr x)
    with rs cs show ?thesis by (intro exI [of _ "x # rs"]) (simp add: addSummary_counts)
  qed
qed (simp add: runs_return)

section \<open>Properties\<close>

text \<open>C38: Every sample \<open>Collect\<close> returns is vouched for: its workload has a scheduled, managed pod
  in the listed namespace, the summary of exactly that pod's node was fetched in this collection
  and lists the pod with this receive or transmit counter, and all samples carry the one clock
  reading of the collection. An unreachable node only leaves samples out.\<close>

theorem Collect_samples_sound:
  assumes "runs (Collect emb order K Q ns :: ('w, 'n, go_error + sample list) kprog) w (Inr samples) cs w'"
  shows "\<exists>pods t. CListPods ns [ManagedBy \<mapsto> ManagedByValue] (Inr pods) \<in> set cs \<and> CNow t \<in> set cs \<and>
    list_all (sample_of emb Q pods t (set cs)) samples"
proof -
  from assms obtain r w1 ds where "k_listPods K ns [ManagedBy \<mapsto> ManagedByValue] w = (r, w1)"
    and cs: "cs = CListPods ns [ManagedBy \<mapsto> ManagedByValue] r # ds"
    and rest: "runs (case r of
       Inl e \<Rightarrow> ret (Inl (Wrap ''listing managed pods: '' e []))
     | Inr pods \<Rightarrow> do {
         t \<leftarrow> now K;
         samples \<leftarrow> collectNodes emb Q t pods (order (wantedNodes pods)) [];
         ret (Inr samples)
       }) w1 (Inr samples) ds w'"
    unfolding Collect_def listPods_def by (rule runs_ext_bindE) simp_all
  from rest obtain pods where r: "r = Inr pods" by (cases r) (simp_all add: runs_return)
  with rest obtain t w2 fs where ds: "ds = CNow t # fs" and
    run: "runs (collectNodes emb Q t pods (order (wantedNodes pods)) []) w2 samples fs w'"
    by (auto simp: runs_bind now_def runs_ext runs_return)
  from ds cs have "set fs \<subseteq> set cs" by auto
  from collectNodes_sound [OF run this] cs r ds show ?thesis by auto
qed

text \<open>A live usage snapshot asks every node of the cluster exactly once and says how complete it
  is: it adds up exactly the summaries that arrived, \<open>NodesReporting\<close> is their number and at
  most \<open>NodesTotal\<close>, the number of nodes. A node that cannot be read never fails the snapshot.\<close>

lemma CollectUsage_complete:
  assumes "k_listNodes K w = (Inr nodes, w1)" "k_listPods K ns [ManagedBy \<mapsto> ManagedByValue] w1 = (Inr pods, w2)"
    and "runs (CollectUsage emb K Q ns) w r cs w'"
  shows "\<exists>snap rs. r = Inr snap \<and> NodesTotal snap = length nodes \<and> NodesReporting snap = length rs \<and>
    NodesReporting snap \<le> NodesTotal snap \<and> length cs = length nodes + 2 \<and>
    snap = fold (addSummary pods) rs \<lparr>ClusterUsedMilliCPU = 0, ClusterUsedMemoryBytes = 0,
      ManagedUsedMilliCPU = 0, ManagedUsedMemoryBytes = 0, NodesReporting = 0, NodesTotal = length nodes\<rparr>"
proof -
  from assms obtain snap ds where "r = Inr snap" "length cs = length ds + 2" and
    run: "runs (usageNodes emb Q pods nodes \<lparr>ClusterUsedMilliCPU = 0, ClusterUsedMemoryBytes = 0,
      ManagedUsedMilliCPU = 0, ManagedUsedMemoryBytes = 0, NodesReporting = 0, NodesTotal = length nodes\<rparr>)
      w2 snap ds w'"
    by (auto simp: CollectUsage_def runs_bind runs_ext runs_return listNodes_def listPods_def)
  with usageNodes_runs [OF run] show ?thesis by auto
qed

section \<open>Witnesses\<close>

definition metric_pod :: pod where
  "metric_pod = \<lparr>p_name = ''p1'', p_namespace = ''ns'', p_labels = [workloadNameLabel \<mapsto> ''w1''],
     p_nodeName = ''n1'', p_phase = ''Running'', p_conditions = []\<rparr>"

definition demo_summary :: json where
  "demo_summary = JObj
     [(''node'', JObj [(''nodeName'', JStr ''n1''), (''cpu'', JObj [(''usageNanoCores'', JNum (show_nat 2500000))])]),
      (''pods'', JArr [JObj [(''podRef'', JObj [(''name'', JStr ''p1''), (''namespace'', JStr ''ns'')]),
         (''memory'', JObj [(''workingSetBytes'', JNum (show_nat 5))]), (''network'', JObj [(''rxBytes'', JNum (show_nat 3))])]])]"

definition demo_kubelet :: "nat kubelet" where
  "demo_kubelet = \<lparr>kl_summary = (\<lambda>n. answer (Inr (encode demo_summary))), kl_jsonError = (\<lambda>s. ErrText ''invalid JSON'')\<rparr>"

lemma decode_demo_summary [simp]:
  "kl_decode demo_kubelet (encode demo_summary) = Inr
     \<lparr>su_node = Some \<lparr>ns_CPU = Some \<lparr>UsageNanoCores = Some 2500000\<rparr>, ns_Memory = None\<rparr>,
      su_pods = [\<lparr>ps_podRef = (''ns'', ''p1''), ps_CPU = None, ps_Memory = Some \<lparr>WorkingSetBytes = Some 5\<rparr>,
        ps_network = Some \<lparr>nw_rxBytes = Some 3, nw_txBytes = None\<rparr>\<rparr>]\<rparr>"
proof -
  have [simp]: "number_literal (show_nat n)" for n using number_literal_int [of "int n"] by (simp add: show_int_def)
  have "Unmarshal (encode demo_summary) = Some demo_summary"
    by (subst read_json_encode(1)) (simp_all add: demo_summary_def maxNestingDepth_def)
  then show ?thesis
    by (simp add: kl_decode_def demo_summary_def summary_fields json_struct_defs zero_podStats_def show_nat_digits decimal_show_nat)
qed

definition pod_kube :: "nat kube" where
  "pod_kube = demo_kube\<lparr>k_listPods := (\<lambda>ns ls. answer (Inr [metric_pod]))\<rparr>"

lemmas demo_metrics = pod_kube_def metric_pod_def demo_kube_simps wantedNodes_def wanted_def
  workloadNameLabel_def fetchNodeSummary_def

theorem Collect_samples_sound_witness:
  "\<exists>samples cs w' pods t. samples \<noteq> [] \<and>
    runs (Collect Pair id pod_kube demo_kubelet ''ns'' :: (nat, string \<times> (go_error + string), go_error + sample list) kprog)
      0 (Inr samples) cs w' \<and> list_all (sample_of Pair demo_kubelet pods t (set cs)) samples"
proof -
  let ?C = "Collect Pair id pod_kube demo_kubelet ''ns'' :: (nat, string \<times> (go_error + string), go_error + sample list) kprog"
  have "\<exists>samples cs w'. samples \<noteq> [] \<and> runs ?C 0 (Inr samples) cs w'"
  proof -
    have "kl_summary demo_kubelet n w = (Inr (encode demo_summary), w)" for n w by (simp add: demo_kubelet_def answer_def)
    then show ?thesis by (simp add: Collect_def runs_rules demo_metrics podSamples_def wantByNode_def)
  qed
  then obtain samples cs w' where run: "samples \<noteq> []" "runs ?C 0 (Inr samples) cs w'" by (elim exE conjE)
  from Collect_samples_sound [OF run(2)] obtain pods t where
    "list_all (sample_of Pair demo_kubelet pods t (set cs)) samples" by (elim exE conjE)
  with run show ?thesis by (intro exI conjI)
qed

end
