(* ===== verification/ConvexWire.thy ===== *)
theory ConvexWire
  imports Metrics
begin

text \<open>
  The bodies the operator exchanges with Convex (internal/convexclient/client.go): the request and
  response structs with their JSON tags. A request is written field by field in the order of its
  struct, an \<open>omitempty\<close> field left out at its zero value; a response is read by a decoder, which finds
  the fields by name and leaves the rest at zero.
\<close>

section \<open>Types\<close>

record clientConfig =
  BaseURL :: string
  EnrollmentSecret :: string
  OperatorName :: string
  ExternalURL :: string
  Metadata :: "params option"
  Version :: string
  Tags :: "string list option"

record registerRequest =
  rg_Name :: string
  rg_ExternalURL :: string
  rg_EnrollmentSecret :: string
  rg_Metadata :: "params option"
  rg_Catalog :: "template list"
  rg_OperatorVersion :: string
  rg_Tags :: "string list option"

record registerResponse =
  rp_HeartbeatToken :: string
  rp_DeployToken :: string

record liveUsageWire =
  lu_ClusterUsedMilliCPU :: int64
  lu_ClusterUsedMemoryBytes :: int64
  lu_ManagedUsedMilliCPU :: int64
  lu_ManagedUsedMemoryBytes :: int64
  lu_NodesReporting :: nat
  lu_NodesTotal :: nat

text \<open>The six optional fields of \<open>resourceCapacityWire\<close> are set together or not at all.\<close>

record resourceCapacityWire =
  rc_AllocatableMilliCPU :: int64
  rc_AllocatableMemoryBytes :: int64
  rc_UsedMilliCPU :: int64
  rc_UsedMemoryBytes :: int64
  rc_live :: "liveUsageWire option"

record heartbeatRequest =
  hb_Name :: string
  hb_ResourceCapacity :: "resourceCapacityWire option"

record claimableWorkload =
  cl_WorkloadID :: string
  cl_TemplateID :: string

record pendingOperation =
  po_WorkloadID :: string
  po_Operation :: string

record heartbeatResponse =
  hr_Claimable :: "claimableWorkload list"
  hr_PendingOperations :: "pendingOperation list"

record claimedWorkload =
  cw_WorkloadID :: string
  cw_Config :: "params option"
  cw_Subdomain :: string
  cw_TemplateID :: string
  cw_TemplateVersion :: string
  cw_UserID :: string

record claimedOperation =
  co_Operation :: string
  co_Name :: string
  co_Namespace :: string
  co_Config :: "params option"
  co_TemplateID :: string
  co_TemplateVersion :: string

record reportLifecycleRequest =
  rl_Name :: string
  rl_WorkloadID :: string
  rl_Phase :: string
  rl_Reason :: string
  rl_Retryable :: bool

record upsertWorkloadRequest =
  up_Name :: string
  up_Namespace :: string
  up_TemplateID :: string
  up_UserID :: string
  up_Subdomain :: string
  up_WorkloadID :: string

record verifyGatewayTokenRequest =
  vg_Token :: string
  vg_Namespace :: string
  vg_Name :: string

record metricSampleRequest =
  ms_Name :: string
  ms_Metric :: string
  ms_Value :: rat
  ms_SampledAt :: int

datatype wire =
    WRegister registerRequest
  | WHeartbeat heartbeatRequest
  | WClaimWorkload string
  | WClaimOperation string
  | WLifecycle reportLifecycleRequest
  | WUpsert upsertWorkloadRequest
  | WVerify verifyGatewayTokenRequest
  | WRemove string string
  | WMetrics "metricSampleRequest list"

section \<open>Requests\<close>

definition int64_json :: "int64 \<Rightarrow> json" where
  "int64_json w = JNum (show_int (sint w))"

definition omit_false :: "string \<Rightarrow> bool \<Rightarrow> (string \<times> json) list" where
  "omit_false k b = (if b then [(k, JBool True)] else [])"

definition omit_map :: "floatText \<Rightarrow> string \<Rightarrow> params option \<Rightarrow> (string \<times> json) list" where
  "omit_map F k m = (case m of
     None \<Rightarrow> []
   | Some m \<Rightarrow> if dom m = {} then [] else [(k, map_json F m)])"

definition registerRequest_json :: "floatText \<Rightarrow> registerRequest \<Rightarrow> json" where
  "registerRequest_json F r = JObj ([(''name'', JStr (rg_Name r)), (''externalUrl'', JStr (rg_ExternalURL r)),
     (''enrollmentSecret'', JStr (rg_EnrollmentSecret r))] @ omit_map F ''metadata'' (rg_Metadata r) @
     [(''catalog'', slice_json (template_json F) (rg_Catalog r))] @ omit_string ''operatorVersion'' (rg_OperatorVersion r) @
     omit_none ''tags'' (\<lambda>ts. JArr (map JStr ts)) (rg_Tags r))"

definition liveUsage_members :: "liveUsageWire \<Rightarrow> (string \<times> json) list" where
  "liveUsage_members u =
     [(''clusterUsedMilliCpu'', int64_json (lu_ClusterUsedMilliCPU u)),
      (''clusterUsedMemoryBytes'', int64_json (lu_ClusterUsedMemoryBytes u)),
      (''managedUsedMilliCpu'', int64_json (lu_ManagedUsedMilliCPU u)),
      (''managedUsedMemoryBytes'', int64_json (lu_ManagedUsedMemoryBytes u)),
      (''nodesReporting'', JNum (show_int (int (lu_NodesReporting u)))),
      (''nodesTotal'', JNum (show_int (int (lu_NodesTotal u))))]"

definition resourceCapacityWire_json :: "resourceCapacityWire \<Rightarrow> json" where
  "resourceCapacityWire_json r = JObj
     ([(''allocatableMilliCpu'', int64_json (rc_AllocatableMilliCPU r)),
       (''allocatableMemoryBytes'', int64_json (rc_AllocatableMemoryBytes r)),
       (''usedMilliCpu'', int64_json (rc_UsedMilliCPU r)), (''usedMemoryBytes'', int64_json (rc_UsedMemoryBytes r))] @
      (case rc_live r of None \<Rightarrow> [] | Some u \<Rightarrow> liveUsage_members u))"

definition heartbeatRequest_json :: "heartbeatRequest \<Rightarrow> json" where
  "heartbeatRequest_json r = JObj ([(''name'', JStr (hb_Name r))] @
     omit_none ''resourceCapacity'' resourceCapacityWire_json (hb_ResourceCapacity r))"

definition claimWorkloadRequest_json :: "string \<Rightarrow> json" where
  "claimWorkloadRequest_json i = JObj [(''workloadId'', JStr i)]"

definition claimOperationRequest_json :: "string \<Rightarrow> json" where
  "claimOperationRequest_json i = JObj [(''workloadId'', JStr i)]"

definition reportLifecycleRequest_json :: "reportLifecycleRequest \<Rightarrow> json" where
  "reportLifecycleRequest_json r = JObj (omit_string ''name'' (rl_Name r) @ omit_string ''workloadId'' (rl_WorkloadID r) @
     [(''phase'', JStr (rl_Phase r))] @ omit_string ''reason'' (rl_Reason r) @ omit_false ''retryable'' (rl_Retryable r))"

definition upsertWorkloadRequest_json :: "upsertWorkloadRequest \<Rightarrow> json" where
  "upsertWorkloadRequest_json r = JObj ([(''name'', JStr (up_Name r)), (''namespace'', JStr (up_Namespace r)),
     (''templateId'', JStr (up_TemplateID r)), (''userId'', JStr (up_UserID r))] @
     omit_string ''subdomain'' (up_Subdomain r) @ omit_string ''workloadId'' (up_WorkloadID r))"

definition verifyGatewayTokenRequest_json :: "verifyGatewayTokenRequest \<Rightarrow> json" where
  "verifyGatewayTokenRequest_json r = JObj [(''token'', JStr (vg_Token r)), (''namespace'', JStr (vg_Namespace r)),
     (''name'', JStr (vg_Name r))]"

definition removeWorkloadRequest_json :: "string \<Rightarrow> string \<Rightarrow> json" where
  "removeWorkloadRequest_json name ns = JObj [(''name'', JStr name), (''namespace'', JStr ns)]"

definition metricSampleRequest_json :: "floatText \<Rightarrow> metricSampleRequest \<Rightarrow> json" where
  "metricSampleRequest_json F r = JObj [(''name'', JStr (ms_Name r)), (''metric'', JStr (ms_Metric r)),
     (''value'', JNum (ft_format F (ms_Value r))), (''sampledAt'', JNum (show_int (ms_SampledAt r)))]"

definition metricsReportRequest_json :: "floatText \<Rightarrow> metricSampleRequest list \<Rightarrow> json" where
  "metricsReportRequest_json F rs = JObj [(''samples'', JArr (map (metricSampleRequest_json F) rs))]"

primrec wire_json :: "floatText \<Rightarrow> wire \<Rightarrow> json" where
  "wire_json F (WRegister r) = registerRequest_json F r"
| "wire_json F (WHeartbeat r) = heartbeatRequest_json r"
| "wire_json F (WClaimWorkload i) = claimWorkloadRequest_json i"
| "wire_json F (WClaimOperation i) = claimOperationRequest_json i"
| "wire_json F (WLifecycle r) = reportLifecycleRequest_json r"
| "wire_json F (WUpsert r) = upsertWorkloadRequest_json r"
| "wire_json F (WVerify r) = verifyGatewayTokenRequest_json r"
| "wire_json F (WRemove name ns) = removeWorkloadRequest_json name ns"
| "wire_json F (WMetrics rs) = metricsReportRequest_json F rs"

section \<open>Responses\<close>

definition read_struct :: "(string \<times> 's setter) list \<Rightarrow> 's \<Rightarrow> string \<Rightarrow> 's option" where
  "read_struct fs zero b = Option.bind (Decode b) (\<lambda>v. to_struct fs v zero)"

definition registerResponse_fields :: "(string \<times> registerResponse setter) list" where
  "registerResponse_fields =
     [(''heartbeatToken'', set_string (\<lambda>x. rp_HeartbeatToken_update (\<lambda>_. x))),
      (''deployToken'', set_string (\<lambda>x. rp_DeployToken_update (\<lambda>_. x)))]"

definition read_register :: "string \<Rightarrow> registerResponse option" where
  "read_register = read_struct registerResponse_fields \<lparr>rp_HeartbeatToken = [], rp_DeployToken = []\<rparr>"

definition claimableWorkloadWire_fields :: "(string \<times> claimableWorkload setter) list" where
  "claimableWorkloadWire_fields =
     [(''workloadId'', set_string (\<lambda>x. cl_WorkloadID_update (\<lambda>_. x))),
      (''templateId'', set_string (\<lambda>x. cl_TemplateID_update (\<lambda>_. x)))]"

definition pendingOperationWire_fields :: "(string \<times> pendingOperation setter) list" where
  "pendingOperationWire_fields =
     [(''workloadId'', set_string (\<lambda>x. po_WorkloadID_update (\<lambda>_. x))),
      (''operation'', set_string (\<lambda>x. po_Operation_update (\<lambda>_. x)))]"

definition heartbeatResponse_fields :: "(string \<times> heartbeatResponse setter) list" where
  "heartbeatResponse_fields =
     [(''claimable'', set_list (to_struct claimableWorkloadWire_fields) \<lparr>cl_WorkloadID = [], cl_TemplateID = []\<rparr>
         hr_Claimable (\<lambda>x. hr_Claimable_update (\<lambda>_. x))),
      (''pendingOperations'', set_list (to_struct pendingOperationWire_fields) \<lparr>po_WorkloadID = [], po_Operation = []\<rparr>
         hr_PendingOperations (\<lambda>x. hr_PendingOperations_update (\<lambda>_. x)))]"

definition read_heartbeat :: "string \<Rightarrow> heartbeatResponse option" where
  "read_heartbeat = read_struct heartbeatResponse_fields \<lparr>hr_Claimable = [], hr_PendingOperations = []\<rparr>"

definition claimWorkloadResponse_fields :: "floatText \<Rightarrow> (string \<times> claimedWorkload setter) list" where
  "claimWorkloadResponse_fields F =
     [(''workloadId'', set_string (\<lambda>x. cw_WorkloadID_update (\<lambda>_. x))),
      (''config'', set_map F cw_Config (\<lambda>x. cw_Config_update (\<lambda>_. x))),
      (''subdomain'', set_string (\<lambda>x. cw_Subdomain_update (\<lambda>_. x))),
      (''templateId'', set_string (\<lambda>x. cw_TemplateID_update (\<lambda>_. x))),
      (''templateVersion'', set_string (\<lambda>x. cw_TemplateVersion_update (\<lambda>_. x))),
      (''userId'', set_string (\<lambda>x. cw_UserID_update (\<lambda>_. x)))]"

definition read_claimedWorkload :: "floatText \<Rightarrow> string \<Rightarrow> claimedWorkload option" where
  "read_claimedWorkload F = read_struct (claimWorkloadResponse_fields F)
     \<lparr>cw_WorkloadID = [], cw_Config = None, cw_Subdomain = [], cw_TemplateID = [], cw_TemplateVersion = [], cw_UserID = []\<rparr>"

definition claimOperationResponse_fields :: "floatText \<Rightarrow> (string \<times> claimedOperation setter) list" where
  "claimOperationResponse_fields F =
     [(''operation'', set_string (\<lambda>x. co_Operation_update (\<lambda>_. x))),
      (''name'', set_string (\<lambda>x. co_Name_update (\<lambda>_. x))),
      (''namespace'', set_string (\<lambda>x. co_Namespace_update (\<lambda>_. x))),
      (''config'', set_map F co_Config (\<lambda>x. co_Config_update (\<lambda>_. x))),
      (''templateId'', set_string (\<lambda>x. co_TemplateID_update (\<lambda>_. x))),
      (''templateVersion'', set_string (\<lambda>x. co_TemplateVersion_update (\<lambda>_. x)))]"

definition read_claimedOperation :: "floatText \<Rightarrow> string \<Rightarrow> claimedOperation option" where
  "read_claimedOperation F = read_struct (claimOperationResponse_fields F)
     \<lparr>co_Operation = [], co_Name = [], co_Namespace = [], co_Config = None, co_TemplateID = [], co_TemplateVersion = []\<rparr>"

definition verifyGatewayTokenResponse_fields :: "(string \<times> string setter) list" where
  "verifyGatewayTokenResponse_fields = [(''userId'', set_string (\<lambda>x _. x))]"

definition read_verify :: "string \<Rightarrow> string option" where
  "read_verify = read_struct verifyGatewayTokenResponse_fields []"

text \<open>The configuration of a claim was read from JSON.\<close>

lemma read_struct_invariant:
  assumes keeps: "\<And>n f v s s'. (n, f) \<in> set fs \<Longrightarrow> tidy maxNestingDepth v \<Longrightarrow> P s \<Longrightarrow> f v s = Some s' \<Longrightarrow> P s'"
    and "read_struct fs zero b = Some s'" "P zero"
  shows "P s'"
proof -
  from assms(2) obtain v where v: "Decode b = Some v" "to_struct fs v zero = Some s'"
    by (auto simp: read_struct_def split: bind_splits)
  show ?thesis by (rule to_struct_invariant [where P = P, OF _ v(2) Decode_tidy [OF v(1)] assms(3)]) (rule keeps)
qed

lemma set_string_Some: "set_string upd v s = Some s' \<Longrightarrow> s' = s \<or> (\<exists>x. s' = upd x s)"
  by (auto simp: set_string_def split: json.splits)

lemma claimed_config_read:
  assumes "read_claimedWorkload F b = Some c"
  shows "read_config F (cw_Config c)"
  using assms unfolding read_claimedWorkload_def
  by (rule read_struct_invariant [where P = "\<lambda>c. read_config F (cw_Config c)", rotated])
     (auto simp: read_config_def claimWorkloadResponse_fields_def
       dest!: set_string_Some elim!: set_map_read [unfolded read_config_def])

lemmas wire_read_defs = read_struct_def json_struct_defs read_register_def registerResponse_fields_def
  read_heartbeat_def heartbeatResponse_fields_def claimableWorkloadWire_fields_def pendingOperationWire_fields_def
  read_claimedWorkload_def claimWorkloadResponse_fields_def read_claimedOperation_def claimOperationResponse_fields_def
  read_verify_def verifyGatewayTokenResponse_fields_def

end
