(* ===== verification/ConvexClient.thy ===== *)
theory ConvexClient
  imports ConvexWire
begin

text \<open>
  The HTTP client for the Convex control plane (internal/convexclient/client.go). Each operation
  posts one JSON body and reads the status of the answer; the bodies are in theory \<open>ConvexWire\<close>.
  The check \<open>http.NewRequest\<close> makes of a URL and the transport are the parameter \<open>'w convex\<close>; a
  request is recorded in the history with the value its body encodes. Every operation follows the same
  steps, which are the program \<open>post\<close>, and wraps errors with its own name.
\<close>

section \<open>Requests and answers\<close>

record httpRequest =
  rq_method :: string
  rq_url :: string
  rq_headers :: "string strmap"
  rq_body :: string

record httpResponse =
  rs_StatusCode :: int
  rs_Body :: string

text \<open>What the package relies on outside itself: the texts of numbers and of decoding errors, the check
  of a URL, and the transport.\<close>

record 'w convex =
  cv_floats :: floatText
  cv_jsonError :: "string \<Rightarrow> go_error"
  cv_newRequest :: "string \<Rightarrow> go_error option"
  cv_do :: "httpRequest \<Rightarrow> 'w \<Rightarrow> (go_error + httpResponse) \<times> 'w"

definition cv_marshal :: "'w convex \<Rightarrow> wire \<Rightarrow> go_error + string" where
  "cv_marshal C v = Marshal (wire_json (cv_floats C) v)"

definition decoded :: "'w convex \<Rightarrow> (string \<Rightarrow> 'a option) \<Rightarrow> string \<Rightarrow> go_error + 'a" where
  "decoded C rd b = (case rd b of None \<Rightarrow> Inl (cv_jsonError C b) | Some x \<Rightarrow> Inr x)"

abbreviation cv_decodeRegister :: "'w convex \<Rightarrow> string \<Rightarrow> go_error + registerResponse" where
  "cv_decodeRegister C \<equiv> decoded C read_register"

abbreviation cv_decodeHeartbeat :: "'w convex \<Rightarrow> string \<Rightarrow> go_error + heartbeatResponse" where
  "cv_decodeHeartbeat C \<equiv> decoded C read_heartbeat"

abbreviation cv_decodeClaimWorkload :: "'w convex \<Rightarrow> string \<Rightarrow> go_error + claimedWorkload" where
  "cv_decodeClaimWorkload C \<equiv> decoded C (read_claimedWorkload (cv_floats C))"

abbreviation cv_decodeClaimOperation :: "'w convex \<Rightarrow> string \<Rightarrow> go_error + claimedOperation" where
  "cv_decodeClaimOperation C \<equiv> decoded C (read_claimedOperation (cv_floats C))"

abbreviation cv_decodeVerify :: "'w convex \<Rightarrow> string \<Rightarrow> go_error + string" where
  "cv_decodeVerify C \<equiv> decoded C read_verify"

lemma cv_marshal_Inr [simp]: "cv_marshal C v = Inr (encode (wire_json (cv_floats C) v))"
  by (simp add: cv_marshal_def Marshal_def)

text \<open>
  The external calls of the package besides the API server: requests to Convex, kubelet
  summaries, and reads of the mounted enrollment secret.
\<close>

datatype rcall =
    HDo httpRequest wire "go_error + httpResponse"
  | KSummary string "go_error + string"
  | RFile string "go_error + string"

type_synonym ('w, 'a) rprog = "('w, rcall, 'a) kprog"

section \<open>Operations\<close>

definition tagsFingerprintUnset :: string where "tagsFingerprintUnset = ''unset''"

definition Client_TagsFingerprint :: "clientConfig \<Rightarrow> string" where
  "Client_TagsFingerprint c = (case Tags c of
     None \<Rightarrow> tagsFingerprintUnset
   | Some ts \<Rightarrow> ''set:'' @ join '','' ts)"

definition post_request :: "string \<Rightarrow> string option \<Rightarrow> string \<Rightarrow> httpRequest" where
  "post_request url token body = \<lparr>rq_method = ''POST'', rq_url = url,
     rq_headers = (case token of
        None \<Rightarrow> [''Content-Type'' \<mapsto> ''application/json'']
      | Some t \<Rightarrow> [''Content-Type'' \<mapsto> ''application/json'', ''Authorization'' \<mapsto> ''Bearer '' @ t]),
     rq_body = body\<rparr>"

definition post :: "'w convex \<Rightarrow> string \<Rightarrow> string \<Rightarrow> string option \<Rightarrow> wire \<Rightarrow>
    ('w, go_error + httpResponse) rprog" where
  "post C url what token v = (case cv_marshal C v of
     Inl e \<Rightarrow> ret (Inl (Wrap (''marshaling '' @ what @ '' request: '') e []))
   | Inr body \<Rightarrow>
     (case cv_newRequest C url of
        Some e \<Rightarrow> ret (Inl (Wrap (''building '' @ what @ '' request: '') e []))
      | None \<Rightarrow> do {
          r \<leftarrow> ext (cv_do C (post_request url token body)) (\<lambda>r. Other (HDo (post_request url token body) v r));
          ret (case r of Inl e \<Rightarrow> Inl (Wrap (''calling '' @ what @ '': '') e []) | Inr resp \<Rightarrow> Inr resp)
        }))"

definition status_error :: "string \<Rightarrow> httpResponse \<Rightarrow> go_error" where
  "status_error what resp = ErrText (what @ '' returned status '' @ show_int (rs_StatusCode resp))"

definition decode_body :: "string \<Rightarrow> (string \<Rightarrow> go_error + 'a) \<Rightarrow> httpResponse \<Rightarrow> go_error + 'a" where
  "decode_body what d resp = (case d (rs_Body resp) of
     Inl e \<Rightarrow> Inl (Wrap (''decoding '' @ what @ '' response: '') e [])
   | Inr x \<Rightarrow> Inr x)"

definition Client_Register :: "lib \<Rightarrow> 'w convex \<Rightarrow> clientConfig \<Rightarrow> ('w, go_error + tokens) rprog" where
  "Client_Register L C c = do {
     r \<leftarrow> post C (BaseURL c @ ''/operators/register'') ''register'' None
       (WRegister \<lparr>rg_Name = OperatorName c, rg_ExternalURL = ExternalURL c,
          rg_EnrollmentSecret = EnrollmentSecret c, rg_Metadata = Metadata c,
          rg_Catalog = List_templates L, rg_OperatorVersion = Version c, rg_Tags = Tags c\<rparr>);
     ret (case r of
       Inl e \<Rightarrow> Inl e
     | Inr resp \<Rightarrow>
         if rs_StatusCode resp \<noteq> 200 then Inl (status_error ''register'' resp)
         else (case decode_body ''register'' (cv_decodeRegister C) resp of
           Inl e \<Rightarrow> Inl e
         | Inr out \<Rightarrow> Inr (no_tokens\<lparr>HeartbeatToken := rp_HeartbeatToken out, DeployToken := rp_DeployToken out\<rparr>)))
   }"

definition capacityWire :: "snapshot option \<Rightarrow> usageSnapshot option \<Rightarrow> resourceCapacityWire option" where
  "capacityWire snap usage = map_option (\<lambda>s.
     \<lparr>rc_AllocatableMilliCPU = AllocatableMilliCPU s, rc_AllocatableMemoryBytes = AllocatableMemoryBytes s,
      rc_UsedMilliCPU = UsedMilliCPU s, rc_UsedMemoryBytes = UsedMemoryBytes s,
      rc_live = map_option (\<lambda>u.
        \<lparr>lu_ClusterUsedMilliCPU = ClusterUsedMilliCPU u, lu_ClusterUsedMemoryBytes = ClusterUsedMemoryBytes u,
         lu_ManagedUsedMilliCPU = ManagedUsedMilliCPU u, lu_ManagedUsedMemoryBytes = ManagedUsedMemoryBytes u,
         lu_NodesReporting = NodesReporting u, lu_NodesTotal = NodesTotal u\<rparr>) usage\<rparr>) snap"

definition Client_Heartbeat :: "'w convex \<Rightarrow> clientConfig \<Rightarrow> string \<Rightarrow> snapshot option \<Rightarrow> usageSnapshot option \<Rightarrow>
    ('w, go_error + claimableWorkload list \<times> pendingOperation list) rprog" where
  "Client_Heartbeat C c token snap usage = do {
     r \<leftarrow> post C (BaseURL c @ ''/operators/heartbeat'') ''heartbeat'' (Some token)
       (WHeartbeat \<lparr>hb_Name = OperatorName c, hb_ResourceCapacity = capacityWire snap usage\<rparr>);
     ret (case r of
       Inl e \<Rightarrow> Inl e
     | Inr resp \<Rightarrow>
         if rs_StatusCode resp = 200 then
           (case decode_body ''heartbeat'' (cv_decodeHeartbeat C) resp of
              Inl e \<Rightarrow> Inl e
            | Inr out \<Rightarrow> Inr (hr_Claimable out, hr_PendingOperations out))
         else if rs_StatusCode resp \<in> {401, 410} then Inl (Sentinel ErrUnauthorized)
         else Inl (status_error ''heartbeat'' resp))
   }"

definition claim_result :: "string \<Rightarrow> (string \<Rightarrow> go_error + 'a) \<Rightarrow> go_error + httpResponse \<Rightarrow>
    go_error + 'a option" where
  "claim_result what d r = (case r of
     Inl e \<Rightarrow> Inl e
   | Inr resp \<Rightarrow>
       if rs_StatusCode resp = 200 then
         (case decode_body what d resp of Inl e \<Rightarrow> Inl e | Inr out \<Rightarrow> Inr (Some out))
       else if rs_StatusCode resp \<in> {404, 409} then Inr None
       else Inl (status_error what resp))"

definition Client_ClaimWorkload :: "'w convex \<Rightarrow> clientConfig \<Rightarrow> string \<Rightarrow> string \<Rightarrow>
    ('w, go_error + claimedWorkload option) rprog" where
  "Client_ClaimWorkload C c token workloadID = do {
     r \<leftarrow> post C (BaseURL c @ ''/operators/workloads/claim'') ''claim workload'' (Some token)
       (WClaimWorkload workloadID);
     ret (claim_result ''claim workload'' (cv_decodeClaimWorkload C) r)
   }"

definition Client_ClaimOperation :: "'w convex \<Rightarrow> clientConfig \<Rightarrow> string \<Rightarrow> string \<Rightarrow>
    ('w, go_error + claimedOperation option) rprog" where
  "Client_ClaimOperation C c token workloadID = do {
     r \<leftarrow> post C (BaseURL c @ ''/operators/workloads/claim-operation'') ''claim operation'' (Some token)
       (WClaimOperation workloadID);
     ret (claim_result ''claim operation'' (cv_decodeClaimOperation C) r)
   }"

definition ok_result :: "string \<Rightarrow> go_error + httpResponse \<Rightarrow> go_error option" where
  "ok_result what r = (case r of
     Inl e \<Rightarrow> Some e
   | Inr resp \<Rightarrow> if rs_StatusCode resp \<noteq> 200 then Some (status_error what resp) else None)"

definition Client_ReportLifecycle :: "'w convex \<Rightarrow> clientConfig \<Rightarrow> string \<Rightarrow> string \<Rightarrow> string \<Rightarrow> string \<Rightarrow>
    string \<Rightarrow> bool \<Rightarrow> ('w, go_error option) rprog" where
  "Client_ReportLifecycle C c token name workloadID ph reason retryable = do {
     r \<leftarrow> post C (BaseURL c @ ''/operators/workloads/lifecycle'') ''report lifecycle'' (Some token)
       (WLifecycle \<lparr>rl_Name = name, rl_WorkloadID = workloadID, rl_Phase = ph, rl_Reason = reason,
          rl_Retryable = retryable\<rparr>);
     ret (case r of
       Inl e \<Rightarrow> Some e
     | Inr resp \<Rightarrow> if rs_StatusCode resp = 409 then Some (Sentinel ErrLifecycleStale)
                   else ok_result ''report lifecycle'' (Inr resp))
   }"

definition Client_UpsertWorkload :: "'w convex \<Rightarrow> clientConfig \<Rightarrow> string \<Rightarrow> workloadInfo \<Rightarrow>
    ('w, go_error option) rprog" where
  "Client_UpsertWorkload C c token info = do {
     r \<leftarrow> post C (BaseURL c @ ''/operators/workloads/upsert'') ''upsert workload'' (Some token)
       (WUpsert \<lparr>up_Name = wi_name info, up_Namespace = wi_namespace info,
          up_TemplateID = wi_templateName info, up_UserID = wi_userID info,
          up_Subdomain = wi_subdomain info, up_WorkloadID = wi_workloadID info\<rparr>);
     ret (ok_result ''upsert workload'' r)
   }"

definition Client_VerifyGatewayToken :: "'w convex \<Rightarrow> clientConfig \<Rightarrow> string \<Rightarrow> string \<Rightarrow> string \<Rightarrow> string \<Rightarrow>
    ('w, go_error + string) rprog" where
  "Client_VerifyGatewayToken C c heartbeatToken token ns name = do {
     r \<leftarrow> post C (BaseURL c @ ''/operators/gateway/verify'') ''verify gateway token'' (Some heartbeatToken)
       (WVerify \<lparr>vg_Token = token, vg_Namespace = ns, vg_Name = name\<rparr>);
     ret (case r of
       Inl e \<Rightarrow> Inl e
     | Inr resp \<Rightarrow>
         if rs_StatusCode resp \<noteq> 200 then Inl (status_error ''verify gateway token'' resp)
         else decode_body ''verify gateway token'' (cv_decodeVerify C) resp)
   }"

definition Client_RemoveWorkload :: "'w convex \<Rightarrow> clientConfig \<Rightarrow> string \<Rightarrow> string \<Rightarrow> string \<Rightarrow>
    ('w, go_error option) rprog" where
  "Client_RemoveWorkload C c token name ns = do {
     r \<leftarrow> post C (BaseURL c @ ''/operators/workloads/remove'') ''remove workload'' (Some token)
       (WRemove name ns);
     ret (ok_result ''remove workload'' r)
   }"

definition unix_milli :: "int \<Rightarrow> int" where
  "unix_milli t = t div 1000000"

definition Client_ReportMetrics :: "'w convex \<Rightarrow> clientConfig \<Rightarrow> string \<Rightarrow> sample list \<Rightarrow>
    ('w, go_error option) rprog" where
  "Client_ReportMetrics C c token samples =
     (if length samples = 0 then ret None else do {
        r \<leftarrow> post C (BaseURL c @ ''/operators/metrics/report'') ''metrics report'' (Some token)
          (WMetrics (map (\<lambda>s. \<lparr>ms_Name = sm_name s, ms_Metric = sm_metric s, ms_Value = sm_value s,
             ms_SampledAt = unix_milli (sm_sampledAt s)\<rparr>) samples));
        ret (ok_result ''metrics report'' r)
      })"

lemmas client_ops = Client_Register_def Client_Heartbeat_def Client_ClaimWorkload_def
  Client_ClaimOperation_def Client_ReportLifecycle_def Client_UpsertWorkload_def
  Client_VerifyGatewayToken_def Client_RemoveWorkload_def Client_ReportMetrics_def

section \<open>Lemmas\<close>

lemma proper_post [simp]: "proper (post C url what token v)"
  by (simp add: post_def)

lemma proper_client [simp]:
  "proper (Client_Register L C c)" "proper (Client_Heartbeat C c t snap usage)"
  "proper (Client_ClaimWorkload C c t i)" "proper (Client_ClaimOperation C c t i)"
  "proper (Client_ReportLifecycle C c t n i ph reason b)" "proper (Client_UpsertWorkload C c t info)"
  "proper (Client_VerifyGatewayToken C c t tok ns n)" "proper (Client_RemoveWorkload C c t n ns)"
  "proper (Client_ReportMetrics C c t xs)"
  by (simp_all add: client_ops)

text \<open>One run of \<open>post\<close>: no call and a wrapped error, or exactly one request and its outcome.\<close>

lemma post_runs:
  assumes "runs (post C url what token v) w r cs w'"
  obtains (unsent) p e where "r = Inl (Wrap p e [])" "cs = []" "w' = w"
      "(\<exists>e. cv_marshal C v = Inl e) \<or> (\<exists>e. cv_newRequest C url = Some e)"
    | (failed) body e where "cv_do C (post_request url token body) w = (Inl e, w')"
      "cs = [Other (HDo (post_request url token body) v (Inl e))]" "\<exists>p. r = Inl (Wrap p e [])"
      "cv_marshal C v = Inr body"
    | (answered) body resp where "cv_do C (post_request url token body) w = (Inr resp, w')"
      "cs = [Other (HDo (post_request url token body) v (Inr resp))]" "r = Inr resp"
      "cv_marshal C v = Inr body"
proof (cases "cv_marshal C v")
  case (Inl e)
  with assms show ?thesis by (intro unsent) (auto simp: post_def runs_return)
next
  case (Inr body)
  show ?thesis
  proof (cases "cv_newRequest C url")
    case (Some e)
    with assms Inr show ?thesis by (intro unsent) (auto simp: post_def runs_return)
  next
    case None
    with assms Inr obtain q where q: "cv_do C (post_request url token body) w = (q, w')"
        "cs = [Other (HDo (post_request url token body) v q)]"
        "r = (case q of Inl e \<Rightarrow> Inl (Wrap (''calling '' @ what @ '': '') e []) | Inr resp \<Rightarrow> Inr resp)"
      by (auto simp: post_def runs_bind runs_ext runs_return)
    with Inr show ?thesis by (cases q) (auto intro: failed answered)
  qed
qed

text \<open>A client operation makes at most one request, of the given value, with the given token.\<close>

definition sends :: "string option \<Rightarrow> wire \<Rightarrow> rcall call \<Rightarrow> bool" where
  "sends token v c \<longleftrightarrow> (\<exists>url body q. c = Other (HDo (post_request url token body) v q))"

lemma emits_post: "emits (sends token v) (post C url what token v)"
  unfolding post_def by (intro emits_intros) (auto simp: sends_def)

lemma sends_inj [simp]:
  "sends token v (Other (HDo rq v' q)) \<longleftrightarrow> v' = v \<and> (\<exists>url body. rq = post_request url token body)"
  by (auto simp: sends_def)

section \<open>Properties\<close>

text \<open>\<open>Heartbeat\<close> reports \<open>ErrUnauthorized\<close>, the one error on which the operator discards its
  credentials, exactly when Convex answered 401 or 410 to the request carrying the given token.
  No transport, encoding or decoding failure is mistaken for a rejection.\<close>

lemma heartbeat_rejected_exactly:
  assumes "runs (Client_Heartbeat C c token snap usage) w r cs w'"
  shows "r = Inl (Sentinel ErrUnauthorized) \<longleftrightarrow>
    (\<exists>rq v resp. cs = [Other (HDo rq v (Inr resp))] \<and> rs_StatusCode resp \<in> {401, 410} \<and>
       rq_headers rq ''Authorization'' = Some (''Bearer '' @ token))"
proof -
  let ?v = "WHeartbeat \<lparr>hb_Name = OperatorName c, hb_ResourceCapacity = capacityWire snap usage\<rparr>"
  from assms obtain q ds w1 where post: "runs (post C (BaseURL c @ ''/operators/heartbeat'') ''heartbeat''
      (Some token) ?v) w q ds w1" and "cs = ds" and
    r: "r = (case q of
       Inl e \<Rightarrow> Inl e
     | Inr resp \<Rightarrow>
         if rs_StatusCode resp = 200 then
           (case decode_body ''heartbeat'' (cv_decodeHeartbeat C) resp of
              Inl e \<Rightarrow> Inl e
            | Inr out \<Rightarrow> Inr (hr_Claimable out, hr_PendingOperations out))
         else if rs_StatusCode resp \<in> {401, 410} then Inl (Sentinel ErrUnauthorized)
         else Inl (status_error ''heartbeat'' resp))"
    by (auto simp: Client_Heartbeat_def runs_bind runs_return)
  from post show ?thesis
  proof (cases rule: post_runs)
    case (answered body resp)
    then show ?thesis using \<open>cs = ds\<close> r
      by (auto simp: decode_body_def status_error_def post_request_def split: sum.splits)
  qed (use \<open>cs = ds\<close> r in auto)
qed

text \<open>A claim is given up without an error exactly when Convex answered 404 or 409 to it, and won
  exactly when Convex answered 200 with a body that decodes, which is what the caller gets.\<close>

lemma claim_outcome_exact:
  assumes "runs (Client_ClaimWorkload C c token i) w r cs w'"
  shows "(r = Inr None \<longleftrightarrow>
      (\<exists>rq resp. cs = [Other (HDo rq (WClaimWorkload i) (Inr resp))] \<and> rs_StatusCode resp \<in> {404, 409})) \<and>
    (\<forall>x. r = Inr (Some x) \<longleftrightarrow>
      (\<exists>rq resp. cs = [Other (HDo rq (WClaimWorkload i) (Inr resp))] \<and> rs_StatusCode resp = 200 \<and>
         cv_decodeClaimWorkload C (rs_Body resp) = Inr x))"
proof -
  from assms obtain q ds w1 where post: "runs (post C (BaseURL c @ ''/operators/workloads/claim'') ''claim workload''
      (Some token) (WClaimWorkload i)) w q ds w1" and "cs = ds" and
    r: "r = claim_result ''claim workload'' (cv_decodeClaimWorkload C) q"
    by (auto simp: Client_ClaimWorkload_def runs_bind runs_return)
  from post show ?thesis
  proof (cases rule: post_runs)
    case (answered body resp)
    then show ?thesis using \<open>cs = ds\<close> r
      by (auto simp: claim_result_def decode_body_def split: sum.splits)
  qed (use \<open>cs = ds\<close> r in \<open>auto simp: claim_result_def\<close>)
qed

section \<open>Witnesses\<close>

text \<open>A control plane that gives every request the same answer; each operation reads its own fields.\<close>

definition demo_claim :: claimedWorkload where
  "demo_claim = \<lparr>cw_WorkloadID = ''wl1'', cw_Config = None, cw_Subdomain = [],
     cw_TemplateID = ''nginx'', cw_TemplateVersion = ''1.0.0'', cw_UserID = ''u1''\<rparr>"

definition demo_op :: claimedOperation where
  "demo_op = \<lparr>co_Operation = ''destroy'', co_Name = ''w1'', co_Namespace = ''ns'', co_Config = None,
     co_TemplateID = ''nginx'', co_TemplateVersion = ''1.0.0''\<rparr>"

definition demo_answer :: json where
  "demo_answer = JObj
     [(''heartbeatToken'', JStr ''h''), (''deployToken'', JStr ''d''),
      (''claimable'', JArr [JObj [(''workloadId'', JStr ''wl1''), (''templateId'', JStr ''nginx'')]]),
      (''pendingOperations'', JArr [JObj [(''workloadId'', JStr ''wl2''), (''operation'', JStr ''destroy'')]]),
      (''workloadId'', JStr ''wl1''), (''templateId'', JStr ''nginx''), (''templateVersion'', JStr ''1.0.0''),
      (''userId'', JStr ''u1''), (''operation'', JStr ''destroy''), (''name'', JStr ''w1''), (''namespace'', JStr ''ns'')]"

definition demo_body :: string where
  "demo_body = encode demo_answer"

definition demo_convex :: "int \<Rightarrow> 'w convex" where
  "demo_convex st = \<lparr>cv_floats = int_floats, cv_jsonError = (\<lambda>b. ErrText ''invalid JSON''), cv_newRequest = (\<lambda>u. None),
     cv_do = (\<lambda>rq. answer (Inr \<lparr>rs_StatusCode = st, rs_Body = demo_body\<rparr>))\<rparr>"

definition demo_config :: clientConfig where
  "demo_config = \<lparr>BaseURL = ''https://c'', EnrollmentSecret = ''s'', OperatorName = ''op'', ExternalURL = [],
     Metadata = None, Version = ''v1'', Tags = None\<rparr>"

lemma Decode_demo_body [simp]: "Decode demo_body = Some demo_answer"
  using read_json_encode(2) [of demo_answer "[]"] by (simp add: demo_body_def demo_answer_def maxNestingDepth_def)

lemma demo_reads [simp]:
  "read_register demo_body = Some \<lparr>rp_HeartbeatToken = ''h'', rp_DeployToken = ''d''\<rparr>"
  "read_heartbeat demo_body = Some \<lparr>hr_Claimable = [\<lparr>cl_WorkloadID = ''wl1'', cl_TemplateID = ''nginx''\<rparr>],
     hr_PendingOperations = [\<lparr>po_WorkloadID = ''wl2'', po_Operation = ''destroy''\<rparr>]\<rparr>"
  "read_claimedWorkload F demo_body = Some demo_claim" "read_claimedOperation F demo_body = Some demo_op"
  "read_verify demo_body = Some ''u1''"
  subgoal by (simp add: wire_read_defs demo_answer_def)
  subgoal by (simp add: wire_read_defs demo_answer_def)
  subgoal by (simp add: wire_read_defs demo_answer_def demo_claim_def)
  subgoal by (simp add: wire_read_defs demo_answer_def demo_op_def)
  subgoal by (simp add: wire_read_defs demo_answer_def)
  done

lemma demo_decodes [simp]:
  "cv_decodeRegister C demo_body = Inr \<lparr>rp_HeartbeatToken = ''h'', rp_DeployToken = ''d''\<rparr>"
  "decoded C (read_claimedWorkload F) demo_body = Inr demo_claim"
  "decoded C (read_claimedOperation F) demo_body = Inr demo_op"
  by (simp_all add: decoded_def)

lemma demo_convex_simps [simp]:
  "cv_newRequest (demo_convex st) u = None" "cv_floats (demo_convex st) = int_floats"
  "cv_do (demo_convex st) rq w = (Inr \<lparr>rs_StatusCode = st, rs_Body = demo_body\<rparr>, w)"
  by (simp_all add: demo_convex_def answer_def)

end
