(* ===== verification/Runnable.thy ===== *)
theory Runnable
  imports ConvexClient
begin

text \<open>
  The registration and claim loop (internal/convexclient/runnable.go, enrollment.go). The fields
  of \<open>Runnable\<close> that never change are the record \<open>'w runnable\<close>; those that do, the tokens and the
  client's configuration with its enrollment secret, are the record \<open>rstate\<close>, which each method
  that writes them returns. The only writer is the goroutine of \<open>Start\<close>, so a method that holds
  the read lock sees one of the states between two writes. \<open>capacity\<close> and \<open>usage\<close> are interfaces;
  \<open>creator\<close> and \<open>destroyer\<close> are given by the namespace they work in. A nil pointer is \<open>None\<close>.
\<close>

section \<open>State\<close>

definition maxClaimsPerTick :: nat where "maxClaimsPerTick = 5"
definition maxPendingOperationsPerTick :: nat where "maxPendingOperationsPerTick = 5"
definition operationDestroy :: string where "operationDestroy = ''destroy''"
definition operationRedeploy :: string where "operationRedeploy = ''redeploy''"
definition operationStop :: string where "operationStop = ''stop''"
definition operationResume :: string where "operationResume = ''resume''"
definition claimPhaseFailed :: string where "claimPhaseFailed = ''failed''"
definition reasonTemplateVersionMismatch :: string where
  "reasonTemplateVersionMismatch = ''template changed since request; please resubmit''"

lemmas operation_defs = operationDestroy_def operationRedeploy_def operationStop_def operationResume_def

record 'w runnable =
  rn_lib :: lib
  rn_digest :: "string \<Rightarrow> string"
  rn_kube :: "'w kube"
  rn_convex :: "'w convex"
  rn_store :: string
  rn_readFile :: "string \<Rightarrow> 'w \<Rightarrow> (go_error + string) \<times> 'w"
  rn_enrollmentPath :: string
  rn_creator :: "string option"
  rn_destroyer :: "string option"
  rn_capacity :: "('w, go_error + snapshot) rprog option"
  rn_usage :: "('w, go_error + usageSnapshot) rprog option"

record rstate =
  rs_config :: clientConfig
  rs_tokens :: tokens

section \<open>Registration\<close>

definition EnrollmentSecretPath :: string where
  "EnrollmentSecretPath = ''/etc/ai-cloud-operator/enrollment/ENROLLMENT_SECRET''"

definition NewEnrollmentSecretWatcher :: "string \<Rightarrow> string" where
  "NewEnrollmentSecretWatcher path = (if path = [] then EnrollmentSecretPath else path)"

definition Current :: "'w runnable \<Rightarrow> ('w, go_error + string) rprog" where
  "Current R = do {
     r \<leftarrow> ext (rn_readFile R (rn_enrollmentPath R)) (\<lambda>r. Other (RFile (rn_enrollmentPath R) r));
     ret (case r of
       Inl e \<Rightarrow> Inl (Wrap ''reading enrollment secret file: '' e [])
     | Inr text \<Rightarrow> Inr (trim_space text))
   }"

definition catalogHash :: "'w runnable \<Rightarrow> string" where
  "catalogHash R = Hash (rn_digest R) (rn_lib R)"

definition register :: "'w runnable \<Rightarrow> rstate \<Rightarrow> ('w, go_error option \<times> rstate) rprog" where
  "register R s = do {
     r \<leftarrow> Client_Register (rn_lib R) (rn_convex R) (rs_config s);
     case r of
       Inl e \<Rightarrow> ret (Some e, s)
     | Inr t \<Rightarrow> do {
         let t' = t\<lparr>CatalogHash := catalogHash R, OperatorVersion := Version (rs_config s),
                    TagsFingerprint := Client_TagsFingerprint (rs_config s)\<rparr>;
         e \<leftarrow> Save (rn_kube R) (rn_store R) t';
         ret (case e of Some e \<Rightarrow> (Some e, s) | None \<Rightarrow> (None, s\<lparr>rs_tokens := t'\<rparr>))
       }
   }"

definition checkEnrollmentSecret :: "'w runnable \<Rightarrow> rstate \<Rightarrow> ('w, rstate) rprog" where
  "checkEnrollmentSecret R s = do {
     r \<leftarrow> Current R;
     case r of
       Inl _ \<Rightarrow> ret s
     | Inr cur \<Rightarrow>
         if cur = [] \<or> cur = EnrollmentSecret (rs_config s) then ret s
         else do {
           (e, s') \<leftarrow> register R (s\<lparr>rs_config := (rs_config s)\<lparr>EnrollmentSecret := cur\<rparr>\<rparr>);
           ret s'
         }
   }"

text \<open>The three fingerprints that must still match for persisted tokens to be reused.\<close>

definition unchanged :: "'w runnable \<Rightarrow> clientConfig \<Rightarrow> tokens \<Rightarrow> bool" where
  "unchanged R c t \<longleftrightarrow> CatalogHash t = catalogHash R \<and> OperatorVersion t = Version c \<and>
     TagsFingerprint t = Client_TagsFingerprint c"

definition loadOrRegister :: "'w runnable \<Rightarrow> rstate \<Rightarrow> ('w, go_error option \<times> rstate) rprog" where
  "loadOrRegister R s = do {
     l \<leftarrow> Load (rn_kube R) (rn_store R);
     case l of
       Inl _ \<Rightarrow> register R s
     | Inr None \<Rightarrow> register R s
     | Inr (Some t) \<Rightarrow> do {
         h \<leftarrow> Client_Heartbeat (rn_convex R) (rs_config s) (HeartbeatToken t) None None;
         case h of
           Inl _ \<Rightarrow> register R s
         | Inr _ \<Rightarrow>
             if unchanged R (rs_config s) t then ret (None, s\<lparr>rs_tokens := t\<rparr>)
             else register R s
       }
   }"

section \<open>Claiming work\<close>

definition reportFailed :: "'w runnable \<Rightarrow> clientConfig \<Rightarrow> string \<Rightarrow> string \<Rightarrow> string \<Rightarrow> string \<Rightarrow> bool \<Rightarrow>
    ('w, go_error option) rprog" where
  "reportFailed R c token name workloadID reason retryable =
     Client_ReportLifecycle (rn_convex R) c token name workloadID claimPhaseFailed reason retryable"

text \<open>The self-gate: a candidate whose template is known and does not fit is skipped.\<close>

definition gated :: "lib \<Rightarrow> snapshot option \<Rightarrow> string \<Rightarrow> bool" where
  "gated L snap templateID = (case snap of
     None \<Rightarrow> False
   | Some s \<Rightarrow> (case Get L templateID of
       None \<Rightarrow> False
     | Some tmpl \<Rightarrow> (case EstimatedResources L tmpl of (cpu, mem) \<Rightarrow> \<not> Fits s cpu mem)))"

definition reserve :: "lib \<Rightarrow> template \<Rightarrow> snapshot \<Rightarrow> snapshot" where
  "reserve L tmpl s = (case EstimatedResources L tmpl of (cpu, mem) \<Rightarrow>
     s\<lparr>UsedMilliCPU := UsedMilliCPU s + cpu, UsedMemoryBytes := UsedMemoryBytes s + mem\<rparr>)"

definition version_matches :: "lib \<Rightarrow> string \<Rightarrow> string \<Rightarrow> template option" where
  "version_matches L tid version = (case Get L tid of
     None \<Rightarrow> None
   | Some tmpl \<Rightarrow> if t_version tmpl \<noteq> version then None else Some tmpl)"

definition createClaimed :: "'w runnable \<Rightarrow> string \<Rightarrow> clientConfig \<Rightarrow> string \<Rightarrow> claimedWorkload \<Rightarrow> snapshot option \<Rightarrow>
    ('w, snapshot option) rprog" where
  "createClaimed R ns c token claimed snap =
     (case version_matches (rn_lib R) (cw_TemplateID claimed) (cw_TemplateVersion claimed) of
        None \<Rightarrow> do {
          reportFailed R c token [] (cw_WorkloadID claimed) reasonTemplateVersionMismatch False;
          ret snap
        }
      | Some tmpl \<Rightarrow> do {
          r \<leftarrow> Create (rn_lib R) (rn_kube R) ns (cw_WorkloadID claimed) (cw_TemplateID claimed)
                (cw_UserID claimed) (cw_Subdomain claimed) (cw_Config claimed);
          case r of
            Inl e \<Rightarrow> do {
              reportFailed R c token [] (cw_WorkloadID claimed) (error_text e) True;
              ret snap
            }
          | Inr _ \<Rightarrow> ret (map_option (reserve (rn_lib R) tmpl) snap)
        })"

definition claimOne :: "'w runnable \<Rightarrow> string \<Rightarrow> clientConfig \<Rightarrow> string \<Rightarrow> claimableWorkload \<Rightarrow> snapshot option \<Rightarrow>
    ('w, snapshot option) rprog" where
  "claimOne R ns c token item snap =
     (if gated (rn_lib R) snap (cl_TemplateID item) then ret snap
      else do {
        r \<leftarrow> Client_ClaimWorkload (rn_convex R) c token (cl_WorkloadID item);
        case r of
          Inl _ \<Rightarrow> ret snap
        | Inr None \<Rightarrow> ret snap
        | Inr (Some claimed) \<Rightarrow> createClaimed R ns c token claimed snap
      })"

fun claimAll :: "'w runnable \<Rightarrow> string \<Rightarrow> clientConfig \<Rightarrow> string \<Rightarrow> claimableWorkload list \<Rightarrow> snapshot option \<Rightarrow>
    ('w, snapshot option) rprog" where
  "claimAll R ns c token [] snap = ret snap"
| "claimAll R ns c token (i # is) snap = do {
     snap' \<leftarrow> claimOne R ns c token i snap;
     claimAll R ns c token is snap'
   }"

definition processClaimable :: "'w runnable \<Rightarrow> clientConfig \<Rightarrow> string \<Rightarrow> claimableWorkload list \<Rightarrow> snapshot option \<Rightarrow>
    ('w, snapshot option) rprog" where
  "processClaimable R c token claimable snap = (case rn_creator R of
     None \<Rightarrow> ret snap
   | Some ns \<Rightarrow> claimAll R ns c token (take (min (length claimable) maxClaimsPerTick) claimable) snap)"

text \<open>\<open>reportOn r\<close>: a synchronous failure of a claimed operation is reported as retryable.\<close>

definition reportOn :: "'w runnable \<Rightarrow> clientConfig \<Rightarrow> string \<Rightarrow> string \<Rightarrow> go_error option \<Rightarrow> ('w, unit) rprog" where
  "reportOn R c token name e = (case e of
     None \<Rightarrow> ret ()
   | Some err \<Rightarrow> do { reportFailed R c token name [] (error_text err) True; ret () })"

definition runOperation :: "'w runnable \<Rightarrow> clientConfig \<Rightarrow> string \<Rightarrow> claimedOperation \<Rightarrow> ('w, unit) rprog" where
  "runOperation R c token op =
     (if co_Operation op = operationDestroy then
        (case rn_destroyer R of
           None \<Rightarrow> ret ()
         | Some ns \<Rightarrow> do {
             e \<leftarrow> Destroy (rn_kube R) ns (co_Name op);
             reportOn R c token (co_Name op) e
           })
      else if co_Operation op = operationRedeploy then
        (case rn_creator R of
           None \<Rightarrow> ret ()
         | Some ns \<Rightarrow>
             (case version_matches (rn_lib R) (co_TemplateID op) (co_TemplateVersion op) of
                None \<Rightarrow> do {
                  reportFailed R c token (co_Name op) [] reasonTemplateVersionMismatch False;
                  ret ()
                }
              | Some tmpl \<Rightarrow> do {
                  e \<leftarrow> Redeploy (rn_lib R) (rn_kube R) ns (co_Name op) (co_Config op);
                  reportOn R c token (co_Name op) e
                }))
      else if co_Operation op = operationStop \<or> co_Operation op = operationResume then
        (case rn_creator R of
           None \<Rightarrow> ret ()
         | Some ns \<Rightarrow> do {
             e \<leftarrow> SetSuspended (rn_kube R) ns (co_Name op) (co_Operation op = operationStop);
             reportOn R c token (co_Name op) e
           })
      else ret ())"

definition pendingOne :: "'w runnable \<Rightarrow> clientConfig \<Rightarrow> string \<Rightarrow> pendingOperation \<Rightarrow> ('w, unit) rprog" where
  "pendingOne R c token item = do {
     r \<leftarrow> Client_ClaimOperation (rn_convex R) c token (po_WorkloadID item);
     case r of
       Inl _ \<Rightarrow> ret ()
     | Inr None \<Rightarrow> ret ()
     | Inr (Some op) \<Rightarrow> runOperation R c token op
   }"

definition processPendingOperations :: "'w runnable \<Rightarrow> clientConfig \<Rightarrow> string \<Rightarrow> pendingOperation list \<Rightarrow>
    ('w, unit) rprog" where
  "processPendingOperations R c token pendingOps =
     (if rn_creator R = None \<and> rn_destroyer R = None then ret ()
      else foreach (pendingOne R c token) (take (min (length pendingOps) maxPendingOperationsPerTick) pendingOps))"

section \<open>Heartbeats and the notifier\<close>

text \<open>An optional source of readings: an error counts as no reading.\<close>

definition reading :: "('w, go_error + 'a) rprog option \<Rightarrow> ('w, 'a option) rprog" where
  "reading p = (case p of
     None \<Rightarrow> ret None
   | Some m \<Rightarrow> do { r \<leftarrow> m; ret (case r of Inl _ \<Rightarrow> None | Inr x \<Rightarrow> Some x) })"

definition afterHeartbeat :: "'w runnable \<Rightarrow> rstate \<Rightarrow> string \<Rightarrow> snapshot option \<Rightarrow>
    go_error + claimableWorkload list \<times> pendingOperation list \<Rightarrow> ('w, rstate) rprog" where
  "afterHeartbeat R s token snap h = (case h of
     Inl e \<Rightarrow>
       if e \<noteq> Sentinel ErrUnauthorized then ret s
       else do { (e', s') \<leftarrow> register R s; ret s' }
   | Inr (claimable, pendingOps) \<Rightarrow> do {
       processClaimable R (rs_config s) token claimable snap;
       processPendingOperations R (rs_config s) token pendingOps;
       ret s
     })"

definition heartbeatOnce :: "'w runnable \<Rightarrow> rstate \<Rightarrow> ('w, rstate) rprog" where
  "heartbeatOnce R s = do {
     let token = HeartbeatToken (rs_tokens s);
     snap \<leftarrow> reading (rn_capacity R);
     live \<leftarrow> reading (rn_usage R);
     h \<leftarrow> Client_Heartbeat (rn_convex R) (rs_config s) token snap live;
     afterHeartbeat R s token snap h
   }"

text \<open>One round of the loop in \<open>Start\<close>.\<close>

definition tick :: "'w runnable \<Rightarrow> rstate \<Rightarrow> ('w, rstate) rprog" where
  "tick R s = do { s' \<leftarrow> heartbeatOnce R s; checkEnrollmentSecret R s' }"

definition CurrentDeployToken :: "rstate \<Rightarrow> string" where
  "CurrentDeployToken s = DeployToken (rs_tokens s)"

text \<open>\<open>Runnable\<close> as the reconciler's notifier, presenting the token of the state \<open>s\<close>.\<close>

definition notifier_of :: "'w runnable \<Rightarrow> rstate \<Rightarrow> 'w workloadNotifier" where
  "notifier_of R s = (let t = HeartbeatToken (rs_tokens s); C = rn_convex R; c = rs_config s in
     \<lparr>UpsertWorkload = (\<lambda>info. op_of (Client_UpsertWorkload C c t info)),
      RemoveWorkload = (\<lambda>name ns. op_of (Client_RemoveWorkload C c t name ns)),
      ReportLifecycle = (\<lambda>name wid ph reason b. op_of (Client_ReportLifecycle C c t name wid ph reason b))\<rparr>)"

definition Runnable_ReportMetrics :: "'w runnable \<Rightarrow> rstate \<Rightarrow> sample list \<Rightarrow> ('w, go_error option) rprog" where
  "Runnable_ReportMetrics R s samples =
     Client_ReportMetrics (rn_convex R) (rs_config s) (HeartbeatToken (rs_tokens s)) samples"

definition Runnable_VerifyGatewayToken :: "'w runnable \<Rightarrow> rstate \<Rightarrow> string \<Rightarrow> string \<Rightarrow> string \<Rightarrow>
    ('w, go_error + string) rprog" where
  "Runnable_VerifyGatewayToken R s token ns name =
     Client_VerifyGatewayToken (rn_convex R) (rs_config s) (HeartbeatToken (rs_tokens s)) token ns name"

end
