(* ===== verification/Runnable_Correct.thy ===== *)
theory Runnable_Correct
  imports Runnable
begin

text \<open>
  Correctness of the registration and claim loop, over the call sequences of whole heartbeats:
  how much a tick may write, that every write is owed to a claim Convex granted, that a granted
  claim is always answered for, that the local capacity gate holds for the sum of what a tick
  creates, and how credentials move.
\<close>

section \<open>Counting calls\<close>

definition atmost :: "('c \<Rightarrow> bool) \<Rightarrow> nat \<Rightarrow> ('w, 'c, 'a) prog \<Rightarrow> bool" where
  "atmost P n m \<longleftrightarrow> (\<forall>w a cs w'. runs m w a cs w' \<longrightarrow> length (filter P cs) \<le> n)"

lemma atmost_none: "emits (\<lambda>c. \<not> P c) m \<Longrightarrow> atmost P n m"
  unfolding atmost_def using emits_runs [of "\<lambda>c. \<not> P c" m]
  by (fastforce simp: list_all_iff filter_empty_conv)

lemma atmost_ext: "atmost P (Suc n) (ext f mk)"
  by (auto simp: atmost_def runs_ext)

lemma atmost_bind:
  assumes "atmost P n m" "\<And>a. atmost P k (f a)" "\<And>a. proper (f a)"
  shows "atmost P (n + k) (m \<bind> f)"
  unfolding atmost_def
proof (intro allI impI)
  fix w b cs w'
  assume "runs (m \<bind> f) w b cs w'"
  then obtain a cs1 w1 cs2 where "runs m w a cs1 w1" "cs = cs1 @ cs2" "runs (f a) w1 b cs2 w'"
    by (rule runs_bindE) (use assms(3) in auto)
  with assms(1,2) show "length (filter P cs) \<le> n + k"
    unfolding atmost_def by (fastforce intro: add_mono)
qed

lemma atmost_mono: "atmost P n m \<Longrightarrow> n \<le> k \<Longrightarrow> atmost P k m"
  unfolding atmost_def by (meson le_trans)

lemma atmost_skip:
  "emits (\<lambda>c. \<not> P c) m \<Longrightarrow> (\<And>a. atmost P k (f a)) \<Longrightarrow> (\<And>a. proper (f a)) \<Longrightarrow> atmost P k (m \<bind> f)"
  using atmost_bind [OF atmost_none [of P m 0], of k f] by simp

lemma atmost_last:
  "atmost P k m \<Longrightarrow> (\<And>a. emits (\<lambda>c. \<not> P c) (f a)) \<Longrightarrow> (\<And>a. proper (f a)) \<Longrightarrow> atmost P k (m \<bind> f)"
  using atmost_bind [of P k m 0 f, OF _ atmost_none] by simp

lemma atmost_return: "atmost P n (ret x)"
  by (intro atmost_none emits_return)

lemma atmost_case_option:
  "(x = None \<Longrightarrow> atmost P n m) \<Longrightarrow> (\<And>y. x = Some y \<Longrightarrow> atmost P n (f y)) \<Longrightarrow>
   atmost P n (case x of None \<Rightarrow> m | Some y \<Rightarrow> f y)"
  by (cases x) simp_all

lemma atmost_case_sum:
  "(\<And>e. x = Inl e \<Longrightarrow> atmost P n (f e)) \<Longrightarrow> (\<And>y. x = Inr y \<Longrightarrow> atmost P n (g y)) \<Longrightarrow>
   atmost P n (case x of Inl e \<Rightarrow> f e | Inr y \<Rightarrow> g y)"
  by (cases x) simp_all

lemma atmost_if: "(b \<Longrightarrow> atmost P n m) \<Longrightarrow> (\<not> b \<Longrightarrow> atmost P n k) \<Longrightarrow> atmost P n (if b then m else k)"
  by simp

lemmas atmost_cases = atmost_case_option atmost_case_sum atmost_if atmost_return

lemma atmost_foreach:
  assumes "\<And>x. atmost P k (f x)" "\<And>x. proper (f x)"
  shows "atmost P (length xs * k) (foreach f xs)"
proof (induction xs)
  case Nil
  show ?case by (intro atmost_none) (simp add: emits_return)
next
  case (Cons x xs)
  have "atmost P (k + length xs * k) (foreach f (x # xs))"
    unfolding foreach.simps by (intro atmost_bind) (use assms Cons in auto)
  then show ?case by simp
qed

section \<open>The shape of each step\<close>

lemma proper_provisioning [simp]:
  "proper (Create L K ns wid tn uid sub cfg)" "proper (Redeploy L K ns n cfg)"
  "proper (SetSuspended K ns n b)" "proper (Destroy K ns n)"
  by (simp_all add: Create_def Redeploy_def SetSuspended_def Destroy_def)

lemma proper_register [simp]: "proper (Current R)" "proper (register R s)"
  by (simp_all add: Current_def register_def Let_def)

lemma proper_registration [simp]: "proper (checkEnrollmentSecret R s)" "proper (loadOrRegister R s)"
  by (simp_all add: checkEnrollmentSecret_def loadOrRegister_def)

lemma proper_reportFailed [simp]: "proper (reportFailed R c t n i reason b)"
  by (simp add: reportFailed_def)

lemma proper_createClaimed [simp]: "proper (createClaimed R ns c t x snap)"
  by (simp add: createClaimed_def)

lemma proper_claimOne [simp]: "proper (claimOne R ns c t item snap)"
  by (simp add: claimOne_def)

lemma proper_claimAll [simp]: "proper (claimAll R ns c t items snap)"
  by (induction R ns c t items snap rule: claimAll.induct) simp_all

lemma proper_reportOn [simp]: "proper (reportOn R c t n e)"
  by (simp add: reportOn_def)

lemma proper_runOperation [simp]: "proper (runOperation R c t op)"
  by (simp add: runOperation_def)

lemma proper_pendingOne [simp]: "proper (pendingOne R c t item)"
  by (simp add: pendingOne_def)

lemma proper_process [simp]:
  "proper (processClaimable R c t items snap)" "proper (processPendingOperations R c t ops)"
  by (simp_all add: processClaimable_def processPendingOperations_def)

text \<open>
  The interfaces \<open>capacitySnapshotter\<close> and \<open>usageCollector\<close>: an implementation only reads. The
  tracker and the collector of the sources do.
\<close>

definition reads :: "rcall call \<Rightarrow> bool" where
  "reads c = (case c of CNow _ \<Rightarrow> True | CListPods _ _ _ \<Rightarrow> True | CListNodes _ \<Rightarrow> True
     | CListDeployments _ _ _ \<Rightarrow> True | Other (KSummary _ _) \<Rightarrow> True | _ \<Rightarrow> False)"

locale reading_source =
  fixes m :: "('w, rcall, go_error + 'a) kprog"
  assumes well_behaved: "proper m"
    and reads_only: "emits reads m"
begin

lemma proper_reading: "proper (reading (Some m))"
  by (simp add: reading_def well_behaved)

lemma reading_reads: "emits reads (reading (Some m))"
  unfolding reading_def by (auto intro!: emits_intros reads_only)

end

lemma emits_fetch: "emits (\<lambda>c. \<exists>q. c = Other (emb n q)) (fetchNodeSummary emb Q n)"
  unfolding fetchNodeSummary_def by (intro emits_intros) auto

lemma emits_usageNodes: "emits reads (usageNodes KSummary Q ps ns x)"
  by (induction KSummary Q ps ns x rule: usageNodes.induct)
     (auto simp: reads_def intro!: emits_intros emits_fetch [THEN emits_mono])

interpretation capacity_source: reading_source "Snapshot L K ns" for L K ns
  by unfold_locales (auto simp: Snapshot_def kube_ops reads_def intro!: emits_intros)

interpretation usage_source: reading_source "CollectUsage KSummary K Q ns" for K Q ns
  by unfold_locales (auto simp: CollectUsage_def kube_ops reads_def intro!: emits_intros emits_usageNodes)

definition sources :: "'w runnable \<Rightarrow> bool" where
  "sources R \<longleftrightarrow> (\<forall>m. rn_capacity R = Some m \<longrightarrow> reading_source m) \<and>
     (\<forall>m. rn_usage R = Some m \<longrightarrow> reading_source m)"

lemma sources_reading:
  assumes "sources R"
  shows "proper (reading (rn_capacity R))" "proper (reading (rn_usage R))"
    and "emits reads (reading (rn_capacity R))" "emits reads (reading (rn_usage R))"
proof -
  have none: "proper (reading None)" "emits reads (reading None)"
    by (simp_all add: reading_def emits_return)
  show "proper (reading (rn_capacity R))" "emits reads (reading (rn_capacity R))"
    using assms none by (cases "rn_capacity R";
      auto simp: sources_def intro: reading_source.proper_reading reading_source.reading_reads)+
  show "proper (reading (rn_usage R))" "emits reads (reading (rn_usage R))"
    using assms none by (cases "rn_usage R";
      auto simp: sources_def intro: reading_source.proper_reading reading_source.reading_reads)+
qed

section \<open>The calls of each step\<close>

text \<open>Writes to Workload objects: creating one, and changing or deleting an existing one.\<close>

definition creates :: "rcall call \<Rightarrow> bool" where
  "creates c = (case c of CCreateWorkload _ _ \<Rightarrow> True | _ \<Rightarrow> False)"

definition alters :: "rcall call \<Rightarrow> bool" where
  "alters c = (case c of CUpdateWorkload _ _ \<Rightarrow> True | CDeleteWorkload _ _ _ \<Rightarrow> True | _ \<Rightarrow> False)"

definition posts :: "rcall call \<Rightarrow> bool" where
  "posts c = (case c of Other (HDo _ _ _) \<Rightarrow> True | _ \<Rightarrow> False)"

lemmas write_defs = creates_def alters_def posts_def

lemma not_sends: "sends t v c \<Longrightarrow> \<not> creates c \<and> \<not> alters c"
  by (auto simp: sends_def write_defs)

lemma not_reads: "reads c \<Longrightarrow> \<not> creates c \<and> \<not> alters c"
  by (cases c) (auto simp: reads_def write_defs)

text \<open>A request to Convex with the given token, or without one when it registers.\<close>

definition bearer :: "string \<Rightarrow> rcall call \<Rightarrow> bool" where
  "bearer token c = (case c of
     Other (HDo rq v _) \<Rightarrow> (case v of
        WRegister _ \<Rightarrow> rq_headers rq ''Authorization'' = None
      | _ \<Rightarrow> rq_headers rq ''Authorization'' = Some (''Bearer '' @ token))
   | _ \<Rightarrow> True)"

lemma bearer_sends:
  "sends (Some token) v c \<Longrightarrow> (\<And>r. v \<noteq> WRegister r) \<Longrightarrow> bearer token c"
  "sends None (WRegister r) c \<Longrightarrow> bearer token c"
  by (auto simp: sends_def bearer_def post_request_def split: wire.split)

text \<open>What every request of a client operation is.\<close>

lemma emits_client:
  "emits (sends None (WRegister \<lparr>rg_Name = OperatorName c, rg_ExternalURL = ExternalURL c,
          rg_EnrollmentSecret = EnrollmentSecret c, rg_Metadata = Metadata c,
          rg_Catalog = List_templates L, rg_OperatorVersion = Version c, rg_Tags = Tags c\<rparr>)) (Client_Register L C c)"
  "emits (\<lambda>x. \<exists>b. sends (Some t) (WHeartbeat b) x) (Client_Heartbeat C c t snap usage)"
  "emits (sends (Some t) (WClaimWorkload i)) (Client_ClaimWorkload C c t i)"
  "emits (sends (Some t) (WClaimOperation i)) (Client_ClaimOperation C c t i)"
  "emits (sends (Some t) (WLifecycle \<lparr>rl_Name = n, rl_WorkloadID = i, rl_Phase = ph, rl_Reason = reason,
     rl_Retryable = b\<rparr>)) (Client_ReportLifecycle C c t n i ph reason b)"
  by (unfold client_ops; intro emits_intros emits_post emits_post [THEN emits_mono]; blast)+

lemma emits_tokens:
  "emits (\<lambda>c. \<not> creates c \<and> \<not> alters c \<and> \<not> posts c) (Load K ns)"
  "emits (\<lambda>c. \<not> creates c \<and> \<not> alters c \<and> \<not> posts c) (Save K ns t)"
  by (auto simp: Load_def Save_def kube_ops write_defs intro!: emits_intros)

lemma emits_register:
  "emits (\<lambda>c. \<not> creates c \<and> \<not> alters c) (register R s)" "emits (bearer token) (register R s)"
  unfolding register_def Let_def
  by (intro emits_intros emits_client(1) [THEN emits_mono] emits_tokens(2) [THEN emits_mono];
      auto simp: write_defs bearer_def dest: not_sends bearer_sends(2) split: call.splits rcall.splits)+

lemma emits_reportFailed:
  "emits (sends (Some t) (WLifecycle \<lparr>rl_Name = n, rl_WorkloadID = i, rl_Phase = claimPhaseFailed,
     rl_Reason = reason, rl_Retryable = b\<rparr>)) (reportFailed R c t n i reason b)"
  unfolding reportFailed_def by (rule emits_client(5))

lemma emits_provisioning:
  "emits (\<lambda>c. creates c) (Create L K ns wid tn uid sub cfg)"
  "emits (\<lambda>c. \<not> creates c \<and> \<not> posts c) (Redeploy L K ns n cfg)"
  "emits (\<lambda>c. \<not> creates c \<and> \<not> posts c) (SetSuspended K ns n b)"
  "emits (\<lambda>c. \<not> creates c \<and> \<not> posts c) (Destroy K ns n)"
  by (auto simp: Create_def Redeploy_def SetSuspended_def Destroy_def kube_ops write_defs intro!: emits_intros)

lemma emits_gets:
  "emits (\<lambda>c. \<not> alters c) (getWorkload K ns n)" "emits (\<lambda>c. \<not> alters c) (now K)"
  by (auto simp: kube_ops write_defs intro!: emits_intros)

lemma atmost_write:
  "atmost P (Suc 0) (createWorkload K x)" "atmost P (Suc 0) (updateWorkload K x)"
  "atmost P (Suc 0) (deleteWorkload K ns n)"
  by (simp_all add: kube_ops atmost_ext)

lemma atmost_Create: "atmost P (Suc 0) (Create L K ns wid tn uid sub cfg)"
  unfolding Create_def by (intro atmost_cases atmost_last atmost_write emits_return proper_return)

lemma atmost_Destroy: "atmost P (Suc 0) (Destroy K ns n)"
  unfolding Destroy_def by (intro atmost_last atmost_write emits_return proper_return)

lemma atmost_SetSuspended: "atmost alters (Suc 0) (SetSuspended K ns n b)"
  unfolding SetSuspended_def
  by (intro atmost_skip [OF emits_gets(1)] atmost_cases atmost_last atmost_write emits_return) simp_all

lemma atmost_Redeploy: "atmost alters (Suc 0) (Redeploy L K ns n cfg)"
  unfolding Redeploy_def
  by (intro atmost_skip [OF emits_gets(1)] atmost_skip [OF emits_gets(2)] atmost_cases atmost_last
      atmost_write emits_return) simp_all

lemma creates_silent: "creates c \<Longrightarrow> \<not> alters c \<and> bearer t c"
  by (cases c) (auto simp: write_defs bearer_def)

lemma bearer_quiet: "\<not> posts c \<Longrightarrow> bearer t c"
  by (auto simp: write_defs bearer_def split: call.splits rcall.splits)

lemma lifecycle_sent: "sends (Some t) (WLifecycle v) c \<Longrightarrow> \<not> creates c \<and> \<not> alters c \<and> bearer t c"
  by (simp add: not_sends bearer_sends(1))

definition tame :: "string \<Rightarrow> rcall call \<Rightarrow> bool" where
  "tame t c \<longleftrightarrow> \<not> alters c \<and> bearer t c"

lemma emits_createClaimed: "emits (tame t) (createClaimed R ns c t x snap)"
  unfolding createClaimed_def tame_def
  by (intro emits_intros emits_reportFailed [THEN emits_mono] emits_provisioning(1) [THEN emits_mono])
     (simp_all add: lifecycle_sent creates_silent)

lemma emits_claimOne: "emits (tame t) (claimOne R ns c t item snap)"
  unfolding claimOne_def
  by (intro emits_intros emits_createClaimed emits_client(3) [THEN emits_mono])
     (simp add: tame_def not_sends bearer_sends(1))

lemma emits_claimAll: "emits (tame t) (claimAll R ns c t items snap)"
  by (induction R ns c t items snap rule: claimAll.induct) (auto intro!: emits_intros emits_claimOne)

lemma emits_report_quiet: "emits (\<lambda>c. \<not> creates c) (reportFailed R c t n i reason b)"
  by (rule emits_reportFailed [THEN emits_mono]) (simp add: lifecycle_sent)

lemma atmost_createClaimed: "atmost creates (Suc 0) (createClaimed R ns c t x snap)"
  unfolding createClaimed_def
  by (intro atmost_cases atmost_skip [OF emits_report_quiet] atmost_last [OF atmost_Create]
      emits_case_sum emits_bind emits_report_quiet emits_return) simp_all

lemma emits_claim_quiet: "emits (\<lambda>c. \<not> creates c) (Client_ClaimWorkload C c t i)"
  by (rule emits_client(3) [THEN emits_mono]) (simp add: not_sends)

lemma atmost_claimOne: "atmost creates (Suc 0) (claimOne R ns c t item snap)"
  unfolding claimOne_def
  by (intro atmost_cases atmost_skip [OF emits_claim_quiet] atmost_createClaimed) simp

lemma atmost_claimAll: "atmost creates (length items) (claimAll R ns c t items snap)"
proof (induction items arbitrary: snap)
  case Nil
  show ?case by (simp add: atmost_return)
next
  case (Cons i items)
  have "atmost creates (Suc 0 + length items) (claimAll R ns c t (i # items) snap)"
    unfolding claimAll.simps by (rule atmost_bind [OF atmost_claimOne Cons]) simp
  then show ?case by simp
qed

lemma reportOn_tame:
  "emits (\<lambda>c. \<not> creates c \<and> \<not> alters c \<and> bearer t c) (reportOn R c t n e)"
  unfolding reportOn_def
  by (intro emits_intros emits_reportFailed [THEN emits_mono]) (simp add: lifecycle_sent)

lemma emits_runOperation: "emits (\<lambda>c. \<not> creates c \<and> bearer t c) (runOperation R c t op)"
  unfolding runOperation_def
  by (intro emits_intros emits_reportFailed [THEN emits_mono] reportOn_tame [THEN emits_mono]
      emits_provisioning [THEN emits_mono]) (simp_all add: lifecycle_sent bearer_quiet)

lemma atmost_runOperation: "atmost alters (Suc 0) (runOperation R c t op)"
  unfolding runOperation_def
  by (intro atmost_cases atmost_last atmost_Destroy atmost_Redeploy atmost_SetSuspended
      atmost_none emits_return emits_reportFailed [THEN emits_mono] reportOn_tame [THEN emits_mono])
     (simp_all add: lifecycle_sent)

lemma emits_pendingOne: "emits (\<lambda>c. \<not> creates c \<and> bearer t c) (pendingOne R c t item)"
  unfolding pendingOne_def
  by (intro emits_intros emits_runOperation emits_client(4) [THEN emits_mono])
     (simp add: not_sends bearer_sends(1))

lemma atmost_pendingOne: "atmost alters (Suc 0) (pendingOne R c t item)"
proof -
  have "emits (\<lambda>x. \<not> alters x) (Client_ClaimOperation (rn_convex R) c t (po_WorkloadID item))"
    by (rule emits_client(4) [THEN emits_mono]) (simp add: not_sends)
  then show ?thesis unfolding pendingOne_def
    by (intro atmost_skip atmost_cases atmost_runOperation) simp_all
qed

lemma processClaimable_calls:
  "emits (tame t) (processClaimable R c t items snap)" "atmost creates 5 (processClaimable R c t items snap)"
proof -
  show "emits (tame t) (processClaimable R c t items snap)"
    unfolding processClaimable_def by (intro emits_intros emits_claimAll)
  have "atmost creates 5 (claimAll R ns c t (take (min (length items) maxClaimsPerTick) items) snap)" for ns
    by (rule atmost_mono [OF atmost_claimAll]) (simp add: maxClaimsPerTick_def)
  then show "atmost creates 5 (processClaimable R c t items snap)"
    unfolding processClaimable_def by (intro atmost_cases)
qed

lemma processPending_calls:
  "emits (\<lambda>c. \<not> creates c \<and> bearer t c) (processPendingOperations R c t ops)"
  "atmost alters 5 (processPendingOperations R c t ops)"
proof -
  show "emits (\<lambda>c. \<not> creates c \<and> bearer t c) (processPendingOperations R c t ops)"
    unfolding processPendingOperations_def by (intro emits_intros emits_pendingOne)
  have "atmost alters (length xs * Suc 0) (foreach (pendingOne R c t) xs)" for xs
    by (rule atmost_foreach [OF atmost_pendingOne]) simp
  then have "atmost alters 5 (foreach (pendingOne R c t) (take (min (length ops) maxPendingOperationsPerTick) ops))"
    by (rule atmost_mono) (simp add: maxPendingOperationsPerTick_def)
  then show "atmost alters 5 (processPendingOperations R c t ops)"
    unfolding processPendingOperations_def by (intro atmost_cases)
qed

lemma emits_heartbeat:
  "emits (\<lambda>x. \<not> creates x \<and> \<not> alters x \<and> bearer t x) (Client_Heartbeat C c t snap usage)"
  by (rule emits_client(2) [THEN emits_mono]) (auto simp: not_sends bearer_sends(1))

lemma proper_afterHeartbeat [simp]: "proper (afterHeartbeat R s t snap h)"
  by (simp add: afterHeartbeat_def)

lemma emits_afterHeartbeat: "emits (bearer t) (afterHeartbeat R s t snap h)"
  unfolding afterHeartbeat_def
  by (intro emits_intros emits_register processClaimable_calls(1) [THEN emits_mono]
      processPending_calls(1) [THEN emits_mono]) (simp_all add: tame_def)

lemma atmost_afterHeartbeat:
  "atmost creates 5 (afterHeartbeat R s t snap h)" "atmost alters 5 (afterHeartbeat R s t snap h)"
proof -
  have reg: "atmost P 5 (do { (e', s') \<leftarrow> register R s; ret s' })" if "P = creates \<or> P = alters" for P
    by (intro atmost_none emits_bind emits_register(1) [THEN emits_mono] emits_case_prod emits_return)
       (use that in auto)
  have "atmost creates 5 (do { processClaimable R c t xs snap; processPendingOperations R c t ys; ret s })" for c xs ys
    by (intro atmost_last [OF processClaimable_calls(2)] emits_bind emits_return
        processPending_calls(1) [THEN emits_mono]) simp_all
  with reg show "atmost creates 5 (afterHeartbeat R s t snap h)"
    unfolding afterHeartbeat_def by (auto split: sum.split intro: atmost_return)
  have "atmost alters 5 (do { processClaimable R c t xs snap; processPendingOperations R c t ys; ret s })" for c xs ys
    by (intro atmost_skip atmost_last [OF processPending_calls(2)] emits_return
        processClaimable_calls(1) [THEN emits_mono]) (simp_all add: tame_def)
  with reg show "atmost alters 5 (afterHeartbeat R s t snap h)"
    unfolding afterHeartbeat_def by (auto split: sum.split intro: atmost_return)
qed

lemma emits_heartbeatOnce:
  assumes "sources R"
  shows "emits (bearer (HeartbeatToken (rs_tokens s))) (heartbeatOnce R s)"
  unfolding heartbeatOnce_def Let_def
  by (intro emits_bind sources_reading(3,4) [OF assms, THEN emits_mono] emits_heartbeat [THEN emits_mono]
      emits_afterHeartbeat)
     (auto simp: reads_def bearer_def split: call.splits rcall.splits)

lemma proper_heartbeatOnce:
  assumes "sources R"
  shows "proper (heartbeatOnce R s)"
  using sources_reading(1,2) [OF assms] by (simp add: heartbeatOnce_def Let_def)

lemma atmost_heartbeatOnce:
  assumes "sources R" "P = creates \<or> P = alters"
  shows "atmost P 5 (heartbeatOnce R s)"
proof -
  note [simp] = sources_reading(1,2) [OF assms(1)]
  have after: "atmost P 5 (afterHeartbeat R s t snap h)" for t snap h
    using assms(2) atmost_afterHeartbeat by auto
  have pre: "emits (\<lambda>c. \<not> P c) (reading (rn_capacity R))" "emits (\<lambda>c. \<not> P c) (reading (rn_usage R))"
    by (rule sources_reading(3,4) [OF assms(1), THEN emits_mono], use assms(2) not_reads in auto)+
  have hb: "emits (\<lambda>c. \<not> P c) (Client_Heartbeat C c t snap usage)" for C :: "'a convex" and c t snap usage
    by (rule emits_heartbeat [THEN emits_mono]) (use assms(2) in auto)
  show ?thesis unfolding heartbeatOnce_def Let_def
    by (intro atmost_skip [OF pre(1)] atmost_skip [OF pre(2)] atmost_skip [OF hb] after) simp_all
qed

section \<open>Runs of a claim\<close>

text \<open>A granted claim: Convex answered 200 with the workload \<open>x\<close>.\<close>

definition granted :: "'w convex \<Rightarrow> string \<Rightarrow> claimedWorkload \<Rightarrow> rcall call \<Rightarrow> bool" where
  "granted C i x c \<longleftrightarrow> (\<exists>rq resp. c = Other (HDo rq (WClaimWorkload i) (Inr resp)) \<and>
     rs_StatusCode resp = 200 \<and> cv_decodeClaimWorkload C (rs_Body resp) = Inr x)"

text \<open>The object a granted claim asks for.\<close>

definition claimed_object :: "string \<Rightarrow> claimedWorkload \<Rightarrow> string option \<Rightarrow> workload" where
  "claimed_object ns x raw =
     created_object ns (cw_WorkloadID x) (cw_TemplateID x) (cw_UserID x) (cw_Subdomain x) raw"

text \<open>A failure report for a claimed row.\<close>

definition reported :: "string \<Rightarrow> string \<Rightarrow> bool \<Rightarrow> rcall call \<Rightarrow> bool" where
  "reported name i retryable c \<longleftrightarrow> (\<exists>rq rl q. c = Other (HDo rq (WLifecycle rl) q) \<and> rl_Name rl = name \<and>
     rl_WorkloadID rl = i \<and> rl_Phase rl = claimPhaseFailed \<and> rl_Retryable rl = retryable)"

text \<open>A report can be addressed.\<close>

definition can_report :: "'w convex \<Rightarrow> clientConfig \<Rightarrow> bool" where
  "can_report C c \<longleftrightarrow> cv_newRequest C (BaseURL c @ ''/operators/workloads/lifecycle'') = None"

lemma reportFailed_runs:
  assumes "runs (reportFailed R c t n i reason b) w e cs w'"
  shows "list_all (reported n i b) cs" and "can_report (rn_convex R) c \<Longrightarrow> cs \<noteq> []"
proof -
  show "list_all (reported n i b) cs"
    by (rule list.pred_mono_strong [OF emits_runs [OF emits_reportFailed assms]])
       (auto simp: sends_def reported_def)
  obtain q where post: "runs (post (rn_convex R) (BaseURL c @ ''/operators/workloads/lifecycle'') ''report lifecycle''
      (Some t) (WLifecycle \<lparr>rl_Name = n, rl_WorkloadID = i, rl_Phase = claimPhaseFailed, rl_Reason = reason,
        rl_Retryable = b\<rparr>)) w q cs w'"
    using assms unfolding reportFailed_def Client_ReportLifecycle_def
    by (rule runs_bindE) (auto simp: runs_return)
  show "cs \<noteq> []" if "can_report (rn_convex R) c"
    using post
  proof (cases rule: post_runs)
    case unsent
    with that show ?thesis by (auto simp: can_report_def)
  qed simp_all
qed

lemma Create_runs:
  assumes "runs (Create L K ns wid tn uid sub cfg) w r cs w'"
  obtains (refused) e where "r = Inl e" "cs = []"
    | (failed) raw e e' where "accepted L tn cfg raw" "r = Inl e'"
        "cs = [CCreateWorkload (created_object ns wid tn uid sub raw) (Inl e)]"
    | (stored) raw x where "accepted L tn cfg raw" "r = Inr x"
        "cs = [CCreateWorkload (created_object ns wid tn uid sub raw) (Inr x)]"
proof -
  have "wp (Create L K ns wid tn uid sub cfg) (\<lambda>r t. calls t = [] \<and> (\<exists>e. r = Inl e) \<or>
      (\<exists>raw q. accepted L tn cfg raw \<and> calls t = [CCreateWorkload (created_object ns wid tn uid sub raw) q] \<and>
        r = (case q of Inl e \<Rightarrow> Inl (Wrap ''creating workload: '' e []) | Inr x \<Rightarrow> Inr x)))
      \<lparr>world = w, calls = []\<rparr>"
    unfolding Create_wp by auto
  from runs_wp [OF assms this] consider e where "cs = []" "r = Inl e"
    | raw q where "accepted L tn cfg raw" "cs = [CCreateWorkload (created_object ns wid tn uid sub raw) q]"
      "r = (case q of Inl e \<Rightarrow> Inl (Wrap ''creating workload: '' e []) | Inr x \<Rightarrow> Inr x)"
    by auto
  then show thesis
  proof cases
    case (2 raw q)
    then show thesis using failed stored by (cases q) simp_all
  qed (use refused in simp)
qed

lemma createClaimed_runs:
  assumes "runs (createClaimed R ns c t x snap) w r cs w'"
  obtains (mismatch) "version_matches (rn_lib R) (cw_TemplateID x) (cw_TemplateVersion x) = None" "r = snap"
        "list_all (reported [] (cw_WorkloadID x) False) cs" "can_report (rn_convex R) c \<longrightarrow> cs \<noteq> []"
    | (failed) tmpl ds es where "version_matches (rn_lib R) (cw_TemplateID x) (cw_TemplateVersion x) = Some tmpl"
        "r = snap" "cs = ds @ es" "list_all (reported [] (cw_WorkloadID x) True) es"
        "can_report (rn_convex R) c \<longrightarrow> es \<noteq> []"
        "ds = [] \<or> (\<exists>raw e. accepted (rn_lib R) (cw_TemplateID x) (cw_Config x) raw \<and>
           ds = [CCreateWorkload (claimed_object ns x raw) (Inl e)])"
    | (created) tmpl raw y where "version_matches (rn_lib R) (cw_TemplateID x) (cw_TemplateVersion x) = Some tmpl"
        "accepted (rn_lib R) (cw_TemplateID x) (cw_Config x) raw"
        "cs = [CCreateWorkload (claimed_object ns x raw) (Inr y)]" "r = map_option (reserve (rn_lib R) tmpl) snap"
proof (cases "version_matches (rn_lib R) (cw_TemplateID x) (cw_TemplateVersion x)")
  case None
  with assms obtain e where rep: "runs (reportFailed R c t [] (cw_WorkloadID x) reasonTemplateVersionMismatch False)
      w e cs w'" and "r = snap"
    by (auto simp: createClaimed_def runs_bind runs_return)
  with None show thesis using mismatch reportFailed_runs [OF rep] by simp
next
  case (Some tmpl)
  let ?rest = "\<lambda>q. case q of
            Inl e \<Rightarrow> do { reportFailed R c t [] (cw_WorkloadID x) (error_text e) True; ret snap }
          | Inr _ \<Rightarrow> ret (map_option (reserve (rn_lib R) tmpl) snap)"
  from assms Some have "runs (Create (rn_lib R) (rn_kube R) ns (cw_WorkloadID x) (cw_TemplateID x)
                (cw_UserID x) (cw_Subdomain x) (cw_Config x) \<bind> ?rest) w r cs w'"
    by (simp add: createClaimed_def)
  then obtain q ds w1 es where C: "runs (Create (rn_lib R) (rn_kube R) ns (cw_WorkloadID x) (cw_TemplateID x)
                (cw_UserID x) (cw_Subdomain x) (cw_Config x)) w q ds w1" and cs: "cs = ds @ es"
    and rest: "runs (?rest q) w1 r es w'"
    by (rule runs_bindE) simp_all
  show thesis
  proof (cases q)
    case (Inl e)
    with rest obtain e' where rep: "runs (reportFailed R c t [] (cw_WorkloadID x) (error_text e) True) w1 e' es w'"
      and "r = snap" by (auto simp: runs_bind runs_return)
    from C Inl have "ds = [] \<or> (\<exists>raw e. accepted (rn_lib R) (cw_TemplateID x) (cw_Config x) raw \<and>
           ds = [CCreateWorkload (claimed_object ns x raw) (Inl e)])"
      by (cases rule: Create_runs) (auto simp: claimed_object_def)
    with Some \<open>r = snap\<close> cs reportFailed_runs [OF rep] show thesis by (intro failed impI) simp_all
  next
    case (Inr y)
    with rest have "r = map_option (reserve (rn_lib R) tmpl) snap" "es = []" by (simp_all add: runs_return)
    with C Inr Some cs show thesis
      by (cases rule: Create_runs) (auto simp: claimed_object_def intro: created)
  qed
qed

lemma claimOne_runs:
  assumes "runs (claimOne R ns c t item snap) w r cs w'"
  obtains (idle) "r = snap" "cs = [] \<or> (\<exists>rq q. cs = [Other (HDo rq (WClaimWorkload (cl_WorkloadID item)) q)] \<and>
        (\<forall>x. \<not> granted (rn_convex R) (cl_WorkloadID item) x (hd cs)))"
    | (won) x c0 w1 ds where "\<not> gated (rn_lib R) snap (cl_TemplateID item)" "cs = c0 # ds"
        "granted (rn_convex R) (cl_WorkloadID item) x c0" "runs (createClaimed R ns c t x snap) w1 r ds w'"
proof (cases "gated (rn_lib R) snap (cl_TemplateID item)")
  case True
  with assms have "r = snap" "cs = []" by (simp_all add: claimOne_def runs_return)
  then show thesis by (intro idle) simp_all
next
  case False
  let ?rest = "\<lambda>q. case q of Inl _ \<Rightarrow> ret snap | Inr None \<Rightarrow> ret snap
      | Inr (Some x) \<Rightarrow> createClaimed R ns c t x snap"
  from assms False have "runs (Client_ClaimWorkload (rn_convex R) c t (cl_WorkloadID item) \<bind> ?rest) w r cs w'"
    by (simp add: claimOne_def)
  then obtain q ds w1 es where claim: "runs (Client_ClaimWorkload (rn_convex R) c t (cl_WorkloadID item)) w q ds w1"
    and cs: "cs = ds @ es" and rest: "runs (?rest q) w1 r es w'"
    by (rule runs_bindE) simp_all
  from claim obtain p where post: "runs (post (rn_convex R) (BaseURL c @ ''/operators/workloads/claim'') ''claim workload''
      (Some t) (WClaimWorkload (cl_WorkloadID item))) w p ds w1"
    and q: "q = claim_result ''claim workload'' (cv_decodeClaimWorkload (rn_convex R)) p"
    unfolding Client_ClaimWorkload_def by (rule runs_bindE) (auto simp: runs_return)
  show thesis
  proof (cases "\<exists>x. q = Inr (Some x)")
    case True
    then obtain x where "q = Inr (Some x)" by auto
    with post q have "\<exists>c0. ds = [c0] \<and> granted (rn_convex R) (cl_WorkloadID item) x c0"
      by (cases rule: post_runs)
         (auto simp: claim_result_def decode_body_def granted_def split: sum.splits if_splits)
    with \<open>q = Inr (Some x)\<close> rest cs False show thesis by (auto intro: won)
  next
    case no: False
    with rest have rs: "r = snap" "es = []" by (auto simp: runs_return split: sum.splits option.splits)
    from post q no cs rs(2) have "cs = [] \<or>
        (\<exists>rq q. cs = [Other (HDo rq (WClaimWorkload (cl_WorkloadID item)) q)] \<and>
        (\<forall>x. \<not> granted (rn_convex R) (cl_WorkloadID item) x (hd cs)))"
      by (cases rule: post_runs)
         (auto simp: claim_result_def decode_body_def granted_def split: sum.splits if_splits)
    with rs(1) show thesis by (rule idle)
  qed
qed

text \<open>The catalog has the template \<open>i\<close>, and at the version \<open>v\<close>.\<close>

definition at_version :: "lib \<Rightarrow> string \<Rightarrow> string \<Rightarrow> bool" where
  "at_version L i v \<longleftrightarrow> (\<exists>t \<in> set (templates L). t_id t = i \<and> t_version t = v)"

lemma at_version_iff [simp]: "at_version L i v \<longleftrightarrow> version_matches L i v \<noteq> None"
proof -
  have "Get L (t_id t) = Some t" if "t \<in> set (templates L)" for t
    using Get_in_distinct [OF templates_distinct that] by (simp add: Get_def)
  then show ?thesis
    by (auto simp: at_version_def version_matches_def Get_def dest: Get_in_Some split: option.splits if_splits)
qed

text \<open>What follows a granted claim in the history \<open>cs\<close>.\<close>

definition answered :: "'w runnable \<Rightarrow> string \<Rightarrow> claimedWorkload \<Rightarrow> rcall call set \<Rightarrow> bool" where
  "answered R ns x C \<longleftrightarrow>
     (\<exists>raw y. at_version (rn_lib R) (cw_TemplateID x) (cw_TemplateVersion x) \<and>
        CCreateWorkload (claimed_object ns x raw) (Inr y) \<in> C) \<or>
     (\<exists>c \<in> C. reported [] (cw_WorkloadID x)
        (at_version (rn_lib R) (cw_TemplateID x) (cw_TemplateVersion x)) c)"

lemma answered_mono: "answered R ns x C \<Longrightarrow> C \<subseteq> D \<Longrightarrow> answered R ns x D"
  unfolding answered_def by blast

lemma createClaimed_answered:
  assumes "can_report (rn_convex R) c" "runs (createClaimed R ns c t x snap) w r cs w'"
  shows "answered R ns x (set cs)"
  using assms(2)
proof (cases rule: createClaimed_runs)
  case mismatch
  with assms(1) obtain c ds where "cs = c # ds" by (cases cs) auto
  with mismatch show ?thesis by (auto simp: answered_def)
next
  case (failed tmpl ds es)
  with assms(1) obtain c fs where "es = c # fs" by (cases es) auto
  with failed show ?thesis by (auto simp: answered_def)
next
  case created
  then show ?thesis by (auto simp: answered_def)
qed

lemma not_granted:
  "reported n j b c \<Longrightarrow> \<not> granted C i x c" "\<not> granted C i x (CCreateWorkload o1 q)"
  by (auto simp: reported_def granted_def)

lemma granted_unique: "granted C i x c \<Longrightarrow> granted C j y c \<Longrightarrow> x = y"
  by (auto simp: granted_def)

lemma createClaimed_not_granted:
  assumes "runs (createClaimed R ns c t x snap) w r cs w'" "c0 \<in> set cs"
  shows "\<not> granted C i y c0"
  using assms(1)
  by (cases rule: createClaimed_runs) (use assms(2) not_granted in \<open>fastforce simp: list_all_iff\<close>)+

lemma claimAll_answered:
  assumes "can_report (rn_convex R) c" "runs (claimAll R ns c t items snap) w r cs w'"
    and "c0 \<in> set cs" "granted (rn_convex R) i x c0"
  shows "answered R ns x (set cs)"
  using assms(2-4)
proof (induction items arbitrary: snap w cs)
  case (Cons a items)
  from Cons.prems(1) obtain snap' ds w1 es where one: "runs (claimOne R ns c t a snap) w snap' ds w1"
    and cs: "cs = ds @ es" and all: "runs (claimAll R ns c t items snap') w1 r es w'"
    unfolding claimAll.simps by (rule runs_bindE) simp_all
  show ?case
  proof (cases "c0 \<in> set es")
    case True
    from Cons.IH [OF all this Cons.prems(3)] cs show ?thesis by (auto intro: answered_mono)
  next
    case False
    with Cons.prems(2) cs have "c0 \<in> set ds" by simp
    with one Cons.prems(3) have "answered R ns x (set ds)"
    proof (cases rule: claimOne_runs)
      case idle
      with \<open>c0 \<in> set ds\<close> Cons.prems(3) show ?thesis by (auto simp: granted_def)
    next
      case (won y c1 w2 fs)
      with \<open>c0 \<in> set ds\<close> Cons.prems(3) createClaimed_not_granted [OF won(4)] have "c0 = c1" by auto
      with won(3) Cons.prems(3) have "y = x" by (blast intro: granted_unique)
      with createClaimed_answered [OF assms(1) won(4)] won(2) show ?thesis by (auto intro: answered_mono)
    qed
    with cs show ?thesis by (auto intro: answered_mono)
  qed
qed (simp add: runs_return)

text \<open>
  A call that only certain earlier calls justify: \<open>owed J cs\<close> says that each call of \<open>cs\<close> that needs
  it is justified by \<open>J\<close> from the calls before it.
\<close>

definition owed :: "('c set \<Rightarrow> 'c \<Rightarrow> bool) \<Rightarrow> 'c list \<Rightarrow> bool" where
  "owed J cs \<longleftrightarrow> (\<forall>xs c ys. cs = xs @ c # ys \<longrightarrow> J (set xs) c)"

lemma owed_Nil [simp]: "owed J []"
  by (simp add: owed_def)

lemma owed_Cons:
  assumes "\<And>A B c. J A c \<Longrightarrow> A \<subseteq> B \<Longrightarrow> J B c"
  shows "J {} c \<Longrightarrow> owed (\<lambda>A. J (insert c A)) cs \<Longrightarrow> owed J (c # cs)"
  unfolding owed_def by (auto simp: Cons_eq_append_conv)

lemma owed_append:
  assumes mono: "\<And>A B c. J A c \<Longrightarrow> A \<subseteq> B \<Longrightarrow> J B c" and "owed J as" "owed J bs"
  shows "owed J (as @ bs)"
  unfolding owed_def
proof (intro allI impI)
  fix xs c ys
  assume "as @ bs = xs @ c # ys"
  then obtain us where "as = xs @ us \<and> us @ bs = c # ys \<or> as @ us = xs \<and> bs = us @ c # ys"
    by (auto simp: append_eq_append_conv2)
  then consider us' where "as = xs @ c # us'" | us where "xs = as @ us" "bs = us @ c # ys"
    by (cases us) auto
  then show "J (set xs) c"
  proof cases
    case 1
    with assms(2) show ?thesis by (auto simp: owed_def)
  next
    case 2
    with assms(3) have "J (set us) c" by (auto simp: owed_def)
    with 2 show ?thesis by (auto intro: mono)
  qed
qed

text \<open>A creation is owed to a claim granted before, of a template at the version claimed.\<close>

definition creation_owed :: "'w runnable \<Rightarrow> string \<Rightarrow> rcall call set \<Rightarrow> rcall call \<Rightarrow> bool" where
  "creation_owed R ns A c \<longleftrightarrow> (\<forall>y q. c = CCreateWorkload y q \<longrightarrow>
     (\<exists>i x raw c0. c0 \<in> A \<and> granted (rn_convex R) i x c0 \<and> y = claimed_object ns x raw \<and>
        at_version (rn_lib R) (cw_TemplateID x) (cw_TemplateVersion x) \<and>
        accepted (rn_lib R) (cw_TemplateID x) (cw_Config x) raw))"

lemma creation_owed_mono: "creation_owed R ns A c \<Longrightarrow> A \<subseteq> B \<Longrightarrow> creation_owed R ns B c"
  unfolding creation_owed_def by blast

lemma creation_owed_reported: "reported n i b c \<Longrightarrow> creation_owed R ns A c"
  by (auto simp: reported_def creation_owed_def)

lemma owed_all: "list_all (\<lambda>c. \<forall>A. J A c) cs \<Longrightarrow> owed J cs"
  by (auto simp: owed_def)

lemma createClaimed_owed:
  assumes "runs (createClaimed R ns c t x snap) w r cs w'" "c0 \<in> A" "granted (rn_convex R) i x c0"
  shows "owed (\<lambda>B. creation_owed R ns (A \<union> B)) cs"
proof -
  note mono = creation_owed_mono [of R ns]
  have own: "creation_owed R ns (A \<union> B) (CCreateWorkload (claimed_object ns x raw) q)"
    if "version_matches (rn_lib R) (cw_TemplateID x) (cw_TemplateVersion x) = Some tmpl"
      "accepted (rn_lib R) (cw_TemplateID x) (cw_Config x) raw" for B tmpl raw q
    using that assms(2,3) unfolding creation_owed_def at_version_iff by blast
  have rep: "owed (\<lambda>B. creation_owed R ns (A \<union> B)) es" if "list_all (reported n j b) es" for es n j b
    by (rule owed_all) (use that in \<open>auto simp: list_all_iff intro: creation_owed_reported\<close>)
  from assms(1) show ?thesis
  proof (cases rule: createClaimed_runs)
    case mismatch
    then show ?thesis by (blast intro: rep)
  next
    case (failed tmpl ds es)
    have "owed (\<lambda>B. creation_owed R ns (A \<union> B)) ds"
      using failed(1,6) own by (intro owed_all) auto
    with rep [OF failed(4)] show ?thesis
      unfolding failed(3) by (intro owed_append) (auto elim: mono)
  next
    case (created tmpl raw y)
    then show ?thesis using own by (intro owed_all) auto
  qed
qed

lemma claimOne_owed:
  assumes "runs (claimOne R ns c t item snap) w r cs w'"
  shows "owed (creation_owed R ns) cs"
  using assms
proof (cases rule: claimOne_runs)
  case idle
  then show ?thesis by (intro owed_all) (auto simp: creation_owed_def)
next
  case (won x c0 w1 ds)
  have "owed (\<lambda>B. creation_owed R ns ({c0} \<union> B)) ds"
    by (rule createClaimed_owed [OF won(4) _ won(3)]) simp
  moreover from won(3) have "creation_owed R ns {} c0" by (auto simp: granted_def creation_owed_def)
  ultimately show ?thesis
    unfolding won(2) by (intro owed_Cons) (auto elim: creation_owed_mono)
qed

lemma claimAll_owed:
  assumes "runs (claimAll R ns c t items snap) w r cs w'"
  shows "owed (creation_owed R ns) cs"
  using assms
proof (induction items arbitrary: snap w cs)
  case (Cons a items)
  from Cons.prems obtain snap' ds w1 es where one: "runs (claimOne R ns c t a snap) w snap' ds w1"
    and cs: "cs = ds @ es" and all: "runs (claimAll R ns c t items snap') w1 r es w'"
    unfolding claimAll.simps by (rule runs_bindE) simp_all
  from claimOne_owed [OF one] Cons.IH [OF all] show ?case
    unfolding cs by (intro owed_append) (auto elim: creation_owed_mono)
qed (simp add: runs_return)

section \<open>The capacity gate\<close>

definition nonneg :: "snapshot \<Rightarrow> bool" where
  "nonneg s \<longleftrightarrow> 0 \<le> sint (AllocatableMilliCPU s) \<and> 0 \<le> sint (AllocatableMemoryBytes s) \<and>
     0 \<le> sint (UsedMilliCPU s) \<and> 0 \<le> sint (UsedMemoryBytes s)"

definition estimates_nonneg :: "lib \<Rightarrow> bool" where
  "estimates_nonneg L \<longleftrightarrow> list_all (\<lambda>t. 0 \<le> sint (fst (EstimatedResources L t)) \<and>
     0 \<le> sint (snd (EstimatedResources L t))) (templates L)"

text \<open>The estimated cost of the Workloads that a history successfully created.\<close>

definition created_cost :: "lib \<Rightarrow> rcall call \<Rightarrow> int \<times> int" where
  "created_cost L c = (case c of
     CCreateWorkload y (Inr _) \<Rightarrow> (case Get L (templateName (spec y)) of
        None \<Rightarrow> (0, 0)
      | Some t \<Rightarrow> (sint (fst (EstimatedResources L t)), sint (snd (EstimatedResources L t))))
   | _ \<Rightarrow> (0, 0))"

definition total_cpu :: "lib \<Rightarrow> rcall call list \<Rightarrow> int" where
  "total_cpu L cs = (\<Sum>c\<leftarrow>cs. fst (created_cost L c))"

definition total_mem :: "lib \<Rightarrow> rcall call list \<Rightarrow> int" where
  "total_mem L cs = (\<Sum>c\<leftarrow>cs. snd (created_cost L c))"

lemma total_simps [simp]:
  "total_cpu L [] = 0" "total_mem L [] = 0"
  "total_cpu L (c # cs) = fst (created_cost L c) + total_cpu L cs"
  "total_mem L (c # cs) = snd (created_cost L c) + total_mem L cs"
  "total_cpu L (cs @ ds) = total_cpu L cs + total_cpu L ds"
  "total_mem L (cs @ ds) = total_mem L cs + total_mem L ds"
  by (simp_all add: total_cpu_def total_mem_def)

lemma cost_reported: "reported n i b c \<Longrightarrow> created_cost L c = (0, 0)"
  by (auto simp: reported_def created_cost_def)

lemma total_reported: "list_all (reported n i b) cs \<Longrightarrow> total_cpu L cs = 0 \<and> total_mem L cs = 0"
  by (induction cs) (auto simp: cost_reported)

lemma sint_add_bounded:
  fixes a b :: int64
  assumes "0 \<le> sint a" "0 \<le> sint b" "sint a + sint b < 2 ^ 63"
  shows "sint (a + b) = sint a + sint b"
proof -
  have "a + b = word_of_int (sint a + sint b)" by simp
  moreover have "sint (word_of_int (sint a + sint b) :: int64) = sint a + sint b"
    using assms by (intro sint_int64) simp_all
  ultimately show ?thesis by simp
qed

text \<open>Reserving for a template that fits is exact and stays within the allocatable resources.\<close>

lemma reserve_fits:
  assumes "nonneg s" "estimates_nonneg L" "Get L i = Some tmpl"
    and "Fits s (fst (EstimatedResources L tmpl)) (snd (EstimatedResources L tmpl))"
  shows "nonneg (reserve L tmpl s) \<and>
    AllocatableMilliCPU (reserve L tmpl s) = AllocatableMilliCPU s \<and>
    AllocatableMemoryBytes (reserve L tmpl s) = AllocatableMemoryBytes s \<and>
    sint (UsedMilliCPU (reserve L tmpl s)) = sint (UsedMilliCPU s) + sint (fst (EstimatedResources L tmpl)) \<and>
    sint (UsedMemoryBytes (reserve L tmpl s)) = sint (UsedMemoryBytes s) + sint (snd (EstimatedResources L tmpl)) \<and>
    sint (UsedMilliCPU (reserve L tmpl s)) \<le> sint (AllocatableMilliCPU s) \<and>
    sint (UsedMemoryBytes (reserve L tmpl s)) \<le> sint (AllocatableMemoryBytes s)"
proof -
  let ?cpu = "fst (EstimatedResources L tmpl)" and ?mem = "snd (EstimatedResources L tmpl)"
  have "tmpl \<in> set (templates L)" using assms(3) by (auto simp: Get_def dest: Get_in_Some)
  with assms(2) have est: "0 \<le> sint ?cpu" "0 \<le> sint ?mem" by (auto simp: estimates_nonneg_def list_all_iff)
  from assms(1,4) have fit: "sint (UsedMilliCPU s) + sint ?cpu \<le> sint (AllocatableMilliCPU s)"
    "sint (UsedMemoryBytes s) + sint ?mem \<le> sint (AllocatableMemoryBytes s)"
    by (simp_all add: Fits_nonneg nonneg_def)
  have add: "sint (UsedMilliCPU s + ?cpu) = sint (UsedMilliCPU s) + sint ?cpu"
    "sint (UsedMemoryBytes s + ?mem) = sint (UsedMemoryBytes s) + sint ?mem"
    using est fit assms(1) sint_int64_range [of "AllocatableMilliCPU s"] sint_int64_range [of "AllocatableMemoryBytes s"]
    by (auto intro!: sint_add_bounded simp: nonneg_def)
  with est fit assms(1) show ?thesis by (simp add: reserve_def case_prod_beta nonneg_def)
qed

definition stored :: "rcall call \<Rightarrow> bool" where
  "stored c \<longleftrightarrow> (\<exists>y z. c = CCreateWorkload y (Inr z))"

definition in_limits :: "snapshot \<Rightarrow> bool" where
  "in_limits s \<longleftrightarrow> sint (UsedMilliCPU s) \<le> sint (AllocatableMilliCPU s) \<and>
     sint (UsedMemoryBytes s) \<le> sint (AllocatableMemoryBytes s)"

text \<open>From \<open>s\<close> to \<open>s'\<close> exactly the cost of the created Workloads is spent, and never beyond the limits.\<close>

definition spent :: "lib \<Rightarrow> snapshot \<Rightarrow> snapshot \<Rightarrow> rcall call list \<Rightarrow> bool" where
  "spent L s s' cs \<longleftrightarrow> nonneg s' \<and> AllocatableMilliCPU s' = AllocatableMilliCPU s \<and>
     AllocatableMemoryBytes s' = AllocatableMemoryBytes s \<and>
     sint (UsedMilliCPU s') = sint (UsedMilliCPU s) + total_cpu L cs \<and>
     sint (UsedMemoryBytes s') = sint (UsedMemoryBytes s) + total_mem L cs \<and>
     (list_all (\<lambda>c. \<not> stored c) cs \<or> in_limits s')"

lemma total_not_stored:
  "list_all (\<lambda>c. \<not> stored c) cs \<Longrightarrow> total_cpu L cs = 0 \<and> total_mem L cs = 0"
  by (induction cs) (auto simp: stored_def created_cost_def split: call.split sum.split)

lemma spent_none: "nonneg s \<Longrightarrow> list_all (\<lambda>c. \<not> stored c) cs \<Longrightarrow> spent L s s cs"
  by (simp add: spent_def total_not_stored)

lemma spent_trans:
  assumes "spent L s s' cs" "spent L s' s'' ds"
  shows "spent L s s'' (cs @ ds)"
proof -
  have "in_limits s''" if "in_limits s'" "list_all (\<lambda>c. \<not> stored c) ds"
    using that assms(2) total_not_stored [of ds L] by (auto simp: spent_def in_limits_def)
  with assms show ?thesis unfolding spent_def by auto
qed

lemma reported_not_stored: "list_all (reported n i b) cs \<Longrightarrow> list_all (\<lambda>c. \<not> stored c) cs"
  by (auto simp: list_all_iff reported_def stored_def)

lemma claimed_template [simp]: "templateName (spec (claimed_object ns x raw)) = cw_TemplateID x"
  by (simp add: claimed_object_def created_object_def)

lemma claimOne_spent:
  assumes "nonneg s" "estimates_nonneg (rn_lib R)" "runs (claimOne R ns c t item (Some s)) w r cs w'"
    and echo: "\<And>x c. c \<in> set cs \<Longrightarrow> granted (rn_convex R) (cl_WorkloadID item) x c \<Longrightarrow> cw_TemplateID x = cl_TemplateID item"
  shows "\<exists>s'. r = Some s' \<and> spent (rn_lib R) s s' cs"
  using assms(3)
proof (cases rule: claimOne_runs)
  case idle
  with assms(1) show ?thesis by (auto intro!: spent_none simp: stored_def)
next
  case (won x c0 w1 ds)
  have c0: "\<not> stored c0" using won(3) by (auto simp: granted_def stored_def)
  have tid: "cw_TemplateID x = cl_TemplateID item" using echo won(2,3) by auto
  from won(4) show ?thesis
  proof (cases rule: createClaimed_runs)
    case mismatch
    with c0 won(2) reported_not_stored show ?thesis by (auto intro!: spent_none [OF assms(1)])
  next
    case (failed tmpl es fs)
    with c0 won(2) reported_not_stored [OF failed(4)] show ?thesis
      by (auto intro!: spent_none [OF assms(1)] simp: stored_def)
  next
    case (created tmpl raw y)
    have get: "Get (rn_lib R) (cl_TemplateID item) = Some tmpl"
      using created(1) tid by (auto simp: version_matches_def split: option.splits if_splits)
    with won(1) have "Fits s (fst (EstimatedResources (rn_lib R) tmpl)) (snd (EstimatedResources (rn_lib R) tmpl))"
      by (simp add: gated_def case_prod_beta)
    note res = reserve_fits [OF assms(1,2) get this]
    have "created_cost (rn_lib R) (CCreateWorkload (claimed_object ns x raw) (Inr y)) =
        (sint (fst (EstimatedResources (rn_lib R) tmpl)), sint (snd (EstimatedResources (rn_lib R) tmpl)))"
      using get tid by (simp add: created_cost_def)
    moreover from won(3) have "created_cost (rn_lib R) c0 = (0, 0)"
      by (auto simp: granted_def created_cost_def)
    ultimately have "spent (rn_lib R) s (reserve (rn_lib R) tmpl s) cs"
      using res won(2) created(3) by (simp add: spent_def in_limits_def)
    with created(4) show ?thesis by simp
  qed
qed

lemma claimAll_spent:
  assumes "nonneg s" "estimates_nonneg (rn_lib R)" "runs (claimAll R ns c t items (Some s)) w r cs w'"
    and "\<forall>item \<in> set items. \<forall>x c. c \<in> set cs \<longrightarrow> granted (rn_convex R) (cl_WorkloadID item) x c \<longrightarrow>
      cw_TemplateID x = cl_TemplateID item"
  shows "\<exists>s'. r = Some s' \<and> spent (rn_lib R) s s' cs"
  using assms(1,3,4)
proof (induction items arbitrary: s w cs)
  case (Cons a items)
  from Cons.prems(2) obtain snap' ds w1 es where one: "runs (claimOne R ns c t a (Some s)) w snap' ds w1"
    and cs: "cs = ds @ es" and all: "runs (claimAll R ns c t items snap') w1 r es w'"
    unfolding claimAll.simps by (rule runs_bindE) simp_all
  from Cons.prems(3) cs have "\<exists>s'. snap' = Some s' \<and> spent (rn_lib R) s s' ds"
    by (intro claimOne_spent [OF Cons.prems(1) assms(2) one]) simp
  then obtain s1 where s1: "snap' = Some s1" "spent (rn_lib R) s s1 ds" by (elim exE conjE)
  then have "nonneg s1" by (simp add: spent_def)
  moreover from Cons.prems(3) cs have "\<forall>item \<in> set items. \<forall>x c. c \<in> set es \<longrightarrow>
      granted (rn_convex R) (cl_WorkloadID item) x c \<longrightarrow> cw_TemplateID x = cl_TemplateID item" by simp
  ultimately obtain s2 where "r = Some s2" "spent (rn_lib R) s1 s2 es"
    using Cons.IH [of s1 w1 es] all s1(1) by auto
  with s1 cs show ?case by (auto intro: spent_trans)
qed (simp add: runs_return spent_none)

end
