(* ===== verification/Runnable_Props.thy ===== *)
theory Runnable_Props
  imports Runnable_Correct
begin

text \<open>
  The properties of the registration and claim loop, with witnesses on a concrete operator.
\<close>

section \<open>A concrete operator\<close>

definition demo_runnable :: "int \<Rightarrow> nat runnable" where
  "demo_runnable st = \<lparr>rn_lib = demo_lib, rn_digest = (\<lambda>s. ''h''), rn_kube = demo_kube,
     rn_convex = demo_convex st, rn_store = ''ns'', rn_readFile = (\<lambda>p. answer (Inr ''new'')),
     rn_enrollmentPath = EnrollmentSecretPath, rn_creator = Some ''ns'', rn_destroyer = Some ''ns'',
     rn_capacity = Some (Snapshot demo_lib demo_kube ''ns''), rn_usage = None\<rparr>"

definition demo_state :: rstate where
  "demo_state = \<lparr>rs_config = demo_config, rs_tokens = no_tokens\<lparr>HeartbeatToken := ''h'', DeployToken := ''d''\<rparr>\<rparr>"

lemma demo_runnable_simps [simp]:
  "rn_lib (demo_runnable st) = demo_lib" "rn_kube (demo_runnable st) = demo_kube"
  "rn_convex (demo_runnable st) = demo_convex st" "rn_store (demo_runnable st) = ''ns''"
  "rn_readFile (demo_runnable st) p w = (Inr ''new'', w)"
  "rn_enrollmentPath (demo_runnable st) = EnrollmentSecretPath"
  "rn_creator (demo_runnable st) = Some ''ns''" "rn_destroyer (demo_runnable st) = Some ''ns''"
  "rn_capacity (demo_runnable st) = Some (Snapshot demo_lib demo_kube ''ns'')" "rn_usage (demo_runnable st) = None"
  by (simp_all add: demo_runnable_def answer_def)

lemma demo_sources: "sources (demo_runnable st)"
  by (auto simp: sources_def intro: capacity_source.reading_source_axioms)

lemma demo_can_report: "can_report (rn_convex (demo_runnable st)) c"
  by (simp add: can_report_def)

section \<open>What one heartbeat may do\<close>

lemma atmostD: "atmost P n m \<Longrightarrow> runs m w a cs w' \<Longrightarrow> length (filter P cs) \<le> n"
  unfolding atmost_def by blast

text \<open>C39: One heartbeat, whatever Convex answers, creates at most five Workloads and changes or deletes
  at most five; every request it makes carries exactly the heartbeat token held when it began, and
  a registration request carries no token at all.\<close>

theorem heartbeat_bounded:
  assumes "sources R" "runs (heartbeatOnce R s) w s' cs w'"
  shows "length (filter creates cs) \<le> maxClaimsPerTick \<and> length (filter alters cs) \<le> maxPendingOperationsPerTick \<and>
    list_all (bearer (HeartbeatToken (rs_tokens s))) cs"
  using atmost_heartbeatOnce [OF assms(1), THEN atmostD, OF _ assms(2)]
    emits_runs [OF emits_heartbeatOnce [OF assms(1)] assms(2)]
  by (simp add: maxClaimsPerTick_def maxPendingOperationsPerTick_def)

theorem heartbeat_bounded_witness:
  "\<exists>s' cs w'. runs (heartbeatOnce (demo_runnable 200) demo_state) 0 s' cs w' \<and>
     length (filter creates cs) \<le> 5 \<and> length (filter alters cs) \<le> 5 \<and> list_all (bearer ''h'') cs"
proof -
  let ?H = "heartbeatOnce (demo_runnable 200) demo_state"
  obtain s' cs w' where run: "runs ?H 0 s' cs w'" using runs_total [of ?H 0] by auto
  from heartbeat_bounded [OF demo_sources run] run show ?thesis
    by (auto simp: maxClaimsPerTick_def maxPendingOperationsPerTick_def demo_state_def)
qed

section \<open>Claims\<close>

text \<open>C8: A claim that Convex granted is never forgotten: in the same heartbeat the Workload it asks for
  is created, or a failure is reported for that row, which is terminal exactly when the template
  is unknown or at another version than the one claimed, and retryable otherwise.\<close>

theorem granted_claim_answered:
  assumes "can_report (rn_convex R) c" "runs (processClaimable R c token items snap) w r cs w'"
    and "c0 \<in> set cs" "granted (rn_convex R) i x c0"
  shows "\<exists>ns. rn_creator R = Some ns \<and> answered R ns x (set cs)"
proof (cases "rn_creator R")
  case None
  with assms(2,3) show ?thesis by (simp add: processClaimable_def runs_return)
next
  case (Some ns)
  with assms(2) claimAll_answered [OF assms(1) _ assms(3,4)] show ?thesis by (simp add: processClaimable_def)
qed

text \<open>C9: No Workload is created on the operator's own account: before every creation Convex granted the
  claim for it, the catalog has its template and at exactly the claimed version, and the object written is the
  one the claim describes, with a configuration the template accepts.\<close>

theorem creation_needs_grant:
  assumes "runs (processClaimable R c token items snap) w r cs w'" "cs = pre @ CCreateWorkload y q # rest"
  shows "\<exists>ns i x raw c0. rn_creator R = Some ns \<and> c0 \<in> set pre \<and> granted (rn_convex R) i x c0 \<and>
    y = claimed_object ns x raw \<and>
    at_version (rn_lib R) (cw_TemplateID x) (cw_TemplateVersion x) \<and>
    accepted (rn_lib R) (cw_TemplateID x) (cw_Config x) raw"
proof (cases "rn_creator R")
  case None
  with assms show ?thesis by (simp add: processClaimable_def runs_return)
next
  case (Some ns)
  with assms(1) have "owed (creation_owed R ns) cs" by (auto simp: processClaimable_def dest: claimAll_owed)
  with assms(2) have "creation_owed R ns (set pre) (CCreateWorkload y q)" by (auto simp: owed_def)
  with Some show ?thesis unfolding creation_owed_def by auto
qed

text \<open>C7: The capacity gate holds for the sum of a heartbeat: whatever Convex offers, and given that the
  capacity could be read (without a reading the code lets every claim through), the estimated cost
  of all Workloads created in it, added to what was in use, stays within the allocatable CPU and
  memory. Convex is relied on to grant a claim for the template it offered; a cluster that is
  already over its limits creates nothing.\<close>

theorem created_within_capacity:
  assumes "nonneg s" "estimates_nonneg (rn_lib R)"
    and "runs (processClaimable R c token items (Some s)) w r cs w'"
    and "\<forall>item \<in> set items. \<forall>x c. c \<in> set cs \<longrightarrow> granted (rn_convex R) (cl_WorkloadID item) x c \<longrightarrow>
      cw_TemplateID x = cl_TemplateID item"
  shows "list_all (\<lambda>c. \<not> stored c) cs \<or>
    sint (UsedMilliCPU s) + total_cpu (rn_lib R) cs \<le> sint (AllocatableMilliCPU s) \<and>
    sint (UsedMemoryBytes s) + total_mem (rn_lib R) cs \<le> sint (AllocatableMemoryBytes s)"
proof (cases "rn_creator R")
  case None
  with assms(3) show ?thesis by (simp add: processClaimable_def runs_return)
next
  case (Some ns)
  let ?items = "take (min (length items) maxClaimsPerTick) items"
  have "\<forall>item \<in> set ?items. \<forall>x c. c \<in> set cs \<longrightarrow> granted (rn_convex R) (cl_WorkloadID item) x c \<longrightarrow>
      cw_TemplateID x = cl_TemplateID item"
    using assms(4) by (blast dest: in_set_takeD)
  with assms(1-3) Some have "\<exists>s'. r = Some s' \<and> spent (rn_lib R) s s' cs"
    by (intro claimAll_spent) (simp_all add: processClaimable_def)
  then show ?thesis by (auto simp: spent_def in_limits_def)
qed

subsection \<open>Witnesses\<close>

definition demo_items :: "claimableWorkload list" where
  "demo_items = [\<lparr>cl_WorkloadID = ''wl1'', cl_TemplateID = ''nginx''\<rparr>]"

definition demo_raw_object :: workload where
  "demo_raw_object = claimed_object ''ns'' demo_claim None"

definition claim_call :: "int \<Rightarrow> rcall call" where
  "claim_call st = Other (HDo (post_request ''https://c/operators/workloads/claim'' (Some ''h'') (encode (claimWorkloadRequest_json ''wl1'')))
     (WClaimWorkload ''wl1'') (Inr \<lparr>rs_StatusCode = st, rs_Body = demo_body\<rparr>))"

lemma demo_nginx: "Get demo_lib ''nginx'' = Some (Nginx demo_lib)"
  by (simp add: Get_def templates_def template_defs template_id_defs)

lemma demo_version: "version_matches demo_lib (cw_TemplateID demo_claim) (cw_TemplateVersion demo_claim) = Some (Nginx demo_lib)"
  by (simp add: version_matches_def demo_claim_def demo_nginx) (simp add: Nginx_def initialTemplateVersion_def)

lemma demo_resolve:
  "ResolveParams demo_lib (t_parameters (Nginx demo_lib)) Map.empty =
      Inr (applyDefaults (t_parameters (Nginx demo_lib)) Map.empty)"
  by (simp add: ResolveParams_def Nginx_def Nginx_parameters_def param_def no_validation_def
      is_visible_def present_def vget_def checkValidation_def param_key_defs)

lemma demo_create:
  "runs (Create demo_lib demo_kube ''ns'' ''wl1'' ''nginx'' ''u1'' [] None :: (nat, rcall, go_error + workload) kprog) w
     (Inr demo_raw_object) [CCreateWorkload demo_raw_object (Inr demo_raw_object)] w"
  by (simp add: Create_def demo_nginx demo_resolve marshalConfig_def cfg_map_def created_object_def
      claimed_object_def demo_claim_def demo_raw_object_def runs_rules demo_kube_simps)

lemma demo_claim_runs:
  "runs (Client_ClaimWorkload (demo_convex st :: nat convex) demo_config ''h'' ''wl1'') w
     (claim_result ''claim workload'' (cv_decodeClaimWorkload (demo_convex st)) (Inr \<lparr>rs_StatusCode = st, rs_Body = demo_body\<rparr>)) [claim_call st] w"
  by (simp add: Client_ClaimWorkload_def post_def runs_bind runs_ext runs_return claim_call_def demo_config_def
      claim_result_def decode_body_def)

lemma demo_process:
  assumes "\<not> gated demo_lib snap ''nginx''"
  shows "runs (processClaimable (demo_runnable 200) demo_config ''h'' demo_items snap) 0
     (map_option (reserve demo_lib (Nginx demo_lib)) snap)
     [claim_call 200, CCreateWorkload demo_raw_object (Inr demo_raw_object)] 0"
proof -
  have "runs (createClaimed (demo_runnable 200) ''ns'' demo_config ''h'' demo_claim snap) 0
      (map_option (reserve demo_lib (Nginx demo_lib)) snap)
      ([CCreateWorkload demo_raw_object (Inr demo_raw_object)] @ []) 0"
    unfolding createClaimed_def demo_runnable_simps demo_version option.case
    by (rule runs_bindI [where a = "Inr demo_raw_object"])
       (use demo_create in \<open>simp_all add: demo_claim_def runs_return\<close>)
  with assms have "runs (claimOne (demo_runnable 200) ''ns'' demo_config ''h'' (hd demo_items) snap) 0
      (map_option (reserve demo_lib (Nginx demo_lib)) snap)
      ([claim_call 200] @ [CCreateWorkload demo_raw_object (Inr demo_raw_object)]) 0"
    unfolding claimOne_def using demo_claim_runs [of 200 0]
    by (simp add: demo_items_def) (rule runs_bindI [of _ _ _ "[claim_call 200]", simplified],
      assumption, simp_all add: claim_result_def decode_body_def)
  then show ?thesis
    by (simp add: processClaimable_def demo_items_def maxClaimsPerTick_def runs_bind runs_return)
qed

lemma demo_granted: "granted (rn_convex (demo_runnable 200)) ''wl1'' demo_claim (claim_call 200)"
  by (simp add: granted_def claim_call_def)

theorem granted_claim_answered_witness:
  "\<exists>r cs w' ns. runs (processClaimable (demo_runnable 200) demo_config ''h'' demo_items None) 0 r cs w' \<and>
     claim_call 200 \<in> set cs \<and> answered (demo_runnable 200) ns demo_claim (set cs)"
proof -
  have run: "runs (processClaimable (demo_runnable 200) demo_config ''h'' demo_items None) 0 None
     [claim_call 200, CCreateWorkload demo_raw_object (Inr demo_raw_object)] 0"
    using demo_process [of None] by (simp add: gated_def)
  from granted_claim_answered [OF demo_can_report run _ demo_granted]
  obtain ns where "answered (demo_runnable 200) ns demo_claim
      (set [claim_call 200, CCreateWorkload demo_raw_object (Inr demo_raw_object)])" by auto
  with run show ?thesis
    by (intro exI [of _ None] exI [of _ "[claim_call 200, CCreateWorkload demo_raw_object (Inr demo_raw_object)]"]
        exI [of _ 0] exI [of _ ns]) simp
qed

theorem creation_needs_grant_witness:
  "\<exists>ns i x raw. rn_creator (demo_runnable 200) = Some ns \<and> granted (rn_convex (demo_runnable 200)) i x (claim_call 200) \<and>
     demo_raw_object = claimed_object ns x raw"
proof -
  have run: "runs (processClaimable (demo_runnable 200) demo_config ''h'' demo_items None) 0 None
     ([claim_call 200] @ CCreateWorkload demo_raw_object (Inr demo_raw_object) # []) 0"
    using demo_process [of None] by (simp add: gated_def)
  from creation_needs_grant [OF run refl] show ?thesis by auto
qed

definition roomy :: snapshot where
  "roomy = \<lparr>AllocatableMilliCPU = 1500, AllocatableMemoryBytes = 2147483648, UsedMilliCPU = 0, UsedMemoryBytes = 0\<rparr>"

lemma demo_estimates:
  "EstimatedResources demo_lib (Nginx demo_lib) = (50, 67108864)"
  "estimates_nonneg demo_lib"
  by (simp_all add: estimates_nonneg_def templates_def EstimatedResources_def template_defs build_defs
    containers_requests_def browserResources_def Cpu_def Memory_def ResourceCPU_def ResourceMemory_def
    demo_lib_def table_milli_def table_value_def quantity_table_def)

theorem created_within_capacity_witness:
  "\<exists>r cs w'. runs (processClaimable (demo_runnable 200) demo_config ''h'' demo_items (Some roomy)) 0 r cs w' \<and>
     \<not> list_all (\<lambda>c. \<not> stored c) cs \<and> sint (UsedMilliCPU roomy) + total_cpu demo_lib cs \<le> sint (AllocatableMilliCPU roomy)"
proof -
  have "\<not> gated demo_lib (Some roomy) ''nginx''"
    by (simp add: gated_def demo_nginx demo_estimates(1) Fits_def roomy_def)
  note run = demo_process [OF this]
  have "nonneg roomy" by (simp add: nonneg_def roomy_def)
  from created_within_capacity [OF this _ run] demo_estimates(2)
  have "list_all (\<lambda>c. \<not> stored c) [claim_call 200, CCreateWorkload demo_raw_object (Inr demo_raw_object)] \<or>
    sint (UsedMilliCPU roomy) + total_cpu demo_lib [claim_call 200, CCreateWorkload demo_raw_object (Inr demo_raw_object)]
      \<le> sint (AllocatableMilliCPU roomy)"
    by (auto simp: demo_items_def granted_def claim_call_def demo_claim_def)
  moreover have st: "\<not> list_all (\<lambda>c. \<not> stored c) [claim_call 200, CCreateWorkload demo_raw_object (Inr demo_raw_object)]"
    by (simp add: stored_def)
  ultimately show ?thesis using run st by (intro exI conjI) auto
qed

section \<open>Pending operations\<close>

lemma Destroy_runs:
  "runs (Destroy K ns n) w r cs w' \<longleftrightarrow> (\<exists>q. k_deleteWorkload K ns n w = (q, w') \<and> cs = [CDeleteWorkload ns n q] \<and>
     r = (case q of None \<Rightarrow> None
          | Some e \<Rightarrow> if IsNotFound e then None
                      else Some (Wrap (''deleting workload '' @ go_quote n @ '': '') e [])))"
  by (auto simp: Destroy_def runs_rules)

lemma reportOn_runs:
  assumes "runs (reportOn R c t n e) w u cs w'"
  shows "list_all (reported n [] True) cs \<and> (e = None \<longrightarrow> cs = []) \<and>
    (e \<noteq> None \<longrightarrow> can_report (rn_convex R) c \<longrightarrow> cs \<noteq> [])"
proof (cases e)
  case None
  with assms show ?thesis by (simp add: reportOn_def runs_return)
next
  case (Some err)
  with assms obtain e' where rep: "runs (reportFailed R c t n [] (error_text err) True) w e' cs w'"
    by (auto simp: reportOn_def runs_bind runs_return)
  from reportFailed_runs [OF rep] Some show ?thesis by simp
qed

text \<open>A claimed destroy deletes exactly the named Workload in the destroyer's namespace. A deletion
  that succeeded, or found the object already gone, is never reported to Convex by this path; any
  other outcome is reported as a failure, and always as a retryable one.\<close>

lemma destroy_reported_only_on_failure:
  assumes "can_report (rn_convex R) c" "runs (runOperation R c token op) w u cs w'"
    and "co_Operation op = operationDestroy" "rn_destroyer R = Some ns"
  shows "\<exists>q es. cs = CDeleteWorkload ns (co_Name op) q # es \<and>
    list_all (reported (co_Name op) [] True) es \<and>
    (es = [] \<longleftrightarrow> (case q of None \<Rightarrow> True | Some e \<Rightarrow> IsNotFound e))"
proof -
  from assms(2-4) obtain e ds w1 es where D: "runs (Destroy (rn_kube R) ns (co_Name op)) w e ds w1"
    and cs: "cs = ds @ es" and rep: "runs (reportOn R c token (co_Name op) e) w1 u es w'"
    by (auto simp: runOperation_def runs_bind)
  from D [unfolded Destroy_runs] obtain q where q: "ds = [CDeleteWorkload ns (co_Name op) q]"
    "e = (case q of None \<Rightarrow> None
          | Some e \<Rightarrow> if IsNotFound e then None
                      else Some (Wrap (''deleting workload '' @ go_quote (co_Name op) @ '': '') e []))"
    by (elim exE conjE)
  have "(e = None) = (case q of None \<Rightarrow> True | Some e \<Rightarrow> IsNotFound e)"
    using q(2) by (simp split: option.split)
  with reportOn_runs [OF rep] assms(1) q(1) cs show ?thesis by auto
qed

section \<open>Credentials\<close>

text \<open>A successful write of the credentials Secret holding \<open>t\<close>.\<close>

definition saved :: "tokens \<Rightarrow> rcall call \<Rightarrow> bool" where
  "saved t c \<longleftrightarrow> (\<exists>x. (c = CCreateSecret x None \<or> c = CUpdateSecret x None) \<and> tokens_of_data (sec_data x) = t)"

lemma Save_runs:
  assumes "runs (Save K ns t) w e cs w'"
  shows "e = None \<longleftrightarrow> (\<exists>c \<in> set cs. saved t c)" "e = None \<Longrightarrow> cs \<noteq> [] \<and> saved t (last cs)"
proof -
  from assms obtain q w1 ds where cs: "cs = CGetSecret ns SecretName q # ds"
    and rest: "runs (case q of
       Inl e \<Rightarrow>
         if IsNotFound e then do {
           c \<leftarrow> createSecret K \<lparr>sec_name = SecretName, sec_namespace = ns,
                  sec_labels = [ManagedBy \<mapsto> ManagedByValue], sec_type = ''Opaque'',
                  sec_data = put_tokens t Map.empty\<rparr>;
           ret (map_option (\<lambda>e. Wrap ''creating token secret: '' e []) c)
         }
         else ret (Some (Wrap ''getting token secret before update: '' e []))
     | Inr x \<Rightarrow> do {
         u \<leftarrow> updateSecret K (x\<lparr>sec_data := put_tokens t (sec_data x)\<rparr>);
         ret (map_option (\<lambda>e. Wrap ''updating token secret: '' e []) u)
       }) w1 e ds w'"
    unfolding Save_def getSecret_def by (rule runs_ext_bindE) simp_all
  consider "ds = []" "e \<noteq> None" | x r where "ds = [CCreateSecret x r] \<or> ds = [CUpdateSecret x r]"
      "e = None \<longleftrightarrow> r = None" "tokens_of_data (sec_data x) = t"
    using rest by (cases q) (auto simp: createSecret_def updateSecret_def runs_bind runs_ext runs_return split: if_splits)
  then show "e = None \<longleftrightarrow> (\<exists>c \<in> set cs. saved t c)" "e = None \<Longrightarrow> cs \<noteq> [] \<and> saved t (last cs)"
    by (cases; auto simp: cs saved_def)+
qed

lemma register_runs:
  assumes "runs (register R s) w (e, s') cs w'"
  shows "rs_config s' = rs_config s \<and> (e \<noteq> None \<longrightarrow> s' = s) \<and>
    (e = None \<longrightarrow> unchanged R (rs_config s) (rs_tokens s') \<and> cs \<noteq> [] \<and> saved (rs_tokens s') (last cs))"
proof -
  let ?t' = "\<lambda>t. t\<lparr>CatalogHash := catalogHash R, OperatorVersion := Version (rs_config s),
                    TagsFingerprint := Client_TagsFingerprint (rs_config s)\<rparr>"
  let ?rest = "\<lambda>r. case r of
       Inl e \<Rightarrow> ret (Some e, s)
     | Inr t \<Rightarrow> Save (rn_kube R) (rn_store R) (?t' t) \<bind> (\<lambda>e. 
         ret (case e of Some e \<Rightarrow> (Some e, s) | None \<Rightarrow> (None, s\<lparr>rs_tokens := ?t' t\<rparr>)))"
  from assms have "runs (Client_Register (rn_lib R) (rn_convex R) (rs_config s) \<bind> ?rest) w (e, s') cs w'"
    unfolding register_def Let_def .
  then obtain r ds w1 es where "runs (Client_Register (rn_lib R) (rn_convex R) (rs_config s)) w r ds w1"
    and cs: "cs = ds @ es" and rest: "runs (?rest r) w1 (e, s') es w'"
    by (rule runs_bindE) simp_all
  show ?thesis
  proof (cases r)
    case (Inl x)
    with rest show ?thesis by (simp add: runs_return)
  next
    case (Inr t)
    with rest obtain e' where save: "runs (Save (rn_kube R) (rn_store R) (?t' t)) w1 e' es w'"
      and res: "(e, s') = (case e' of Some e \<Rightarrow> (Some e, s) | None \<Rightarrow> (None, s\<lparr>rs_tokens := ?t' t\<rparr>))"
      by (auto simp: runs_bind runs_return)
    show ?thesis
    proof (cases e')
      case None
      with save Save_runs(2) [OF save] res cs show ?thesis
        by (simp add: unchanged_def)
    qed (use res in simp)
  qed
qed

text \<open>An accepted heartbeat that presented \<open>token\<close>.\<close>

definition accepted_heartbeat :: "string \<Rightarrow> rcall call \<Rightarrow> bool" where
  "accepted_heartbeat token c \<longleftrightarrow> (\<exists>rq b resp. c = Other (HDo rq (WHeartbeat b) (Inr resp)) \<and> rs_StatusCode resp = 200 \<and>
     rq_headers rq ''Authorization'' = Some (''Bearer '' @ token))"

lemma heartbeat_accepted:
  assumes "runs (Client_Heartbeat C c token snap usage) w (Inr x) cs w'"
  shows "\<exists>c \<in> set cs. accepted_heartbeat token c"
proof -
  let ?v = "WHeartbeat \<lparr>hb_Name = OperatorName c, hb_ResourceCapacity = capacityWire snap usage\<rparr>"
  from assms obtain q where post: "runs (post C (BaseURL c @ ''/operators/heartbeat'') ''heartbeat''
      (Some token) ?v) w q cs w'" and
    r: "Inr x = (case q of
       Inl e \<Rightarrow> Inl e
     | Inr resp \<Rightarrow>
         if rs_StatusCode resp = 200 then
           (case decode_body ''heartbeat'' (cv_decodeHeartbeat C) resp of
              Inl e \<Rightarrow> Inl e
            | Inr out \<Rightarrow> Inr (hr_Claimable out, hr_PendingOperations out))
         else if rs_StatusCode resp \<in> {401, 410} then Inl (Sentinel ErrUnauthorized)
         else Inl (status_error ''heartbeat'' resp))"
    by (auto simp: Client_Heartbeat_def runs_bind runs_return)
  from post show ?thesis
  proof (cases rule: post_runs)
    case (answered body resp)
    with r show ?thesis by (auto simp: accepted_heartbeat_def post_request_def split: if_splits)
  qed (use r in auto)
qed

lemma Load_Some:
  assumes "runs (Load K ns) w (Inr (Some t)) cs w'"
  shows "\<exists>x. cs = [CGetSecret ns SecretName (Inr x)] \<and> tokens_of_data (sec_data x) = t \<and>
    HeartbeatToken t \<noteq> [] \<and> DeployToken t \<noteq> []"
proof -
  from assms obtain q where "cs = [CGetSecret ns SecretName q]" "Inr (Some t) = (case q of
       Inl e \<Rightarrow> if IsNotFound e then Inr None else Inl (Wrap ''getting token secret: '' e [])
     | Inr x \<Rightarrow>
         let t = tokens_of_data (sec_data x) in
         if HeartbeatToken t = [] \<or> DeployToken t = [] then Inr None else Inr (Some t))"
    by (auto simp: Load_def getSecret_def runs_bind runs_ext runs_return)
  then show ?thesis by (cases q) (auto simp: Let_def split: if_splits)
qed

text \<open>Starting up never leaves stale credentials behind. When \<open>loadOrRegister\<close> succeeds, the tokens
  held carry the fingerprints of the running catalog, version and tags, and they are either the
  non-empty persisted ones, which Convex accepted in a heartbeat just made, or freshly issued ones
  whose Secret was written successfully before they are used. When it fails nothing changes.\<close>

lemma loadOrRegister_runs:
  assumes "runs (loadOrRegister R s) w (e, s') cs w'"
  shows "rs_config s' = rs_config s \<and> (e \<noteq> None \<longrightarrow> s' = s) \<and>
    (e = None \<longrightarrow> unchanged R (rs_config s) (rs_tokens s') \<and>
      ((\<exists>x. CGetSecret (rn_store R) SecretName (Inr x) \<in> set cs \<and> tokens_of_data (sec_data x) = rs_tokens s' \<and>
          (\<exists>c \<in> set cs. accepted_heartbeat (HeartbeatToken (rs_tokens s')) c)) \<or>
       (\<exists>c \<in> set cs. saved (rs_tokens s') c)))"
proof -
  have reg: ?thesis if "runs (register R s) w1 (e, s') ds w'" "cs = xs @ ds" for w1 ds xs
    using register_runs [OF that(1)] that(2) last_in_set [of ds] by auto
  from assms obtain l ls w1 ds where L: "runs (Load (rn_kube R) (rn_store R)) w l ls w1" and cs: "cs = ls @ ds"
    and rest: "runs (case l of
       Inl _ \<Rightarrow> register R s
     | Inr None \<Rightarrow> register R s
     | Inr (Some t) \<Rightarrow> do {
         h \<leftarrow> Client_Heartbeat (rn_convex R) (rs_config s) (HeartbeatToken t) None None;
         case h of
           Inl _ \<Rightarrow> register R s
         | Inr _ \<Rightarrow>
             if unchanged R (rs_config s) t then ret (None, s\<lparr>rs_tokens := t\<rparr>)
             else register R s
       }) w1 (e, s') ds w'"
    unfolding loadOrRegister_def by (rule runs_bindE) simp_all
  show ?thesis
  proof (cases "\<exists>t. l = Inr (Some t)")
    case False
    with rest have "runs (register R s) w1 (e, s') ds w'" by (auto split: sum.splits option.splits)
    then show ?thesis using cs by (rule reg)
  next
    case True
    then obtain t where l: "l = Inr (Some t)" by auto
    with rest obtain h hs w2 es where H: "runs (Client_Heartbeat (rn_convex R) (rs_config s) (HeartbeatToken t) None None)
        w1 h hs w2" and ds: "ds = hs @ es" and fin: "runs (case h of
           Inl _ \<Rightarrow> register R s
         | Inr _ \<Rightarrow>
             if unchanged R (rs_config s) t then ret (None, s\<lparr>rs_tokens := t\<rparr>)
             else register R s) w2 (e, s') es w'"
      by (auto simp: runs_bind)
    show ?thesis
    proof (cases "\<exists>x. h = Inr x \<and> unchanged R (rs_config s) t")
      case False
      with fin have "runs (register R s) w2 (e, s') es w'" by (auto split: sum.splits)
      moreover from cs ds have "cs = (ls @ hs) @ es" by simp
      ultimately show ?thesis by (rule reg)
    next
      case True
      then obtain x where h: "h = Inr x" and un: "unchanged R (rs_config s) t" by auto
      with fin have s': "e = None" "s' = s\<lparr>rs_tokens := t\<rparr>" by (simp_all add: runs_return)
      from heartbeat_accepted [OF H [unfolded h]] Load_Some [OF L [unfolded l]] s' un cs ds show ?thesis by auto
    qed
  qed
qed

lemma register_reads_no_file: "emits (\<lambda>c. \<forall>p q. c \<noteq> Other (RFile p q)) (register R s)"
  unfolding register_def Let_def Save_def kube_ops
  by (intro emits_intros emits_client(1) [THEN emits_mono]) (auto simp: sends_def)

lemma checkEnrollmentSecret_runs:
  assumes "runs (checkEnrollmentSecret R s) w s1 cs w1"
  shows "\<exists>q ds. cs = Other (RFile (rn_enrollmentPath R) q) # ds \<and>
    list_all (\<lambda>c. \<forall>p q. c \<noteq> Other (RFile p q)) ds \<and>
    (\<forall>t. q = Inr t \<longrightarrow> trim_space t \<noteq> [] \<longrightarrow> EnrollmentSecret (rs_config s1) = trim_space t)"
proof -
  from assms obtain r rs w2 ds where C: "runs (Current R) w r rs w2" and cs: "cs = rs @ ds" and
    rest: "runs (case r of
       Inl _ \<Rightarrow> ret s
     | Inr cur \<Rightarrow>
         if cur = [] \<or> cur = EnrollmentSecret (rs_config s) then ret s
         else do {
           (e, s') \<leftarrow> register R (s\<lparr>rs_config := (rs_config s)\<lparr>EnrollmentSecret := cur\<rparr>\<rparr>);
           ret s'
         }) w2 s1 ds w1"
    unfolding checkEnrollmentSecret_def by (rule runs_bindE) simp_all
  from C obtain q where rs: "rs = [Other (RFile (rn_enrollmentPath R) q)]" and r: "r = (case q of
       Inl e \<Rightarrow> Inl (Wrap ''reading enrollment secret file: '' e [])
     | Inr text \<Rightarrow> Inr (trim_space text))"
    by (auto simp: Current_def runs_bind runs_ext runs_return)
  show ?thesis
  proof (cases "\<exists>t. q = Inr t \<and> trim_space t \<noteq> [] \<and> trim_space t \<noteq> EnrollmentSecret (rs_config s)")
    case True
    then obtain t where t: "q = Inr t" "trim_space t \<noteq> []" "trim_space t \<noteq> EnrollmentSecret (rs_config s)" by auto
    with r rest obtain e where reg: "runs (register R (s\<lparr>rs_config := (rs_config s)\<lparr>EnrollmentSecret := trim_space t\<rparr>\<rparr>))
        w2 (e, s1) ds w1"
      by (auto simp: runs_bind runs_return)
    from emits_runs [OF register_reads_no_file reg] register_runs [OF reg] t rs cs show ?thesis by simp
  next
    case False
    with r rest have "ds = []" "s1 = s" by (cases q; auto simp: runs_return split: if_splits)+
    with False rs cs show ?thesis by auto
  qed
qed

text \<open>The registration with a rotated secret is tried once. After a check that read a non-empty secret, the
  operator considers it its own whether or not the registration with it succeeded, so the next
  check that reads the same text makes no request and changes nothing: a re-registration that
  failed is not repeated by this path.\<close>

lemma rotation_tried_once:
  assumes "runs (checkEnrollmentSecret R s) w s1 cs w1"
    and "Other (RFile path (Inr txt)) \<in> set cs" "trim_space txt \<noteq> []"
    and "rn_readFile R (rn_enrollmentPath R) w2 = (Inr txt, w3)"
  shows "runs (checkEnrollmentSecret R s1) w2 s1 [Other (RFile (rn_enrollmentPath R) (Inr txt))] w3"
proof -
  from checkEnrollmentSecret_runs [OF assms(1)] obtain q ds where
    cs: "cs = Other (RFile (rn_enrollmentPath R) q) # ds" "list_all (\<lambda>c. \<forall>p q. c \<noteq> Other (RFile p q)) ds"
    and s1: "\<forall>t. q = Inr t \<longrightarrow> trim_space t \<noteq> [] \<longrightarrow> EnrollmentSecret (rs_config s1) = trim_space t"
    by (elim exE conjE)
  from cs assms(2) have "q = Inr txt" by (auto simp: list_all_iff)
  with s1 assms(3) have "EnrollmentSecret (rs_config s1) = trim_space txt" by simp
  with assms(4) show ?thesis
    by (simp add: checkEnrollmentSecret_def Current_def runs_bind runs_ext runs_return)
qed

text \<open>The credentials held after the answer \<open>a\<close> to a registration and the calls \<open>ds\<close> that followed: those
  issued, stamped with the fingerprints of the catalog, the version and the tags, when there are any
  and they were saved, and otherwise those held before.\<close>

definition adopts :: "'w runnable \<Rightarrow> clientConfig \<Rightarrow> tokens \<Rightarrow> go_error + httpResponse \<Rightarrow> rcall call list \<Rightarrow> tokens \<Rightarrow> bool" where
  "adopts R c t0 a ds t1 \<longleftrightarrow>
     (if \<exists>resp out. a = Inr resp \<and> rs_StatusCode resp = 200 \<and> read_register (rs_Body resp) = Some out then
        \<exists>resp out t. a = Inr resp \<and> read_register (rs_Body resp) = Some out \<and>
          t = \<lparr>HeartbeatToken = rp_HeartbeatToken out, DeployToken = rp_DeployToken out,
            CatalogHash = Hash (rn_digest R) (rn_lib R), OperatorVersion = Version c,
            TagsFingerprint = (case Tags c of None \<Rightarrow> tagsFingerprintUnset | Some ts \<Rightarrow> ''set:'' @ join '','' ts)\<rparr> \<and>
          t1 = (if \<exists>c \<in> set ds. saved t c then t else t0)
      else t1 = t0)"

lemma adopts_secret [simp]: "adopts R (c\<lparr>EnrollmentSecret := x\<rparr>) t0 a ds t1 \<longleftrightarrow> adopts R c t0 a ds t1"
proof -
  have "Version (c\<lparr>EnrollmentSecret := x\<rparr>) = Version c" "Tags (c\<lparr>EnrollmentSecret := x\<rparr>) = Tags c" by simp_all
  then show ?thesis unfolding adopts_def by (simp only:)
qed

text \<open>What \<open>register\<close> does, call by call, when the endpoint can be addressed.\<close>

lemma register_calls:
  assumes "runs (register R s) w (e, s') cs w'" "cv_newRequest (rn_convex R) (BaseURL (rs_config s) @ ''/operators/register'') = None"
  shows "\<exists>rq v a ds. cs = Other (HDo rq (WRegister v) a) # ds \<and> rg_EnrollmentSecret v = EnrollmentSecret (rs_config s) \<and>
    rs_config s' = rs_config s \<and>
    adopts R (rs_config s) (rs_tokens s) a ds (rs_tokens s')"
proof -
  let ?t' = "\<lambda>t. t\<lparr>CatalogHash := catalogHash R, OperatorVersion := Version (rs_config s),
                    TagsFingerprint := Client_TagsFingerprint (rs_config s)\<rparr>"
  let ?rest = "\<lambda>r. case r of
       Inl e \<Rightarrow> ret (Some e, s)
     | Inr t \<Rightarrow> Save (rn_kube R) (rn_store R) (?t' t) \<bind> (\<lambda>e. 
         ret (case e of Some e \<Rightarrow> (Some e, s) | None \<Rightarrow> (None, s\<lparr>rs_tokens := ?t' t\<rparr>)))"
  let ?v = "\<lparr>rg_Name = OperatorName (rs_config s), rg_ExternalURL = ExternalURL (rs_config s),
          rg_EnrollmentSecret = EnrollmentSecret (rs_config s), rg_Metadata = Metadata (rs_config s),
          rg_Catalog = List_templates (rn_lib R), rg_OperatorVersion = Version (rs_config s), rg_Tags = Tags (rs_config s)\<rparr>"
  from assms(1) have "runs (Client_Register (rn_lib R) (rn_convex R) (rs_config s) \<bind> ?rest) w (e, s') cs w'"
    unfolding register_def Let_def .
  then obtain r ds w1 es where reg: "runs (Client_Register (rn_lib R) (rn_convex R) (rs_config s)) w r ds w1"
    and cs: "cs = ds @ es" and rest: "runs (?rest r) w1 (e, s') es w'"
    by (rule runs_bindE) simp_all
  from reg obtain q where post: "runs (post (rn_convex R) (BaseURL (rs_config s) @ ''/operators/register'') ''register'' None
      (WRegister ?v)) w q ds w1"
    and r: "r = (case q of
       Inl e \<Rightarrow> Inl e
     | Inr resp \<Rightarrow>
         if rs_StatusCode resp \<noteq> 200 then Inl (status_error ''register'' resp)
         else (case decode_body ''register'' (cv_decodeRegister (rn_convex R)) resp of
           Inl e \<Rightarrow> Inl e
         | Inr out \<Rightarrow> Inr (no_tokens\<lparr>HeartbeatToken := rp_HeartbeatToken out, DeployToken := rp_DeployToken out\<rparr>)))"
    unfolding Client_Register_def by (rule runs_bindE) (auto simp: runs_return)
  from post obtain rq a where ds: "ds = [Other (HDo rq (WRegister ?v) a)]"
    and q: "\<forall>x. q = Inr x \<longleftrightarrow> a = Inr x"
    by (cases rule: post_runs) (use assms(2) in \<open>auto simp: cv_marshal_def Marshal_def\<close>)
  show ?thesis
  proof (cases "\<exists>resp out. a = Inr resp \<and> rs_StatusCode resp = 200 \<and> read_register (rs_Body resp) = Some out")
    case False
    with q r obtain x where "r = Inl x"
      by (cases q) (auto simp: decode_body_def decoded_def split: option.splits if_splits)
    with rest cs ds False show ?thesis by (auto simp: runs_return adopts_def)
  next
    case True
    then obtain resp out where ok: "a = Inr resp" "rs_StatusCode resp = 200" "read_register (rs_Body resp) = Some out" by blast
    let ?t = "\<lparr>HeartbeatToken = rp_HeartbeatToken out, DeployToken = rp_DeployToken out, CatalogHash = catalogHash R,
           OperatorVersion = Version (rs_config s), TagsFingerprint = Client_TagsFingerprint (rs_config s)\<rparr>"
    from ok(1) q have "q = Inr resp" by blast
    with ok r have "r = Inr (no_tokens\<lparr>HeartbeatToken := rp_HeartbeatToken out, DeployToken := rp_DeployToken out\<rparr>)"
      by (simp add: decode_body_def decoded_def)
    moreover have "?t' (no_tokens\<lparr>HeartbeatToken := rp_HeartbeatToken out, DeployToken := rp_DeployToken out\<rparr>) = ?t"
      by (simp add: no_tokens_def)
    ultimately have "runs (Save (rn_kube R) (rn_store R) ?t \<bind> (\<lambda>e.
         ret (case e of Some e \<Rightarrow> (Some e, s) | None \<Rightarrow> (None, s\<lparr>rs_tokens := ?t\<rparr>)))) w1 (e, s') es w'"
      using rest by (simp only: sum.case)
    then obtain e' where save: "runs (Save (rn_kube R) (rn_store R) ?t) w1 e' es w'"
      and res: "(e, s') = (case e' of Some e \<Rightarrow> (Some e, s) | None \<Rightarrow> (None, s\<lparr>rs_tokens := ?t\<rparr>))"
      by (auto simp: runs_bind runs_return)
    from Save_runs(1) [OF save] res have "rs_config s' = rs_config s"
      "rs_tokens s' = (if \<exists>c \<in> set es. saved ?t c then ?t else rs_tokens s)" by (auto split: option.splits)
    with ok have "rs_config s' = rs_config s" "adopts R (rs_config s) (rs_tokens s) a es (rs_tokens s')"
      by (auto simp: adopts_def catalogHash_def Client_TagsFingerprint_def)
    with cs ds show ?thesis by (intro exI [of _ rq] exI [of _ ?v] exI [of _ a] exI [of _ es]) simp
  qed
qed

text \<open>C40: A rotated enrollment secret takes effect without a restart. Every check reads the mounted file
  once. When the file is unreadable, blank, or holds the secret already in use, nothing else happens.
  Otherwise the very next call is a registration that carries the new secret; when Convex issues
  credentials in answer and they are saved, the operator holds exactly those from then on, stamped
  with the catalog, version and tags it runs with; otherwise it keeps those it had.\<close>

theorem rotation_takes_effect:
  assumes "runs (checkEnrollmentSecret R s) w s1 cs w1"
    and "cv_newRequest (rn_convex R) (BaseURL (rs_config s) @ ''/operators/register'') = None"
  shows "\<exists>q ds. cs = Other (RFile (rn_enrollmentPath R) q) # ds \<and>
    (if \<exists>txt. q = Inr txt \<and> trim_space txt \<noteq> [] \<and> trim_space txt \<noteq> EnrollmentSecret (rs_config s) then
       \<exists>txt rq v a es. q = Inr txt \<and> ds = Other (HDo rq (WRegister v) a) # es \<and> rg_EnrollmentSecret v = trim_space txt \<and>
         adopts R (rs_config s) (rs_tokens s) a es (rs_tokens s1)
     else ds = [] \<and> s1 = s)"
proof -
  from assms(1) obtain r rs w2 ds where C: "runs (Current R) w r rs w2" and cs: "cs = rs @ ds" and
    rest: "runs (case r of
       Inl _ \<Rightarrow> ret s
     | Inr cur \<Rightarrow>
         if cur = [] \<or> cur = EnrollmentSecret (rs_config s) then ret s
         else do {
           (e, s') \<leftarrow> register R (s\<lparr>rs_config := (rs_config s)\<lparr>EnrollmentSecret := cur\<rparr>\<rparr>);
           ret s'
         }) w2 s1 ds w1"
    unfolding checkEnrollmentSecret_def by (rule runs_bindE) simp_all
  from C obtain q where rs: "rs = [Other (RFile (rn_enrollmentPath R) q)]" and r: "r = (case q of
       Inl e \<Rightarrow> Inl (Wrap ''reading enrollment secret file: '' e [])
     | Inr text \<Rightarrow> Inr (trim_space text))"
    by (auto simp: Current_def runs_bind runs_ext runs_return)
  show ?thesis
  proof (cases "\<exists>txt. q = Inr txt \<and> trim_space txt \<noteq> [] \<and> trim_space txt \<noteq> EnrollmentSecret (rs_config s)")
    case True
    then obtain secret where t: "q = Inr secret" "trim_space secret \<noteq> []" "trim_space secret \<noteq> EnrollmentSecret (rs_config s)" by auto
    let ?s = "s\<lparr>rs_config := (rs_config s)\<lparr>EnrollmentSecret := trim_space secret\<rparr>\<rparr>"
    from t r rest obtain e where "runs (register R ?s) w2 (e, s1) ds w1" by (auto simp: runs_bind runs_return)
    from register_calls [OF this] assms(2) obtain rq v a es where "ds = Other (HDo rq (WRegister v) a) # es"
      "rg_EnrollmentSecret v = trim_space secret" "adopts R (rs_config s) (rs_tokens s) a es (rs_tokens s1)"
      by auto
    with True t(1) cs rs show ?thesis by (intro exI [of _ q] exI [of _ ds]) auto
  next
    case False
    with r rest have "ds = []" "s1 = s" by (cases q; auto simp: runs_return split: if_splits)+
    with False rs cs show ?thesis by auto
  qed
qed

theorem rotation_takes_effect_witness:
  "\<exists>s1 ds w1 rq v a es. runs (checkEnrollmentSecret (demo_runnable 500) demo_state) 0 s1
       (Other (RFile EnrollmentSecretPath (Inr ''new'')) # ds) w1 \<and>
     ds = Other (HDo rq (WRegister v) a) # es \<and> rg_EnrollmentSecret v = ''new''"
proof -
  have "\<exists>s1 ds w1. runs (checkEnrollmentSecret (demo_runnable 500) demo_state) 0 s1
       (Other (RFile EnrollmentSecretPath (Inr ''new'')) # ds) w1"
    by (simp add: checkEnrollmentSecret_def Current_def register_def Client_Register_def post_def
        Let_def runs_rules demo_state_def demo_config_def)
  then obtain s1 ds w1 where run: "runs (checkEnrollmentSecret (demo_runnable 500) demo_state) 0 s1
       (Other (RFile EnrollmentSecretPath (Inr ''new'')) # ds) w1" by (elim exE)
  have "EnrollmentSecret (rs_config demo_state) \<noteq> ''new''" by (simp add: demo_state_def demo_config_def)
  with rotation_takes_effect [OF run] have "\<exists>rq v a es. ds = Other (HDo rq (WRegister v) a) # es \<and> rg_EnrollmentSecret v = ''new''"
    by auto
  with run show ?thesis by blast
qed

section \<open>Heartbeats sent\<close>

definition beats :: "rcall call \<Rightarrow> bool" where
  "beats c \<longleftrightarrow> (\<exists>rq b q. c = Other (HDo rq (WHeartbeat b) q))"

lemma silent_calls:
  "sends t v c \<Longrightarrow> (\<And>b. v \<noteq> WHeartbeat b) \<Longrightarrow> \<not> beats c" "\<not> posts c \<Longrightarrow> \<not> beats c" "creates c \<Longrightarrow> \<not> beats c"
  "reads c \<Longrightarrow> \<not> beats c"
  by (auto simp: beats_def sends_def write_defs reads_def)

lemma register_silent: "emits (\<lambda>c. \<not> beats c) (register R s)"
  unfolding register_def Let_def
  by (intro emits_intros emits_client(1) [THEN emits_mono] emits_tokens(2) [THEN emits_mono]) (auto simp: silent_calls)

lemma reportFailed_silent: "emits (\<lambda>c. \<not> beats c) (reportFailed R c t n i reason b)"
  by (rule emits_reportFailed [THEN emits_mono]) (simp add: silent_calls)

lemma claimAll_silent: "emits (\<lambda>c. \<not> beats c) (claimAll R ns c t items snap)"
proof (induction R ns c t items snap rule: claimAll.induct)
  case (2 R ns c t i "is" snap)
  have "emits (\<lambda>c. \<not> beats c) (claimOne R ns c t i snap)"
    unfolding claimOne_def createClaimed_def
    by (intro emits_intros reportFailed_silent emits_client(3) [THEN emits_mono] emits_provisioning(1) [THEN emits_mono])
       (simp_all add: silent_calls)
  with 2 show ?case by (auto intro!: emits_intros)
qed (auto intro!: emits_intros)

lemma pendingOne_silent: "emits (\<lambda>c. \<not> beats c) (pendingOne R c t item)"
  unfolding pendingOne_def runOperation_def reportOn_def
  by (intro emits_intros reportFailed_silent emits_client(4) [THEN emits_mono] emits_provisioning(2-4) [THEN emits_mono])
     (simp_all add: silent_calls)

lemma afterHeartbeat_silent: "emits (\<lambda>c. \<not> beats c) (afterHeartbeat R s t snap h)"
  unfolding afterHeartbeat_def processClaimable_def processPendingOperations_def
  by (intro emits_intros register_silent claimAll_silent pendingOne_silent)

lemma checkEnrollmentSecret_silent: "emits (\<lambda>c. \<not> beats c) (checkEnrollmentSecret R s)"
  unfolding checkEnrollmentSecret_def Current_def
  by (intro emits_intros register_silent) (auto simp: beats_def)

lemma silent_filter: "emits (\<lambda>c. \<not> beats c) m \<Longrightarrow> runs m w r cs w' \<Longrightarrow> filter beats cs = []"
  by (drule emits_runs) (auto simp: list_all_iff filter_empty_conv)

lemma heartbeatOnce_beats:
  assumes "sources R" "cv_newRequest (rn_convex R) (BaseURL (rs_config s) @ ''/operators/heartbeat'') = None"
    and "runs (heartbeatOnce R s) w s' cs w'"
  shows "length (filter beats cs) = 1"
proof -
  note [simp] = sources_reading(1,2) [OF assms(1)]
  let ?t = "HeartbeatToken (rs_tokens s)"
  let ?send = "\<lambda>snap live. Client_Heartbeat (rn_convex R) (rs_config s) ?t snap live \<bind> afterHeartbeat R s ?t snap"
  from assms(3) obtain snap as w1 bs where a: "runs (reading (rn_capacity R)) w snap as w1" and cs: "cs = as @ bs"
    and rest: "runs (reading (rn_usage R) \<bind> ?send snap) w1 s' bs w'"
    unfolding heartbeatOnce_def Let_def by (rule runs_bindE) simp_all
  from rest obtain live ds w2 es where l: "runs (reading (rn_usage R)) w1 live ds w2" and bs: "bs = ds @ es"
    and send: "runs (?send snap live) w2 s' es w'"
    by (rule runs_bindE) simp_all
  from send obtain h hs w3 fs where H: "runs (Client_Heartbeat (rn_convex R) (rs_config s) ?t snap live) w2 h hs w3"
    and es: "es = hs @ fs" and after: "runs (afterHeartbeat R s ?t snap h) w3 s' fs w'"
    by (rule runs_bindE) simp_all
  from H obtain q b where "runs (post (rn_convex R) (BaseURL (rs_config s) @ ''/operators/heartbeat'') ''heartbeat''
      (Some ?t) (WHeartbeat b)) w2 q hs w3"
    unfolding Client_Heartbeat_def by (rule runs_bindE) (auto simp: runs_return)
  then have "length (filter beats hs) = 1"
    by (cases rule: post_runs) (use assms(2) in \<open>auto simp: cv_marshal_def Marshal_def beats_def\<close>)
  moreover have "filter beats as = []" "filter beats ds = []"
    by (rule silent_filter [OF sources_reading(3) [OF assms(1), THEN emits_mono] a]
        silent_filter [OF sources_reading(4) [OF assms(1), THEN emits_mono] l], simp add: silent_calls)+
  moreover have "filter beats fs = []" by (rule silent_filter [OF afterHeartbeat_silent after])
  ultimately show ?thesis by (simp add: cs bs es)
qed

end
