(* ===== verification/Base64.thy ===== *)
theory Base64
  imports Go_Std
begin

text \<open>
  The encoding \<open>base64.RawURLEncoding\<close> of Go's standard library, which the gateway's session
  tokens use (internal/gateway/token.go): the URL-safe alphabet, no padding. As in Go, decoding
  skips carriage returns and line feeds, rejects every other foreign character and a lone last
  character, and ignores the unused low bits of the last one. Bytes and sextets are numbers.
\<close>

definition b64_char :: "nat \<Rightarrow> char" where
  "b64_char n = (if n < 26 then char_of (n + 65) else if n < 52 then char_of (n + 71)
     else if n < 62 then char_of (n - 4) else if n = 62 then char_of (45::nat) else char_of (95::nat))"

definition b64_value :: "char \<Rightarrow> nat option" where
  "b64_value c = (let n = of_char c in
     if 65 \<le> n \<and> n \<le> 90 then Some (n - 65) else if 97 \<le> n \<and> n \<le> 122 then Some (n - 71)
     else if 48 \<le> n \<and> n \<le> 57 then Some (n + 4) else if n = 45 then Some 62
     else if n = 95 then Some 63 else None)"

fun to_sextets :: "nat list \<Rightarrow> nat list" where
  "to_sextets (a # b # c # xs) =
     a div 4 # ((a mod 4) * 16 + b div 16) # ((b mod 16) * 4 + c div 64) # (c mod 64) # to_sextets xs"
| "to_sextets [a, b] = [a div 4, (a mod 4) * 16 + b div 16, (b mod 16) * 4]"
| "to_sextets [a] = [a div 4, (a mod 4) * 16]"
| "to_sextets [] = []"

fun of_sextets :: "nat list \<Rightarrow> nat list option" where
  "of_sextets (p # q # r # s # xs) =
     map_option (\<lambda>ys. (p * 4 + q div 16) # ((q mod 16) * 16 + r div 4) # ((r mod 4) * 64 + s) # ys) (of_sextets xs)"
| "of_sextets [p, q, r] = Some [p * 4 + q div 16, (q mod 16) * 16 + r div 4]"
| "of_sextets [p, q] = Some [p * 4 + q div 16]"
| "of_sextets [p] = None"
| "of_sextets [] = Some []"

definition EncodeToString :: "string \<Rightarrow> string" where
  "EncodeToString s = map b64_char (to_sextets (map of_char s))"

definition newline :: "char \<Rightarrow> bool" where
  "newline c \<longleftrightarrow> of_char c = (10::nat) \<or> of_char c = (13::nat)"

definition DecodeString :: "string \<Rightarrow> string option" where
  "DecodeString s = (case those (map b64_value (filter (\<lambda>c. \<not> newline c) s)) of
     None \<Rightarrow> None
   | Some vs \<Rightarrow> map_option (map char_of) (of_sextets vs))"

section \<open>Round trip\<close>

lemma b64_code:
  "n < 64 \<Longrightarrow> of_char (b64_char n) =
     (if n < 26 then n + 65 else if n < 52 then n + 71 else if n < 62 then n - 4 else if n = 62 then 45 else 95)"
  by (simp add: b64_char_def)

lemma b64_char_facts:
  assumes "n < 64"
  shows "b64_value (b64_char n) = Some n" "\<not> newline (b64_char n)" "b64_char n \<noteq> CHR ''.''"
proof -
  show "b64_value (b64_char n) = Some n" using assms by (auto simp: b64_value_def b64_code Let_def)
  show "\<not> newline (b64_char n)" using assms by (auto simp: newline_def b64_code)
  have "of_char (b64_char n) \<noteq> (of_char (CHR ''.'') :: nat)" using assms by (auto simp: b64_code)
  then show "b64_char n \<noteq> CHR ''.''" by auto
qed

lemma sextets_small: "list_all (\<lambda>n. n < 256) bs \<Longrightarrow> list_all (\<lambda>n. n < 64) (to_sextets bs)"
  by (induction bs rule: to_sextets.induct) auto

lemma of_to_sextets: "list_all (\<lambda>n. n < 256) bs \<Longrightarrow> of_sextets (to_sextets bs) = Some bs"
  by (induction bs rule: to_sextets.induct) auto

lemma those_map_Some: "list_all (\<lambda>x. f (g x) = Some x) xs \<Longrightarrow> those (map (f \<circ> g) xs) = Some xs"
  by (induction xs) auto

lemma bytes_small: "list_all (\<lambda>n :: nat. n < 256) (map of_char (s :: string))"
  by (auto simp: list_all_iff )

lemma EncodeToString_chars: "\<exists>ns. EncodeToString s = map b64_char ns \<and> list_all (\<lambda>n. n < 64) ns \<and>
    of_sextets ns = Some (map of_char s)"
  unfolding EncodeToString_def using sextets_small [OF bytes_small] of_to_sextets [OF bytes_small] by auto

lemma decode_encode: "DecodeString (EncodeToString s) = Some s"
proof -
  from EncodeToString_chars obtain ns where ns: "EncodeToString s = map b64_char ns" "list_all (\<lambda>n. n < 64) ns"
    "of_sextets ns = Some (map of_char s)" by auto
  have "filter (\<lambda>c. \<not> newline c) (map b64_char ns) = map b64_char ns"
    using ns(2) by (induction ns) (auto simp: b64_char_facts)
  moreover have "those (map (b64_value \<circ> b64_char) ns) = Some ns"
    by (rule those_map_Some) (use ns(2) in \<open>auto simp: list_all_iff b64_char_facts\<close>)
  ultimately show ?thesis using ns(1,3) by (simp add: DecodeString_def comp_def)
qed

lemma encode_no_dot: "CHR ''.'' \<notin> set (EncodeToString s)"
proof -
  from EncodeToString_chars obtain ns where "EncodeToString s = map b64_char ns" "list_all (\<lambda>n. n < 64) ns" by auto
  then show ?thesis by (force simp: list_all_iff dest: b64_char_facts(3))
qed

section \<open>Encodings that a dot can separate\<close>

text \<open>What the token format needs of an encoding: it can be undone, and it never produces a dot.\<close>

locale text_codec =
  fixes encode :: "string \<Rightarrow> string" and decode :: "string \<Rightarrow> string option"
  assumes undo: "decode (encode s) = Some s"
    and no_dot: "CHR ''.'' \<notin> set (encode s)"
begin

lemma encode_inj: "encode s = encode t \<longleftrightarrow> s = t"
  using undo by (metis option.inject)

lemma cut_pair: "cut (CHR ''.'') (encode s @ CHR ''.'' # rest) = Some (encode s, rest)"
  using no_dot by (simp add: cut_append)

end

interpretation b64: text_codec EncodeToString DecodeString
  by unfold_locales (rule decode_encode, rule encode_no_dot)

text \<open>Base64 text decodes to the bytes it was made from, for byte strings of every length, and the
  encoder only uses the 64 characters of the URL-safe alphabet, four per three bytes.\<close>

lemma base64_round_trip:
  "DecodeString (EncodeToString s) = Some s \<and>
   list_all (\<lambda>c. b64_value c \<noteq> None) (EncodeToString s) \<and>
   length (EncodeToString s) = (4 * length s + 2) div 3"
proof -
  from EncodeToString_chars obtain ns where "EncodeToString s = map b64_char ns" "list_all (\<lambda>n. n < 64) ns" by auto
  then have "list_all (\<lambda>c. b64_value c \<noteq> None) (EncodeToString s)"
    by (auto simp: list_all_iff b64_char_facts)
  moreover have "length (to_sextets bs) = (4 * length bs + 2) div 3" for bs
    by (induction bs rule: to_sextets.induct) auto
  ultimately show ?thesis by (simp add: b64.undo) (simp add: EncodeToString_def)
qed

end
