(* ===== verification/Gateway.thy ===== *)
theory Gateway
  imports Runnable_Props Base64
begin

text \<open>
  The browser gateway (internal/gateway): signed session tokens (token.go), the signing key kept
  in a Secret (keystore.go), the status pages (page.go) and the proxy into a workload's Service
  (proxy.go). HMAC-SHA256, the random source and the HTML template are parameters; base64 and
  JSON are modelled in \<open>Base64\<close> and \<open>JsonText\<close>. A response is a value of \<open>reply\<close>:
  forwarding to the API server is described by the target the proxy addresses. A request comes
  with its path values and its parsed query.
\<close>

section \<open>Session tokens\<close>

record payload =
  pl_Namespace :: string
  pl_Name :: string
  pl_UserID :: string
  pl_Exp :: int64

record signer =
  sg_hmac :: "string \<Rightarrow> string \<Rightarrow> string"

definition payload_json :: "payload \<Rightarrow> json" where
  "payload_json p = JObj [(''namespace'', JStr (pl_Namespace p)), (''name'', JStr (pl_Name p)),
     (''userId'', JStr (pl_UserID p)), (''exp'', JNum (show_int (sint (pl_Exp p))))]"

definition payload_fields :: "(string \<times> payload setter) list" where
  "payload_fields =
     [(''namespace'', set_string (\<lambda>x. pl_Namespace_update (\<lambda>_. x))), (''name'', set_string (\<lambda>x. pl_Name_update (\<lambda>_. x))),
      (''userId'', set_string (\<lambda>x. pl_UserID_update (\<lambda>_. x))),
      (''exp'', set_int (- (2 ^ 63)) (2 ^ 63 - 1) (\<lambda>i. pl_Exp_update (\<lambda>_. word_of_int i)))]"

definition zero_payload :: payload where
  "zero_payload = \<lparr>pl_Namespace = [], pl_Name = [], pl_UserID = [], pl_Exp = 0\<rparr>"

definition read_payload :: "string \<Rightarrow> payload option" where
  "read_payload raw = Option.bind (Unmarshal raw) (\<lambda>v. to_struct payload_fields v zero_payload)"

definition Sign :: "signer \<Rightarrow> string \<Rightarrow> payload \<Rightarrow> go_error + string" where
  "Sign G secret p = (case Marshal (payload_json p) of
     Inl e \<Rightarrow> Inl (Wrap ''marshaling payload: '' e [])
   | Inr raw \<Rightarrow>
       let payloadB64 = EncodeToString raw in
       Inr (payloadB64 @ ''.'' @ EncodeToString (sg_hmac G secret payloadB64)))"

text \<open>
  Expiry. A \<open>time.Time\<close> counts seconds since year 1 in an int64; \<open>time.Unix\<close> wraps and \<open>Add\<close>
  saturates. The clock is in nanoseconds since 1970.
\<close>

definition unixToInternal :: int where "unixToInternal = 62135596800"

definition clockSkewSeconds :: int64 where "clockSkewSeconds = 30"

definition unix_time :: "int64 \<Rightarrow> int64" where
  "unix_time s = s + word_of_int unixToInternal"

definition add_seconds :: "int64 \<Rightarrow> int64 \<Rightarrow> int64" where
  "add_seconds t d = (let u = t + d in
     if (sint t < sint u) = (0 < sint d) then u
     else if 0 < sint d then word_of_int (2 ^ 63 - 1) else word_of_int (- (2 ^ 63 - 1)))"

definition expired :: "int \<Rightarrow> int64 \<Rightarrow> bool" where
  "expired t e = (let u = sint (add_seconds (unix_time e) clockSkewSeconds); s = t div 10 ^ 9 + unixToInternal in
     s > u \<or> s = u \<and> t mod 10 ^ 9 > 0)"

text \<open>Everything \<open>Verify\<close> checks before it looks at the clock.\<close>

definition checkToken :: "signer \<Rightarrow> string \<Rightarrow> string \<Rightarrow> string \<Rightarrow> string \<Rightarrow> go_error + payload" where
  "checkToken G secret ns name token = (case cut (CHR ''.'') token of
     None \<Rightarrow> Inl (Sentinel ErrMalformedToken)
   | Some (payloadB64, sigB64) \<Rightarrow>
     (case DecodeString sigB64 of
        None \<Rightarrow> Inl (Sentinel ErrMalformedToken)
      | Some sig \<Rightarrow>
          if sig \<noteq> sg_hmac G secret payloadB64 then Inl (Sentinel ErrInvalidSignature)
          else (case DecodeString payloadB64 of
            None \<Rightarrow> Inl (Sentinel ErrMalformedToken)
          | Some raw \<Rightarrow>
            (case read_payload raw of
               None \<Rightarrow> Inl (Sentinel ErrMalformedToken)
             | Some p \<Rightarrow>
                 if pl_Namespace p \<noteq> ns \<or> pl_Name p \<noteq> name then Inl (Sentinel ErrScopeMismatch)
                 else Inr p))))"

definition Verify :: "signer \<Rightarrow> 'w kube \<Rightarrow> string \<Rightarrow> string \<Rightarrow> string \<Rightarrow> string \<Rightarrow>
    ('w, 'n, go_error + payload) kprog" where
  "Verify G K secret ns name token = (case checkToken G secret ns name token of
     Inl e \<Rightarrow> ret (Inl e)
   | Inr p \<Rightarrow> do {
       t \<leftarrow> now K;
       ret (if expired t (pl_Exp p) then Inl (Sentinel ErrExpired) else Inr p)
     })"

section \<open>The signing key\<close>

definition KeySecretName :: string where "KeySecretName = ''ai-cloud-operator-gateway-key''"
definition keySigningKey :: string where "keySigningKey = ''signingKey''"
definition signingKeyBytes :: nat where "signingKeyBytes = 32"

text \<open>The external calls of the gateway and of the HTTP API besides the API server.\<close>

datatype gcall =
    GRandom nat "go_error + string"
  | GConvexVerify string string string "go_error + string"
  | GExec string string string "string list" "string \<times> string \<times> go_error option"
  | GShutdown "go_error option"

type_synonym ('w, 'a) gprog = "('w, gcall, 'a) kprog"

definition key_secret :: "string \<Rightarrow> string \<Rightarrow> secret" where
  "key_secret ns key = \<lparr>sec_name = KeySecretName, sec_namespace = ns, sec_labels = [ManagedBy \<mapsto> ManagedByValue],
     sec_type = ''Opaque'', sec_data = [keySigningKey \<mapsto> key]\<rparr>"

definition lostRace :: "'w kube \<Rightarrow> string \<Rightarrow> ('w, go_error + string) gprog" where
  "lostRace K ns = do {
     r \<leftarrow> getSecret K ns KeySecretName;
     ret (case r of
       Inl e \<Rightarrow> Inl (Wrap ''getting gateway key secret after lost create race: '' e [])
     | Inr x \<Rightarrow>
         if length (mget (sec_data x) keySigningKey) > 0 then Inr (mget (sec_data x) keySigningKey)
         else Inl (ErrText (''gateway key secret exists but has no '' @ keySigningKey @ '' data'')))
   }"

definition generateKey :: "'w kube \<Rightarrow> (nat \<Rightarrow> 'w \<Rightarrow> (go_error + string) \<times> 'w) \<Rightarrow> string \<Rightarrow>
    ('w, go_error + string) gprog" where
  "generateKey K random ns = do {
     k \<leftarrow> ext (random signingKeyBytes) (\<lambda>r. Other (GRandom signingKeyBytes r));
     case k of
       Inl e \<Rightarrow> ret (Inl (Wrap ''generating gateway signing key: '' e []))
     | Inr key \<Rightarrow> do {
         c \<leftarrow> createSecret K (key_secret ns key);
         case c of
           None \<Rightarrow> ret (Inr key)
         | Some e \<Rightarrow>
             if IsAlreadyExists e then lostRace K ns
             else ret (Inl (Wrap ''creating gateway key secret: '' e []))
       }
   }"

definition LoadOrGenerate :: "'w kube \<Rightarrow> (nat \<Rightarrow> 'w \<Rightarrow> (go_error + string) \<times> 'w) \<Rightarrow> string \<Rightarrow>
    ('w, go_error + string) gprog" where
  "LoadOrGenerate K random ns = do {
     r \<leftarrow> getSecret K ns KeySecretName;
     case r of
       Inr x \<Rightarrow>
         if length (mget (sec_data x) keySigningKey) > 0 then ret (Inr (mget (sec_data x) keySigningKey))
         else generateKey K random ns
     | Inl e \<Rightarrow>
         if \<not> IsNotFound e then ret (Inl (Wrap ''getting gateway key secret: '' e []))
         else generateKey K random ns
   }"

section \<open>Pages and responses\<close>

datatype pageKind = pageLoading | pageFailed | pageStopped | pageNotFound | pageUnauthenticated

record pageData =
  pd_Kind :: pageKind
  pd_Name :: string
  pd_Message :: string
  pd_RefreshSeconds :: int
  pd_ShowRefresh :: bool

text \<open>The target of a forwarded request, and a cookie as \<open>http.SetCookie\<close> is given it.\<close>

record target =
  tg_Scheme :: string
  tg_Host :: string
  tg_Path :: string
  tg_Query :: "(string \<times> string) list"

record cookie =
  ck_Name :: string
  ck_Value :: string
  ck_Path :: string
  ck_MaxAge :: int
  ck_HttpOnly :: bool
  ck_Secure :: bool
  ck_SameSite :: string

datatype 'b reply =
    Html int pageData string
  | PlainError int string
  | JsonError int string string
  | Json int 'b
  | StatusOnly int
  | Redirect int string "(string \<times> string) list" cookie
  | Forward target

text \<open>\<open>html\<close> executes the embedded template.\<close>

definition renderPage :: "(pageData \<Rightarrow> go_error + string) \<Rightarrow> int \<Rightarrow> pageData \<Rightarrow> 'b reply" where
  "renderPage html statusCode d = (case html d of
     Inl _ \<Rightarrow> PlainError 500 ''internal error''
   | Inr body \<Rightarrow> Html statusCode d body)"

definition page :: "pageKind \<Rightarrow> string \<Rightarrow> pageData" where
  "page k name = \<lparr>pd_Kind = k, pd_Name = name, pd_Message = [], pd_RefreshSeconds = 0, pd_ShowRefresh = False\<rparr>"

definition renderLoadingPage :: "(pageData \<Rightarrow> go_error + string) \<Rightarrow> string \<Rightarrow> int \<Rightarrow> 'b reply" where
  "renderLoadingPage html name refreshSeconds = renderPage html 200
     ((page pageLoading name)\<lparr>pd_RefreshSeconds := refreshSeconds, pd_ShowRefresh := True\<rparr>)"

definition renderFailedPage :: "(pageData \<Rightarrow> go_error + string) \<Rightarrow> string \<Rightarrow> string \<Rightarrow> int \<Rightarrow> 'b reply" where
  "renderFailedPage html name message refreshSeconds = renderPage html 503
     ((page pageFailed name)\<lparr>pd_Message := message, pd_RefreshSeconds := refreshSeconds, pd_ShowRefresh := True\<rparr>)"

definition renderStoppedPage :: "(pageData \<Rightarrow> go_error + string) \<Rightarrow> string \<Rightarrow> 'b reply" where
  "renderStoppedPage html name = renderPage html 200 (page pageStopped name)"

definition renderNotFoundPage :: "(pageData \<Rightarrow> go_error + string) \<Rightarrow> string \<Rightarrow> 'b reply" where
  "renderNotFoundPage html name = renderPage html 404 (page pageNotFound name)"

definition RenderUnauthenticatedPage :: "(pageData \<Rightarrow> go_error + string) \<Rightarrow> string \<Rightarrow> 'b reply" where
  "RenderUnauthenticatedPage html name = renderPage html 401 (page pageUnauthenticated name)"

lemmas page_defs = renderPage_def renderLoadingPage_def renderFailedPage_def renderStoppedPage_def
  renderNotFoundPage_def RenderUnauthenticatedPage_def page_def

section \<open>The proxy\<close>

definition gatewayPageRefreshSeconds :: int where "gatewayPageRefreshSeconds = 3"

record serviceProxy =
  px_scheme :: string
  px_host :: string
  px_namespace :: string

record gwRequest =
  gq_name :: string
  gq_entrypoint :: string
  gq_subpath :: string
  gq_path :: string
  gq_query :: "(string \<times> string) list"
  gq_cookie :: "string option"

text \<open>\<open>url.Values\<close>: the first value of a key, the zero value when there is none; removing a key; and the order
  in which \<open>Encode\<close> writes them out, sorted by key.\<close>

definition query_get :: "(string \<times> string) list \<Rightarrow> string \<Rightarrow> string" where
  "query_get q k = (case map_of q k of None \<Rightarrow> [] | Some v \<Rightarrow> v)"

definition query_encode :: "(string \<times> string) list \<Rightarrow> (string \<times> string) list" where
  "query_encode q = sort_key fst q"

definition query_del :: "(string \<times> string) list \<Rightarrow> string \<Rightarrow> (string \<times> string) list" where
  "query_del q k = filter (\<lambda>(a, b). a \<noteq> k) q"

fun find_port :: "servicePort list \<Rightarrow> string \<Rightarrow> int32 option" where
  "find_port [] entrypoint = None"
| "find_port (sp # sps) entrypoint =
     (if sp_name sp = entrypoint then Some (sp_port sp) else find_port sps entrypoint)"

definition targetPath :: "string \<Rightarrow> string \<Rightarrow> int32 \<Rightarrow> string \<Rightarrow> string" where
  "targetPath ns name port subpath = ''/api/v1/namespaces/'' @ ns @ ''/services/'' @ name @ '':'' @
     show_int (sint port) @ ''/proxy/'' @ subpath"

definition forward :: "serviceProxy \<Rightarrow> gwRequest \<Rightarrow> int32 \<Rightarrow> 'b reply" where
  "forward P r port = Forward \<lparr>tg_Scheme = px_scheme P, tg_Host = px_host P,
     tg_Path = targetPath (px_namespace P) (gq_name r) port (gq_subpath r),
     tg_Query = query_encode (query_del (gq_query r) ''token'')\<rparr>"

definition serveService :: "serviceProxy \<Rightarrow> 'w kube \<Rightarrow> gwRequest \<Rightarrow> ('w, 'n, 'b reply) kprog" where
  "serveService P K r = do {
     g \<leftarrow> getService K (px_namespace P) (gq_name r);
     ret (case g of
       Inl e \<Rightarrow>
         if IsNotFound e then PlainError 404 ''workload service not found''
         else PlainError 502 ''failed to resolve workload service''
     | Inr svc \<Rightarrow>
         if length (s_ports svc) = 0 then PlainError 502 ''workload service exposes no ports''
         else (case find_port (s_ports svc) (gq_entrypoint r) of
           None \<Rightarrow> PlainError 404 ''unknown entrypoint''
         | Some port \<Rightarrow> forward P r port))
   }"

definition Handler :: "lib \<Rightarrow> (pageData \<Rightarrow> go_error + string) \<Rightarrow> serviceProxy \<Rightarrow> 'w kube \<Rightarrow> gwRequest \<Rightarrow>
    ('w, 'n, 'b reply) kprog" where
  "Handler L html P K r = do {
     g \<leftarrow> getWorkload K (px_namespace P) (gq_name r);
     case g of
       Inl e \<Rightarrow>
         if IsNotFound e then ret (renderNotFoundPage html (gq_name r))
         else ret (PlainError 502 ''failed to resolve workload'')
     | Inr w \<Rightarrow>
         if phase (status w) = PhaseFailed then
           ret (renderFailedPage html (gq_name r)
             (case findStatusCondition L (conditions (status w)) ConditionTypeReady of
                None \<Rightarrow> [] | Some c \<Rightarrow> cond_message c) gatewayPageRefreshSeconds)
         else if phase (status w) = PhaseStopped then ret (renderStoppedPage html (gq_name r))
         else if phase (status w) = PhaseRunning then serveService P K r
         else ret (renderLoadingPage html (gq_name r) gatewayPageRefreshSeconds)
   }"

section \<open>Lemmas\<close>

lemma seconds_after:
  fixes t b :: int
  shows "t div 10 ^ 9 > b \<or> t div 10 ^ 9 = b \<and> t mod 10 ^ 9 > 0 \<longleftrightarrow> b * 10 ^ 9 < t"
proof -
  define q r where "q = t div 10 ^ 9" and "r = t mod 10 ^ 9"
  then have "t = q * 1000000000 + r" "0 \<le> r" "r < 1000000000" by simp_all
  then have "q > b \<or> q = b \<and> r > 0 \<longleftrightarrow> b * 1000000000 < t" by auto
  then show ?thesis by (simp add: q_def r_def)
qed

lemma expired_exact:
  assumes "sint e + unixToInternal + 30 < 2 ^ 63"
  shows "expired t e \<longleftrightarrow> (sint e + 30) * 10 ^ 9 < t"
proof -
  have e: "- (2 ^ 63) \<le> sint e" using sint_int64_range [of e] by simp
  have word: "sint (word_of_int i :: int64) = i" if "i = sint e + unixToInternal \<or> i = sint e + unixToInternal + 30" for i
    using that assms e by (intro sint_int64) (auto simp: unixToInternal_def)
  have "unix_time e = word_of_int (sint e + unixToInternal)"
    "unix_time e + clockSkewSeconds = word_of_int (sint e + unixToInternal + 30)"
    by (simp_all add: unix_time_def clockSkewSeconds_def)
  then have u: "sint (unix_time e) = sint e + unixToInternal"
    and v: "sint (unix_time e + clockSkewSeconds) = sint e + unixToInternal + 30"
    by (simp_all only: word simp_thms)
  have "sint (add_seconds (unix_time e) clockSkewSeconds) = sint e + unixToInternal + 30"
    using u v by (simp add: add_seconds_def Let_def clockSkewSeconds_def)
  then have "expired t e \<longleftrightarrow> t div 10 ^ 9 > sint e + 30 \<or> t div 10 ^ 9 = sint e + 30 \<and> t mod 10 ^ 9 > 0"
    by (auto simp: expired_def Let_def)
  also have "\<dots> \<longleftrightarrow> (sint e + 30) * 10 ^ 9 < t" by (rule seconds_after)
  finally show ?thesis .
qed

text \<open>A time the clock can show: an \<open>int64\<close> holds its seconds.\<close>

definition clock_range :: "int \<Rightarrow> bool" where
  "clock_range t \<longleftrightarrow> t div 10 ^ 9 + unixToInternal + 30 < 2 ^ 63"

lemma not_expired_bound:
  assumes "clock_range t" "\<not> expired t e"
  shows "t \<le> (sint e + 30) * 10 ^ 9"
proof (cases "sint e + unixToInternal + 30 < 2 ^ 63")
  case True
  with assms(2) show ?thesis by (simp add: expired_exact)
next
  case False
  with assms(1) have "t div 10 ^ 9 < sint e" by (simp add: clock_range_def)
  then show ?thesis by simp
qed

lemma Verify_runs:
  assumes "runs (Verify G K secret ns name token) w r cs w'"
  obtains (rejected) e where "checkToken G secret ns name token = Inl e" "r = Inl e" "cs = []" "w' = w"
    | (checked) p t where "checkToken G secret ns name token = Inr p" "k_now K w = (t, w')" "cs = [CNow t]"
        "r = (if expired t (pl_Exp p) then Inl (Sentinel ErrExpired) else Inr p)"
proof (cases "checkToken G secret ns name token")
  case (Inl e)
  with assms show thesis by (intro rejected) (simp_all add: Verify_def runs_return)
next
  case (Inr p)
  with assms show thesis by (auto simp: Verify_def now_def runs_bind runs_ext runs_return intro: checked)
qed

text \<open>A payload whose strings are UTF-8 is read back as it was written.\<close>

definition utf8_payload :: "payload \<Rightarrow> bool" where
  "utf8_payload p \<longleftrightarrow> valid_utf8 (pl_Namespace p) \<and> valid_utf8 (pl_Name p) \<and> valid_utf8 (pl_UserID p)"

lemma read_payload_back:
  assumes "utf8_payload p"
  shows "read_payload (encode (payload_json p)) = Some p"
proof -
  have "Unmarshal (encode (payload_json p)) = Some (payload_json p)"
    using assms by (subst read_json_encode(1)) (simp_all add: payload_json_def utf8_payload_def valid_utf8_fixed maxNestingDepth_def)
  moreover have "- (2 ^ 63) \<le> sint (pl_Exp p)" "sint (pl_Exp p) \<le> 2 ^ 63 - 1"
    using sint_int64_range [of "pl_Exp p"] by simp_all
  ultimately show ?thesis
    by (simp add: read_payload_def payload_json_def payload_fields_def json_struct_defs zero_payload_def)
qed

lemma checkToken_Sign:
  assumes "utf8_payload p" "Sign G secret p = Inr token"
  shows "checkToken G secret ns name token =
    (if pl_Namespace p \<noteq> ns \<or> pl_Name p \<noteq> name then Inl (Sentinel ErrScopeMismatch) else Inr p)"
proof -
  let ?b = "EncodeToString (encode (payload_json p))"
  from assms have "token = ?b @ CHR ''.'' # EncodeToString (sg_hmac G secret ?b)"
    by (simp add: Sign_def Marshal_def Let_def)
  then have "cut (CHR ''.'') token = Some (?b, EncodeToString (sg_hmac G secret ?b))"
    by (simp add: b64.cut_pair)
  with read_payload_back [OF assms(1)] show ?thesis by (simp add: checkToken_def b64.undo)
qed

lemma checkToken_Inr:
  assumes "checkToken G secret ns name token = Inr p"
  shows "\<exists>b sig raw. token = b @ CHR ''.'' # sig \<and> DecodeString sig = Some (sg_hmac G secret b) \<and>
    DecodeString b = Some raw \<and> read_payload raw = Some p \<and> pl_Namespace p = ns \<and> pl_Name p = name"
proof -
  from assms obtain b sig raw where "token = b @ CHR ''.'' # sig" "DecodeString sig = Some (sg_hmac G secret b)"
    "DecodeString b = Some raw" "read_payload raw = Some p" "pl_Namespace p = ns" "pl_Name p = name"
    by (auto simp: checkToken_def cut_Some_iff split: option.splits if_splits sum.splits)
  then show ?thesis by (intro exI conjI)
qed

lemma proper_gateway [simp]:
  "proper (Verify G K secret ns name token)" "proper (lostRace K ns)" "proper (serveService P K r)"
  by (simp_all add: Verify_def lostRace_def serveService_def getService_def)

lemma proper_generateKey [simp]: "proper (generateKey K random ns)"
  by (simp add: generateKey_def)

lemma proper_gateway2 [simp]: "proper (LoadOrGenerate K random ns)" "proper (Handler L html P K r)"
  by (simp_all add: LoadOrGenerate_def Handler_def)

section \<open>Tokens: properties\<close>

text \<open>C16: Whatever the operator signed it can verify, exactly within its scope and time: a token made by
  \<open>Sign\<close> is accepted by \<open>Verify\<close>, with the payload that was signed, if and only if it is presented
  for the namespace and name in it and not more than thirty seconds after its expiry; otherwise
  the answer is \<open>ErrScopeMismatch\<close> or \<open>ErrExpired\<close>. This holds for every key and every MAC, and
  every payload of UTF-8 strings.\<close>

theorem Verify_Sign:
  assumes "utf8_payload p" "Sign G secret p = Inr token"
    and "sint (pl_Exp p) + unixToInternal + 30 < 2 ^ 63" "k_now K w = (t, w1)"
    and "runs (Verify G K secret ns name token) w r cs w'"
  shows "r = (if pl_Namespace p \<noteq> ns \<or> pl_Name p \<noteq> name then Inl (Sentinel ErrScopeMismatch)
    else if (sint (pl_Exp p) + 30) * 10 ^ 9 < t then Inl (Sentinel ErrExpired) else Inr p)"
  using assms(5) checkToken_Sign [OF assms(1,2), of ns name] expired_exact [OF assms(3), of t] assms(4)
  by (cases rule: Verify_runs) (auto split: if_splits)

text \<open>C17: A token is accepted only when its second part decodes to the MAC, under the operator's key, of
  its first part, which decodes to the payload returned; the payload names exactly the workload
  asked for, and by the clock it is at most thirty seconds past its expiry, whatever 64-bit
  number that expiry is: neither the wrap-around nor the saturation of Go's times extends it.\<close>

theorem Verify_sound:
  assumes "runs (Verify G K secret ns name token) w (Inr p) cs w'"
  shows "\<exists>b sig raw t. token = b @ CHR ''.'' # sig \<and> DecodeString sig = Some (sg_hmac G secret b) \<and>
    DecodeString b = Some raw \<and> read_payload raw = Some p \<and> pl_Namespace p = ns \<and> pl_Name p = name \<and>
    cs = [CNow t] \<and> (clock_range t \<longrightarrow> t \<le> (sint (pl_Exp p) + 30) * 10 ^ 9)"
  using assms
proof (cases rule: Verify_runs)
  case (checked q t)
  then have q: "q = p" "\<not> expired t (pl_Exp p)" by (auto split: if_splits)
  from checkToken_Inr [OF checked(1)] obtain b sig raw where "token = b @ CHR ''.'' # sig"
    "DecodeString sig = Some (sg_hmac G secret b)" "DecodeString b = Some raw" "read_payload raw = Some q"
    "pl_Namespace q = ns" "pl_Name q = name" by (elim exE conjE)
  moreover have "clock_range t \<longrightarrow> t \<le> (sint (pl_Exp p) + 30) * 10 ^ 9" using q(2) not_expired_bound by simp
  ultimately show ?thesis using checked(3) q(1) by (intro exI conjI) simp_all
qed simp

definition demo_payload :: payload where
  "demo_payload = \<lparr>pl_Namespace = ''ns'', pl_Name = ''w1'', pl_UserID = ''u1'', pl_Exp = 100\<rparr>"

text \<open>A signer that computes: the key is the MAC.\<close>

definition demo_signer :: signer where
  "demo_signer = \<lparr>sg_hmac = (\<lambda>k m. k)\<rparr>"

definition demo_token :: string where
  "demo_token = EncodeToString (encode (payload_json demo_payload)) @ ''.'' @ EncodeToString ''key''"

lemma demo_sign: "Sign demo_signer ''key'' demo_payload = Inr demo_token"
  by (simp add: Sign_def Marshal_def demo_signer_def Let_def demo_token_def)

lemma demo_utf8: "utf8_payload demo_payload"
  by (simp add: utf8_payload_def demo_payload_def)

lemma demo_verify:
  "runs (Verify demo_signer demo_kube ''key'' ''ns'' ''w1'' demo_token :: (nat, gcall, go_error + payload) kprog) 5
     (Inr demo_payload) [CNow 5] 6"
proof -
  have "checkToken demo_signer ''key'' ''ns'' ''w1'' demo_token = Inr demo_payload"
    by (subst checkToken_Sign [OF demo_utf8 demo_sign]) (simp_all add: demo_payload_def)
  moreover have "\<not> expired 5 (pl_Exp demo_payload)"
    by (subst expired_exact) (simp_all add: demo_payload_def unixToInternal_def)
  ultimately show ?thesis by (simp add: Verify_def now_def runs_bind runs_ext runs_return demo_kube_simps)
qed

theorem Verify_Sign_witness:
  "\<exists>r cs w'. runs (Verify demo_signer demo_kube ''key'' ''ns'' ''w2'' demo_token :: (nat, gcall, go_error + payload) kprog) 5 r cs w' \<and>
     r = Inl (Sentinel ErrScopeMismatch)"
proof -
  let ?V = "Verify demo_signer demo_kube ''key'' ''ns'' ''w2'' demo_token :: (nat, gcall, go_error + payload) kprog"
  obtain r cs w' where run: "runs ?V 5 r cs w'" using runs_total [of ?V 5] by auto
  have h: "sint (pl_Exp demo_payload) + unixToInternal + 30 < 2 ^ 63" "k_now demo_kube 5 = (5, 6)"
    by (simp_all add: demo_payload_def unixToInternal_def demo_kube_simps)
  from Verify_Sign [OF demo_utf8 demo_sign h run] run show ?thesis by (auto simp: demo_payload_def)
qed

theorem Verify_sound_witness:
  "\<exists>cs w' b sig. runs (Verify demo_signer demo_kube ''key'' ''ns'' ''w1'' demo_token :: (nat, gcall, go_error + payload) kprog) 5
     (Inr demo_payload) cs w' \<and> demo_token = b @ CHR ''.'' # sig \<and> DecodeString sig = Some ''key''"
proof -
  have "sg_hmac demo_signer ''key'' b = ''key''" for b by (simp add: demo_signer_def)
  with Verify_sound [OF demo_verify] demo_verify show ?thesis by auto
qed

section \<open>The signing key: properties\<close>

text \<open>Reading a Secret twice gives the same answer, and the random source fills the key.\<close>

definition stable_secrets :: "'w kube \<Rightarrow> bool" where
  "stable_secrets K \<longleftrightarrow> (\<forall>ns n w r w'. k_getSecret K ns n w = (r, w') \<longrightarrow> fst (k_getSecret K ns n w') = r)"

definition fills :: "(nat \<Rightarrow> 'w \<Rightarrow> (go_error + string) \<times> 'w) \<Rightarrow> bool" where
  "fills random \<longleftrightarrow> (\<forall>n w k w'. random n w = (Inr k, w') \<longrightarrow> length k = n)"

definition key_stored :: "'w kube \<Rightarrow> string \<Rightarrow> string \<Rightarrow> 'w \<Rightarrow> bool" where
  "key_stored K ns key w \<longleftrightarrow> key \<noteq> [] \<and>
     (\<exists>x. fst (k_getSecret K ns KeySecretName w) = Inr x \<and> mget (sec_data x) keySigningKey = key)"

lemma read_key_stored:
  assumes "stable_secrets K" "k_getSecret K ns KeySecretName w = (Inr x, w')" "mget (sec_data x) keySigningKey \<noteq> []"
  shows "key_stored K ns (mget (sec_data x) keySigningKey) w'"
  using assms unfolding key_stored_def stable_secrets_def by blast

lemma lostRace_stored:
  assumes "stable_secrets K" "runs (lostRace K ns) w (Inr key) cs w'"
  shows "key_stored K ns key w'"
proof -
  from assms(2) obtain r where g: "k_getSecret K ns KeySecretName w = (r, w')"
    and "Inr key = (case r of
       Inl e \<Rightarrow> Inl (Wrap ''getting gateway key secret after lost create race: '' e [])
     | Inr x \<Rightarrow>
         if length (mget (sec_data x) keySigningKey) > 0 then Inr (mget (sec_data x) keySigningKey)
         else Inl (ErrText (''gateway key secret exists but has no '' @ keySigningKey @ '' data'')))"
    by (auto simp: lostRace_def getSecret_def runs_bind runs_ext runs_return)
  then show ?thesis using read_key_stored [OF assms(1)] by (cases r) (auto split: if_splits)
qed

lemma generateKey_stored:
  assumes "secret_laws K" "stable_secrets K" "fills random" "runs (generateKey K random ns) w (Inr key) cs w'"
  shows "key_stored K ns key w'"
proof -
  from assms(4) obtain k w1 ds where k: "random signingKeyBytes w = (k, w1)"
    and "cs = Other (GRandom signingKeyBytes k) # ds" and rest: "runs (case k of
       Inl e \<Rightarrow> ret (Inl (Wrap ''generating gateway signing key: '' e []))
     | Inr key \<Rightarrow> do {
         c \<leftarrow> createSecret K (key_secret ns key);
         case c of
           None \<Rightarrow> ret (Inr key)
         | Some e \<Rightarrow>
             if IsAlreadyExists e then lostRace K ns
             else ret (Inl (Wrap ''creating gateway key secret: '' e []))
       }) w1 (Inr key) ds w'"
    unfolding generateKey_def by (rule runs_ext_bindE) simp_all
  from rest obtain key' where k': "k = Inr key'" by (cases k) (auto simp: runs_return)
  with k assms(3) have "length key' = signingKeyBytes" unfolding fills_def by blast
  then have len: "key' \<noteq> []" by (auto simp: signingKeyBytes_def)
  from rest k' obtain c w2 es where c: "k_createSecret K (key_secret ns key') w1 = (c, w2)"
    and fin: "runs (case c of
           None \<Rightarrow> ret (Inr key')
         | Some e \<Rightarrow>
             if IsAlreadyExists e then lostRace K ns
             else ret (Inl (Wrap ''creating gateway key secret: '' e []))) w2 (Inr key) es w'"
    by (auto simp: createSecret_def runs_bind runs_ext)
  show ?thesis
  proof (cases c)
    case None
    with c assms(1) have "fst (k_getSecret K (sec_namespace (key_secret ns key')) (sec_name (key_secret ns key')) w2) =
        Inr (key_secret ns key')" unfolding secret_laws_def by blast
    then have "fst (k_getSecret K ns KeySecretName w2) = Inr (key_secret ns key')" by (simp add: key_secret_def)
    with fin None len show ?thesis by (auto simp: runs_return key_stored_def key_secret_def)
  next
    case (Some e)
    with fin show ?thesis using lostRace_stored [OF assms(2)] by (auto simp: runs_return split: if_splits)
  qed
qed

lemma LoadOrGenerate_stored:
  assumes "secret_laws K" "stable_secrets K" "fills random" "runs (LoadOrGenerate K random ns) w (Inr key) cs w'"
  shows "key_stored K ns key w'"
proof -
  from assms(4) obtain r w1 ds where g: "k_getSecret K ns KeySecretName w = (r, w1)"
    and "cs = CGetSecret ns KeySecretName r # ds" and rest: "runs (case r of
       Inr x \<Rightarrow>
         if length (mget (sec_data x) keySigningKey) > 0 then ret (Inr (mget (sec_data x) keySigningKey))
         else generateKey K random ns
     | Inl e \<Rightarrow>
         if \<not> IsNotFound e then ret (Inl (Wrap ''getting gateway key secret: '' e []))
         else generateKey K random ns) w1 (Inr key) ds w'"
    unfolding LoadOrGenerate_def getSecret_def by (rule runs_ext_bindE) simp_all
  show ?thesis
  proof (cases r)
    case (Inl e)
    with rest show ?thesis using generateKey_stored [OF assms(1-3)] by (auto simp: runs_return split: if_splits)
  next
    case (Inr x)
    with rest g show ?thesis using generateKey_stored [OF assms(1-3)] read_key_stored [OF assms(2)]
      by (auto simp: runs_return split: if_splits)
  qed
qed

text \<open>C18: All replicas sign with one key. Once \<open>LoadOrGenerate\<close> returned a key, whether it read it,
  created it, or lost the race to create it, every later call returns the same key and writes
  nothing.\<close>

theorem signing_key_converges:
  assumes "secret_laws K" "stable_secrets K" "fills random"
    and "runs (LoadOrGenerate K random ns) w (Inr key) cs w1" "runs (LoadOrGenerate K random' ns) w1 r ds w2"
  shows "r = Inr key \<and> (\<exists>x. ds = [CGetSecret ns KeySecretName (Inr x)])"
proof -
  from LoadOrGenerate_stored [OF assms(1-4)] obtain x where "fst (k_getSecret K ns KeySecretName w1) = Inr x"
    "mget (sec_data x) keySigningKey = key" "key \<noteq> []" by (auto simp: key_stored_def)
  then show ?thesis using assms(5)
    by (cases "k_getSecret K ns KeySecretName w1")
       (auto simp: LoadOrGenerate_def getSecret_def runs_bind runs_ext runs_return)
qed

theorem signing_key_converges_witness:
  "\<exists>key cs w1 ds w2. runs (LoadOrGenerate secret_kube (\<lambda>n. answer (Inr (replicate n (CHR ''k'')))) ''ns'') None (Inr key) cs w1 \<and>
     runs (LoadOrGenerate secret_kube (\<lambda>n. answer (Inr (replicate n (CHR ''z'')))) ''ns'') w1 (Inr key) ds w2"
proof -
  let ?r = "\<lambda>n. answer (Inr (replicate n (CHR ''k''))) :: secret option \<Rightarrow> (go_error + string) \<times> secret option"
  let ?r' = "\<lambda>n. answer (Inr (replicate n (CHR ''z''))) :: secret option \<Rightarrow> (go_error + string) \<times> secret option"
  have laws: "stable_secrets secret_kube" "fills ?r"
    by (auto simp: stable_secrets_def secret_kube_def fills_def answer_def split: option.splits if_splits)
  have "\<exists>key cs w1. runs (LoadOrGenerate secret_kube ?r ''ns'') None (Inr key) cs w1"
    by (simp add: LoadOrGenerate_def generateKey_def runs_rules secret_kube_def demo_kube_simps IsNotFound_def)
  then obtain key cs w1 where one: "runs (LoadOrGenerate secret_kube ?r ''ns'') None (Inr key) cs w1" by (elim exE)
  obtain q ds w2 where two: "runs (LoadOrGenerate secret_kube ?r' ''ns'') w1 q ds w2"
    using runs_total [of "LoadOrGenerate secret_kube ?r' ''ns''" w1] by auto
  from signing_key_converges [OF secret_kube_laws laws one two] have "q = Inr key" by (elim conjE)
  with one two show ?thesis by (intro exI conjI) simp_all
qed

section \<open>The proxy: properties\<close>

lemma find_port_Some: "find_port ps n = Some p \<Longrightarrow> \<exists>sp \<in> set ps. sp_name sp = n \<and> sp_port sp = p"
  by (induction ps) (auto split: if_splits)

lemma find_port_exists: "sp \<in> set ps \<Longrightarrow> \<exists>p. find_port ps (sp_name sp) = Some p"
  by (induction ps) auto

lemma set_query_encode [simp]: "set (query_encode q) = set q"
  by (simp add: query_encode_def)

lemma query_del_key [simp]: "k \<notin> fst ` set (query_del q k)"
  by (auto simp: query_del_def)

lemma renderPage_not_forward [simp]: "renderPage html st d \<noteq> Forward tg"
  by (simp add: renderPage_def split: sum.split)

lemma pages_not_forward [simp]:
  "renderNotFoundPage html n \<noteq> Forward tg" "renderFailedPage html n m s \<noteq> Forward tg"
  "renderStoppedPage html n \<noteq> Forward tg" "renderLoadingPage html n s \<noteq> Forward tg"
  by (simp_all add: renderNotFoundPage_def renderFailedPage_def renderStoppedPage_def renderLoadingPage_def)

text \<open>A request is forwarded into the cluster only when the Workload of that name exists in the
  operator's own namespace and is Running, its Service exists, and the Service has a port named as
  the requested entrypoint; the target is that Service's proxy path at that port, and the gateway's
  own access token never leaves in the query.\<close>

lemma Handler_forwards:
  assumes "runs (Handler L html P K r :: ('w, 'n, 'b reply) kprog) w (Forward tg) cs w'"
  shows "\<exists>wl svc sp. cs = [CGetWorkload (px_namespace P) (gq_name r) (Inr wl), CGetService (px_namespace P) (gq_name r) (Inr svc)] \<and>
    phase (status wl) = PhaseRunning \<and> sp \<in> set (s_ports svc) \<and> sp_name sp = gq_entrypoint r \<and>
    tg_Host tg = px_host P \<and> tg_Path tg = targetPath (px_namespace P) (gq_name r) (sp_port sp) (gq_subpath r) \<and>
    ''token'' \<notin> fst ` set (tg_Query tg)"
proof -
  from assms obtain g w1 ds where "k_getWorkload K (px_namespace P) (gq_name r) w = (g, w1)"
    and cs: "cs = CGetWorkload (px_namespace P) (gq_name r) g # ds" and rest: "runs (case g of
       Inl e \<Rightarrow>
         if IsNotFound e then ret (renderNotFoundPage html (gq_name r))
         else ret (PlainError 502 ''failed to resolve workload'')
     | Inr w \<Rightarrow>
         if phase (status w) = PhaseFailed then
           ret (renderFailedPage html (gq_name r)
             (case findStatusCondition L (conditions (status w)) ConditionTypeReady of
                None \<Rightarrow> [] | Some c \<Rightarrow> cond_message c) gatewayPageRefreshSeconds)
         else if phase (status w) = PhaseStopped then ret (renderStoppedPage html (gq_name r))
         else if phase (status w) = PhaseRunning then serveService P K r
         else ret (renderLoadingPage html (gq_name r) gatewayPageRefreshSeconds)) w1 (Forward tg :: 'b reply) (ds :: 'n call list) w'"
    unfolding Handler_def getWorkload_def by (rule runs_ext_bindE) simp_all
  from rest obtain wl where g: "g = Inr wl" and run: "phase (status wl) = PhaseRunning"
    and serve: "runs (serveService P K r) w1 (Forward tg :: 'b reply) (ds :: 'n call list) w'"
    by (cases g) (auto simp: runs_return dest: sym split: if_splits)
  from serve obtain q where ds: "ds = [CGetService (px_namespace P) (gq_name r) q]" and
    res: "(Forward tg :: 'b reply) = (case q of
       Inl e \<Rightarrow>
         if IsNotFound e then PlainError 404 ''workload service not found''
         else PlainError 502 ''failed to resolve workload service''
     | Inr svc \<Rightarrow>
         if length (s_ports svc) = 0 then PlainError 502 ''workload service exposes no ports''
         else (case find_port (s_ports svc) (gq_entrypoint r) of
           None \<Rightarrow> PlainError 404 ''unknown entrypoint''
         | Some port \<Rightarrow> forward P r port))"
    by (auto simp: serveService_def getService_def runs_bind runs_ext runs_return)
  from res obtain svc port where "q = Inr svc" "find_port (s_ports svc) (gq_entrypoint r) = Some port"
    "(Forward tg :: 'b reply) = forward P r port"
    by (cases q) (auto split: if_splits option.splits)
  with find_port_Some [of "s_ports svc" "gq_entrypoint r" port] cs g ds run show ?thesis
    by (auto simp: forward_def)
qed

definition gw_kube :: "nat kube" where
  "gw_kube = demo_kube\<lparr>
     k_getWorkload := (\<lambda>ns n. answer (Inr (empty_workload\<lparr>w_name := n, w_namespace := ns, status := empty_status\<lparr>phase := PhaseRunning\<rparr>\<rparr>))),
     k_getService := (\<lambda>ns n. answer (Inr \<lparr>s_name = n, s_namespace = ns, s_labels = Map.empty, s_selector = Map.empty,
       s_ports = [\<lparr>sp_name = ''http'', sp_port = 80, sp_targetPort = 80\<rparr>], s_owners = []\<rparr>))\<rparr>"

definition demo_request :: gwRequest where
  "demo_request = \<lparr>gq_name = ''w1'', gq_entrypoint = ''http'', gq_subpath = ''x'', gq_path = ''/gw/w1/http/x'',
     gq_query = [(''token'', ''t''), (''a'', ''b'')], gq_cookie = None\<rparr>"

definition demo_proxy :: serviceProxy where
  "demo_proxy = \<lparr>px_scheme = ''https'', px_host = ''api'', px_namespace = ''ns''\<rparr>"

end
