(* ===== verification/PodExec.thy ===== *)
theory PodExec
  imports Metrics
begin

text \<open>
  Commands inside running pods (internal/podexec/exec.go): finding the pod of a workload and running
  a command in it. The request the executor builds is a value; the SPDY executor of client-go is a
  parameter that may refuse to be built, or streams the request and returns what the command wrote
  with the error it ended with.
\<close>

section \<open>Finding the pod\<close>

definition PodRunning :: string where "PodRunning = ''Running''"

definition FindPod :: "'w kube \<Rightarrow> string \<Rightarrow> string \<Rightarrow> ('w, 'n, go_error + string) kprog" where
  "FindPod K ns workloadName = do {
     r \<leftarrow> listPods K ns [workloadNameLabel \<mapsto> workloadName];
     ret (case r of
       Inl e \<Rightarrow> Inl (Wrap ''listing pods: '' e [])
     | Inr pods \<Rightarrow> (case find (\<lambda>p. p_phase p = PodRunning) pods of
         Some p \<Rightarrow> Inr (p_name p)
       | None \<Rightarrow> Inl (ErrText (''no running pod found for workload '' @ go_quote workloadName))))
   }"

section \<open>Running a command\<close>

record podExecOptions =
  po_Command :: "string list"
  po_Container :: string
  po_Stdin :: bool
  po_Stdout :: bool
  po_Stderr :: bool
  po_TTY :: bool

record execRequest =
  er_method :: string
  er_resource :: string
  er_namespace :: string
  er_name :: string
  er_subresource :: string
  er_params :: podExecOptions

text \<open>The client library: a clientset from the manager's configuration, an executor for a request, its stream.\<close>

record 'w executor =
  ex_clientset :: "go_error option"
  ex_newSPDY :: "execRequest \<Rightarrow> go_error option"
  ex_stream :: "execRequest \<Rightarrow> 'w \<Rightarrow> (string \<times> string \<times> go_error option) \<times> 'w"

datatype xcall = XStream execRequest "string \<times> string \<times> go_error option"

definition NewExecutor :: "'w executor \<Rightarrow> go_error + 'w executor" where
  "NewExecutor E = (case ex_clientset E of
     Some e \<Rightarrow> Inl (Wrap ''building kubernetes clientset: '' e [])
   | None \<Rightarrow> Inr E)"

definition exec_request :: "string \<Rightarrow> string \<Rightarrow> string \<Rightarrow> string list \<Rightarrow> execRequest" where
  "exec_request ns podName container command = \<lparr>er_method = ''POST'', er_resource = ''pods'', er_namespace = ns,
     er_name = podName, er_subresource = ''exec'',
     er_params = \<lparr>po_Command = command, po_Container = container, po_Stdin = False, po_Stdout = True,
       po_Stderr = True, po_TTY = False\<rparr>\<rparr>"

definition Executor_Exec :: "'w executor \<Rightarrow> string \<Rightarrow> string \<Rightarrow> string \<Rightarrow> string list \<Rightarrow>
    ('w, xcall, string \<times> string \<times> go_error option) kprog" where
  "Executor_Exec E ns podName container command =
     (let req = exec_request ns podName container command in
      case ex_newSPDY E req of
        Some e \<Rightarrow> ret ([], [], Some (Wrap ''building spdy executor: '' e []))
      | None \<Rightarrow> ext (ex_stream E req) (\<lambda>r. Other (XStream req r)))"

section \<open>Lemmas\<close>

lemma proper_FindPod [simp]: "proper (FindPod K ns n)"
  by (simp add: FindPod_def kube_ops)

lemma proper_Executor_Exec [simp]: "proper (Executor_Exec E ns p c cmd)"
  by (simp add: Executor_Exec_def Let_def)

text \<open>A command is streamed at most once, and a result without an error is what that stream returned.\<close>

lemma Executor_Exec_runs:
  assumes "runs (Executor_Exec E ns p c cmd) w (out, err, e) cs w'"
  shows "cs = [Other (XStream (exec_request ns p c cmd) (out, err, e))] \<or> cs = [] \<and> w' = w \<and> out = [] \<and> err = [] \<and> e \<noteq> None"
  using assms by (auto simp: Executor_Exec_def Let_def runs_simps split: option.splits)

lemma FindPod_runs:
  assumes "runs (FindPod K ns name) w r cs w'"
  shows "\<exists>q. cs = [CListPods ns [workloadNameLabel \<mapsto> name] q] \<and>
    (\<forall>n. r = Inr n \<longrightarrow> (\<exists>pods p. q = Inr pods \<and> p \<in> set pods \<and> p_name p = n \<and> p_phase p = PodRunning))"
proof -
  from assms obtain q where cs: "cs = [CListPods ns [workloadNameLabel \<mapsto> name] q]" and r: "r = (case q of
       Inl e \<Rightarrow> Inl (Wrap ''listing pods: '' e [])
     | Inr pods \<Rightarrow> (case find (\<lambda>p. p_phase p = PodRunning) pods of
         Some p \<Rightarrow> Inr (p_name p)
       | None \<Rightarrow> Inl (ErrText (''no running pod found for workload '' @ go_quote name))))"
    by (auto simp: FindPod_def listPods_def runs_bind runs_ext runs_return)
  have "\<exists>pods p. q = Inr pods \<and> p \<in> set pods \<and> p_name p = n \<and> p_phase p = PodRunning" if "r = Inr n" for n
    using that r by (auto simp: find_Some_iff in_set_conv_nth split: sum.splits option.splits)
  with cs show ?thesis by blast
qed

end
