(* ===== verification/ApiServer.thy ===== *)
theory ApiServer
  imports Gateway PodExec
begin

text \<open>
  The inbound HTTP API (internal/api/server.go, apierror.go) with the helper that ensures the workload
  namespace (internal/workloadns/ensure.go). A handler returns the response as a value of
  \<open>reply\<close>. The gateway verifier and the pod executor are fields of \<open>'w server\<close>, and so is
  Kubernetes' own decoder of the source of an environment variable, which is kept as a document; so is
  the deploy token, as the token getter returns it for this request. A request is given with its route; theory
  \<open>Routing\<close> matches the URL.
\<close>

section \<open>Errors and helpers\<close>

definition codeAuthMissingToken :: string where "codeAuthMissingToken = ''auth.missing_token''"
definition codeAuthInvalidToken :: string where "codeAuthInvalidToken = ''auth.invalid_token''"
definition codeRequestInvalidJSON :: string where "codeRequestInvalidJSON = ''request.invalid_json''"
definition codeWorkloadNotFound :: string where "codeWorkloadNotFound = ''workload.not_found''"
definition codeWorkloadImageRequired :: string where "codeWorkloadImageRequired = ''workload.image_required''"
definition codeWorkloadUserIDRequired :: string where "codeWorkloadUserIDRequired = ''workload.user_id_required''"
definition codeWorkloadNameRequired :: string where "codeWorkloadNameRequired = ''workload.name_required''"
definition codeWorkloadInvalidName :: string where "codeWorkloadInvalidName = ''workload.invalid_name''"
definition codeWorkloadInvalidConfig :: string where "codeWorkloadInvalidConfig = ''workload.invalid_config''"
definition codeWorkloadNoRunningPod :: string where "codeWorkloadNoRunningPod = ''workload.no_running_pod''"
definition codeCatalogTemplateUnknown :: string where "codeCatalogTemplateUnknown = ''catalog.template_unknown''"
definition codeCatalogFunctionUnknown :: string where "codeCatalogFunctionUnknown = ''catalog.function_unknown''"
definition codeCatalogInvalidParams :: string where "codeCatalogInvalidParams = ''catalog.invalid_params''"
definition codeCatalogFunctionFailed :: string where "codeCatalogFunctionFailed = ''catalog.function_failed''"
definition codeInternalError :: string where "codeInternalError = ''internal.error''"

record runFunctionResponse =
  rf_AdditionalInfo :: "additionalInfo list"
  rf_File :: "fileResult option"

record workloadResponse =
  wr_Name :: string
  wr_Namespace :: string
  wr_Status :: workloadStatus

datatype body = RunBody runFunctionResponse | WorkloadBody workloadResponse

text \<open>An error is answered with its status and the struct \<open>errorResponse\<close>.\<close>

definition errorResponse_json :: "string \<Rightarrow> string \<Rightarrow> json" where
  "errorResponse_json code message = JObj [(''code'', JStr code), (''message'', JStr message)]"

definition writeError :: "int \<Rightarrow> string \<Rightarrow> string \<Rightarrow> body reply" where
  "writeError st code message = JsonError st code message"

definition podSecurityLevelBaseline :: string where "podSecurityLevelBaseline = ''baseline''"

definition podSecurityLabels :: labels where
  "podSecurityLabels =
     [''pod-security.kubernetes.io/enforce'' \<mapsto> podSecurityLevelBaseline,
      ''pod-security.kubernetes.io/audit'' \<mapsto> podSecurityLevelBaseline,
      ''pod-security.kubernetes.io/warn'' \<mapsto> podSecurityLevelBaseline]"

definition EnsureNamespace :: "'w kube \<Rightarrow> string \<Rightarrow> ('w, 'n, go_error option) kprog" where
  "EnsureNamespace K name = do {
     c \<leftarrow> createNamespace K name podSecurityLabels;
     case c of
       None \<Rightarrow> ret None
     | Some e \<Rightarrow>
         if \<not> IsAlreadyExists e then
           ret (Some (Wrap (''creating workload namespace '' @ go_quote name @ '': '') e []))
         else do {
           p \<leftarrow> patchNamespace K name podSecurityLabels;
           ret (map_option (\<lambda>e. Wrap (''labeling existing workload namespace '' @ go_quote name @ '': '') e []) p)
         }
   }"

section \<open>The server\<close>

definition gatewayCookieName :: string where "gatewayCookieName = ''gw_auth''"
definition gatewayCookieTTL :: int where "gatewayCookieTTL = 30 * 60 * 10 ^ 9"

record deployRequest =
  dr_Name :: string
  dr_TemplateName :: string
  dr_Image :: string
  dr_Replicas :: "int32 option"
  dr_ContainerPort :: int32
  dr_Env :: "envVar list"
  dr_Subdomain :: string
  dr_UserID :: string
  dr_Config :: "params option"

record 'w server =
  sv_lib :: lib
  sv_kube :: "'w kube"
  sv_token :: string
  sv_gatewaySecret :: string
  sv_signer :: signer
  sv_html :: "pageData \<Rightarrow> go_error + string"
  sv_verifier :: "string \<Rightarrow> string \<Rightarrow> string \<Rightarrow> 'w \<Rightarrow> (go_error + string) \<times> 'w"
  sv_exec :: "string \<Rightarrow> string \<Rightarrow> string \<Rightarrow> string list \<Rightarrow> 'w \<Rightarrow> (string \<times> string \<times> go_error option) \<times> 'w"
  sv_proxy :: serviceProxy
  sv_creator :: string
  sv_destroyer :: string
  sv_namespace :: string
  sv_envSource :: "json setter"

section \<open>Request bodies\<close>

definition envVar_fields :: "json setter \<Rightarrow> (string \<times> envVar setter) list" where
  "envVar_fields source =
     [(''name'', set_string (\<lambda>x. ev_name_update (\<lambda>_. x))), (''value'', set_string (\<lambda>x. ev_value_update (\<lambda>_. x))),
      (''valueFrom'', set_pointer source (JObj []) ev_valueFrom (\<lambda>x. ev_valueFrom_update (\<lambda>_. x)))]"

definition int32_max :: int where "int32_max = 2 ^ 31 - 1"

definition deployRequest_fields :: "floatText \<Rightarrow> json setter \<Rightarrow> (string \<times> deployRequest setter) list" where
  "deployRequest_fields F source =
     [(''name'', set_string (\<lambda>x. dr_Name_update (\<lambda>_. x))),
      (''templateName'', set_string (\<lambda>x. dr_TemplateName_update (\<lambda>_. x))),
      (''image'', set_string (\<lambda>x. dr_Image_update (\<lambda>_. x))),
      (''replicas'', set_int_pointer (- int32_max - 1) int32_max (\<lambda>i. dr_Replicas_update (\<lambda>_. map_option word_of_int i))),
      (''containerPort'', set_int (- int32_max - 1) int32_max (\<lambda>i. dr_ContainerPort_update (\<lambda>_. word_of_int i))),
      (''env'', set_list (to_struct (envVar_fields source)) \<lparr>ev_name = [], ev_value = [], ev_valueFrom = None\<rparr> dr_Env (\<lambda>x. dr_Env_update (\<lambda>_. x))),
      (''subdomain'', set_string (\<lambda>x. dr_Subdomain_update (\<lambda>_. x))),
      (''userId'', set_string (\<lambda>x. dr_UserID_update (\<lambda>_. x))),
      (''config'', set_map F dr_Config (\<lambda>x. dr_Config_update (\<lambda>_. x)))]"

definition zero_deployRequest :: deployRequest where
  "zero_deployRequest = \<lparr>dr_Name = [], dr_TemplateName = [], dr_Image = [], dr_Replicas = None, dr_ContainerPort = 0,
     dr_Env = [], dr_Subdomain = [], dr_UserID = [], dr_Config = None\<rparr>"

definition decodeDeploy :: "'w server \<Rightarrow> string \<Rightarrow> deployRequest option" where
  "decodeDeploy S = read_struct (deployRequest_fields (floats (sv_lib S)) (sv_envSource S)) zero_deployRequest"

text \<open>\<open>runFunctionRequest\<close> has the one field \<open>Params\<close>.\<close>

definition runFunctionRequest_fields :: "floatText \<Rightarrow> (string \<times> params option setter) list" where
  "runFunctionRequest_fields F = [(''params'', set_map F (\<lambda>x. x) (\<lambda>x _. x))]"

definition decodeRun :: "'w server \<Rightarrow> string \<Rightarrow> params option option" where
  "decodeRun S = read_struct (runFunctionRequest_fields (floats (sv_lib S))) None"

section \<open>Handlers\<close>

definition requireDeployToken :: "'w server \<Rightarrow> string \<Rightarrow> ('w, body reply) gprog \<Rightarrow> ('w, body reply) gprog" where
  "requireDeployToken S authorization nxt =
     (case cut_prefix ''Bearer '' authorization of
        None \<Rightarrow> ret (writeError 401 codeAuthMissingToken ''missing bearer token'')
      | Some presented \<Rightarrow>
          if presented = [] then ret (writeError 401 codeAuthMissingToken ''missing bearer token'')
          else if sv_token S = [] \<or> presented \<noteq> sv_token S then
            ret (writeError 401 codeAuthInvalidToken ''invalid bearer token'')
          else nxt)"

text \<open>The session minted by the exchange: a cookie for this one workload, and the redirect.\<close>

definition session_payload :: "'w server \<Rightarrow> string \<Rightarrow> string \<Rightarrow> int \<Rightarrow> payload" where
  "session_payload S name uid t = \<lparr>pl_Namespace = sv_namespace S, pl_Name = name, pl_UserID = uid,
     pl_Exp = word_of_int ((t + gatewayCookieTTL) div 10 ^ 9)\<rparr>"

definition session_cookie :: "string \<Rightarrow> string \<Rightarrow> cookie" where
  "session_cookie name val = \<lparr>ck_Name = gatewayCookieName, ck_Value = val, ck_Path = ''/gw/'' @ name,
     ck_MaxAge = gatewayCookieTTL div 10 ^ 9, ck_HttpOnly = True, ck_Secure = True, ck_SameSite = ''Lax''\<rparr>"

definition exchangeToken :: "'w server \<Rightarrow> gwRequest \<Rightarrow> string \<Rightarrow> ('w, body reply) gprog" where
  "exchangeToken S r token = do {
     v \<leftarrow> ext (sv_verifier S token (sv_namespace S) (gq_name r))
            (\<lambda>v. Other (GConvexVerify token (sv_namespace S) (gq_name r) v));
     case v of
       Inl _ \<Rightarrow> ret (RenderUnauthenticatedPage (sv_html S) (gq_name r))
     | Inr uid \<Rightarrow> do {
         t \<leftarrow> now (sv_kube S);
         ret (case Sign (sv_signer S) (sv_gatewaySecret S) (session_payload S (gq_name r) uid t) of
           Inl _ \<Rightarrow> writeError 500 codeInternalError ''internal error''
         | Inr val \<Rightarrow> Redirect 302 (gq_path r) (query_encode (query_del (gq_query r) ''token'')) (session_cookie (gq_name r) val))
       }
   }"

definition requireGatewayToken :: "'w server \<Rightarrow> gwRequest \<Rightarrow> ('w, body reply) gprog \<Rightarrow> ('w, body reply) gprog" where
  "requireGatewayToken S r nxt =
     (let token = query_get (gq_query r) ''token'' in
      if token = [] then
        (case gq_cookie r of
           None \<Rightarrow> ret (RenderUnauthenticatedPage (sv_html S) (gq_name r))
         | Some value \<Rightarrow> do {
             v \<leftarrow> Verify (sv_signer S) (sv_kube S) (sv_gatewaySecret S) (sv_namespace S) (gq_name r) value;
             case v of
               Inr _ \<Rightarrow> nxt
             | Inl _ \<Rightarrow> ret (RenderUnauthenticatedPage (sv_html S) (gq_name r))
           })
      else exchangeToken S r token)"

section \<open>Handlers\<close>

primrec runInteraction :: "'w server \<Rightarrow> 'a interaction \<Rightarrow> ('w, 'a) gprog" where
  "runInteraction S (Done a) = ret a"
| "runInteraction S (Exec ns pod c cmd f) = do {
     r \<leftarrow> ext (sv_exec S ns pod c cmd) (\<lambda>r. Other (GExec ns pod c cmd r));
     runInteraction S (f r)
   }"
| "runInteraction S (Now f) = do { t \<leftarrow> now (sv_kube S); runInteraction S (f t) }"

definition runOn :: "'w server \<Rightarrow> string \<Rightarrow> operation \<Rightarrow> params \<Rightarrow> ('w, body reply) gprog" where
  "runOn S name fn resolvedParams = do {
     p \<leftarrow> FindPod (sv_kube S) (sv_namespace S) name;
     case p of
       Inl e \<Rightarrow> ret (writeError 409 codeWorkloadNoRunningPod (''workload has no running pod: '' @ error_text e))
     | Inr podName \<Rightarrow> do {
         res \<leftarrow> runInteraction S (op_run fn \<lparr>pr_namespace = sv_namespace S, pr_podName = podName\<rparr> resolvedParams);
         ret (case res of
           Inl e \<Rightarrow> writeError 500 codeCatalogFunctionFailed (''function failed: '' @ error_text e)
         | Inr out \<Rightarrow> Json 200 (RunBody \<lparr>rf_AdditionalInfo = or_additionalInfo out, rf_File = or_file out\<rparr>))
       }
   }"

definition selectOperation :: "'w server \<Rightarrow> workload \<Rightarrow> string \<Rightarrow> params option \<Rightarrow> body reply + operation \<times> params" where
  "selectOperation S w key ps = (case Get (sv_lib S) (templateName (spec w)) of
     None \<Rightarrow> Inl (writeError 400 codeCatalogTemplateUnknown (''unknown template '' @ go_quote (templateName (spec w))))
   | Some tmpl \<Rightarrow>
     (case GetOperation tmpl key of
        None \<Rightarrow> Inl (writeError 404 codeCatalogFunctionUnknown
          (''unknown function '' @ go_quote key @ '' for template '' @ go_quote (t_id tmpl)))
      | Some fn \<Rightarrow>
        (case ResolveParams (sv_lib S) (op_parameters fn) (cfg_map ps) of
           Inl e \<Rightarrow> Inl (writeError 400 codeCatalogInvalidParams (error_text e))
         | Inr resolved \<Rightarrow> Inr (fn, resolved))))"

definition handleRunFunction :: "'w server \<Rightarrow> string \<Rightarrow> string \<Rightarrow> string \<Rightarrow> ('w, body reply) gprog" where
  "handleRunFunction S name key bdy = (case decodeRun S bdy of
     None \<Rightarrow> ret (writeError 400 codeRequestInvalidJSON ''invalid json body'')
   | Some ps \<Rightarrow> do {
       g \<leftarrow> getWorkload (sv_kube S) (sv_namespace S) name;
       case g of
         Inl e \<Rightarrow>
           ret (if IsNotFound e then writeError 404 codeWorkloadNotFound ''workload not found''
                else writeError 500 codeInternalError (''failed to get workload: '' @ error_text e))
       | Inr w \<Rightarrow> (case selectOperation S w key ps of
           Inl rep \<Rightarrow> ret rep
         | Inr (fn, resolved) \<Rightarrow> runOn S name fn resolved)
     })"

definition workload_response :: "workload \<Rightarrow> body" where
  "workload_response w = WorkloadBody \<lparr>wr_Name = w_name w, wr_Namespace = w_namespace w, wr_Status = status w\<rparr>"

text \<open>The checks of \<open>handleDeploy\<close> before any call, in order; \<open>None\<close> lets the request pass.\<close>

definition deployRejected :: "'w server \<Rightarrow> deployRequest \<Rightarrow> body reply option" where
  "deployRejected S req =
     (if dr_TemplateName req = [] \<and> dr_Image req = [] then
        Some (writeError 400 codeWorkloadImageRequired ''image is required when templateName is unset'')
      else if dr_TemplateName req \<noteq> [] then
        (if dr_UserID req = [] then
           Some (writeError 400 codeWorkloadUserIDRequired ''userId is required for a template deploy'')
         else None)
      else if dr_Name req = [] then
        Some (writeError 400 codeWorkloadNameRequired ''name is required for a non-template deploy'')
      else if length (isDNS1123Label (sv_lib S) (dr_Name req)) > 0 then
        Some (writeError 400 codeWorkloadInvalidName (''invalid name '' @ go_quote (dr_Name req) @ '': '' @
          join ''; '' (isDNS1123Label (sv_lib S) (dr_Name req))))
      else None)"

definition createError :: "go_error \<Rightarrow> body reply" where
  "createError e =
     (if errors_is e ErrUnknownTemplate then writeError 400 codeCatalogTemplateUnknown (error_text e)
      else if errors_is e ErrInvalidConfig then writeError 400 codeWorkloadInvalidConfig (error_text e)
      else writeError 500 codeInternalError (''failed to create workload: '' @ error_text e))"

definition mutateWorkload :: "deployRequest \<Rightarrow> string option \<Rightarrow> workload \<Rightarrow> go_error + workload" where
  "mutateWorkload req configRaw w = Inr (w\<lparr>spec := (spec w)
     \<lparr>image := dr_Image req, replicas := dr_Replicas req, containerPort := dr_ContainerPort req,
      env := dr_Env req, subdomain := dr_Subdomain req, userID := dr_UserID req, config := configRaw\<rparr>\<rparr>)"

definition deployTemplate :: "'w server \<Rightarrow> deployRequest \<Rightarrow> ('w, body reply) gprog" where
  "deployTemplate S req = do {
     r \<leftarrow> Create (sv_lib S) (sv_kube S) (sv_creator S) [] (dr_TemplateName req) (dr_UserID req)
           (dr_Subdomain req) (dr_Config req);
     ret (case r of Inl e \<Rightarrow> createError e | Inr w \<Rightarrow> Json 202 (workload_response w))
   }"

definition deployImage :: "'w server \<Rightarrow> deployRequest \<Rightarrow> ('w, body reply) gprog" where
  "deployImage S req = (case marshalConfig (sv_lib S) (dr_Config req) of
     Inl e \<Rightarrow> ret (writeError 400 codeWorkloadInvalidConfig (''invalid config: '' @ error_text e))
   | Inr configRaw \<Rightarrow> do {
       r \<leftarrow> applyWorkload (sv_kube S) (sv_namespace S) (dr_Name req) (mutateWorkload req configRaw);
       ret (case r of
         Inl e \<Rightarrow> writeError 500 codeInternalError (''failed to apply workload: '' @ error_text e)
       | Inr w \<Rightarrow> Json 202 (workload_response w))
     })"

definition handleDeploy :: "'w server \<Rightarrow> string \<Rightarrow> ('w, body reply) gprog" where
  "handleDeploy S bdy = (case decodeDeploy S bdy of
     None \<Rightarrow> ret (writeError 400 codeRequestInvalidJSON ''invalid json body'')
   | Some req \<Rightarrow> (case deployRejected S req of
       Some rep \<Rightarrow> ret rep
     | None \<Rightarrow> if dr_TemplateName req \<noteq> [] then deployTemplate S req else deployImage S req))"

definition handleGet :: "'w server \<Rightarrow> string \<Rightarrow> ('w, body reply) gprog" where
  "handleGet S name = do {
     g \<leftarrow> getWorkload (sv_kube S) (sv_namespace S) name;
     ret (case g of
       Inl e \<Rightarrow>
         if IsNotFound e then writeError 404 codeWorkloadNotFound ''workload not found''
         else writeError 500 codeInternalError (''failed to get workload: '' @ error_text e)
     | Inr w \<Rightarrow> Json 200 (workload_response w))
   }"

definition handleDelete :: "'w server \<Rightarrow> string \<Rightarrow> ('w, body reply) gprog" where
  "handleDelete S name = do {
     e \<leftarrow> Destroy (sv_kube S) (sv_destroyer S) name;
     ret (case e of
       Some e \<Rightarrow> writeError 500 codeInternalError (''failed to delete workload: '' @ error_text e)
     | None \<Rightarrow> StatusOnly 204)
   }"

definition handleHealthz :: "body reply" where
  "handleHealthz = StatusOnly 200"

text \<open>The routes that \<open>Start\<close> registers, and the guarded handler of each.\<close>

datatype route =
    RHealthz
  | RDeploy
  | RGet string
  | RDelete string
  | RGateway gwRequest
  | RFunction string string

definition serve :: "'w server \<Rightarrow> string \<Rightarrow> string \<Rightarrow> route \<Rightarrow> ('w, body reply) gprog" where
  "serve S authorization bdy r = (case r of
     RHealthz \<Rightarrow> ret handleHealthz
   | RDeploy \<Rightarrow> requireDeployToken S authorization (handleDeploy S bdy)
   | RGet name \<Rightarrow> requireDeployToken S authorization (handleGet S name)
   | RDelete name \<Rightarrow> requireDeployToken S authorization (handleDelete S name)
   | RGateway q \<Rightarrow> requireGatewayToken S q (Handler (sv_lib S) (sv_html S) (sv_proxy S) (sv_kube S) q)
   | RFunction name key \<Rightarrow> requireDeployToken S authorization (handleRunFunction S name key bdy))"

end
