(* ===== verification/ApiServer_Props.thy ===== *)
theory ApiServer_Props
  imports ApiServer
begin

text \<open>
  Properties of the HTTP API: who is let in, by which of the two credentials, how the exchange of
  a one-time token leads to a session that the next request is served under, and what a request
  that was let in may write or execute in the cluster.
\<close>

section \<open>Lemmas\<close>

lemma proper_api [simp]:
  "proper (EnsureNamespace K n)" "proper (exchangeToken S r t)"
  "proper (handleGet S n)" "proper (deployImage S req)"
  by (simp_all add: EnsureNamespace_def exchangeToken_def handleGet_def deployImage_def kube_ops)

lemma proper_provisioning_api [simp]: "proper (deployTemplate S req)" "proper (handleDelete S n)"
  by (simp_all add: deployTemplate_def Create_def handleDelete_def Destroy_def kube_ops)

lemma proper_runInteraction [simp]: "proper (runInteraction S i)"
  by (induction i) (simp_all add: now_def)

lemma proper_runOn [simp]: "proper (runOn S n fn ps)"
  by (simp add: runOn_def)

lemma proper_handlers [simp]: "proper (handleRunFunction S n k b)" "proper (handleDeploy S b)"
  by (simp_all add: handleRunFunction_def handleDeploy_def kube_ops)

lemma proper_guards [simp]:
  "proper nxt \<Longrightarrow> proper (requireDeployToken S a nxt)" "proper nxt \<Longrightarrow> proper (requireGatewayToken S r nxt)"
  by (simp_all add: requireDeployToken_def requireGatewayToken_def Let_def)

lemma proper_serve [simp]: "proper (serve S a b r)"
  by (simp add: serve_def split: route.split)

section \<open>The deploy token\<close>

text \<open>The routes of the management API with their handlers, and the only header they accept.\<close>

fun management :: "route \<Rightarrow> bool" where
  "management RHealthz = False"
| "management (RGateway q) = False"
| "management r = True"

fun management_handler :: "'w server \<Rightarrow> string \<Rightarrow> route \<Rightarrow> ('w, body reply) gprog" where
  "management_handler S bdy RDeploy = handleDeploy S bdy"
| "management_handler S bdy (RGet name) = handleGet S name"
| "management_handler S bdy (RDelete name) = handleDelete S name"
| "management_handler S bdy (RFunction name key) = handleRunFunction S name key bdy"
| "management_handler S bdy r = ret handleHealthz"

definition valid_bearer :: "'w server \<Rightarrow> string \<Rightarrow> bool" where
  "valid_bearer S authorization \<longleftrightarrow> sv_token S \<noteq> [] \<and> authorization = ''Bearer '' @ sv_token S"

definition unauthorized :: "body reply \<Rightarrow> bool" where
  "unauthorized rep \<longleftrightarrow> (\<exists>code m. rep = JsonError 401 code m \<and> (code = codeAuthMissingToken \<or> code = codeAuthInvalidToken))"

lemma serve_management:
  "management r \<Longrightarrow> serve S a b r = requireDeployToken S a (management_handler S b r)"
  by (cases r) (simp_all add: serve_def)

lemma requireDeployToken_valid: "valid_bearer S a \<Longrightarrow> requireDeployToken S a nxt = nxt"
  by (simp only: valid_bearer_def requireDeployToken_def cut_prefix_append option.case) simp

lemma requireDeployToken_invalid:
  "\<not> valid_bearer S a \<Longrightarrow> \<exists>rep. unauthorized rep \<and> requireDeployToken S a nxt = ret rep"
  by (auto simp: requireDeployToken_def valid_bearer_def unauthorized_def writeError_def cut_prefix_Some_iff
      split: option.split)

text \<open>The management API belongs to the holder of the current deploy token. A request to deploy,
  inspect, delete or run a function whose Authorization header is anything but \<open>Bearer\<close> followed by
  that token, or that arrives while no token is known yet, is answered 401 without a single call to
  the cluster; with the right header exactly the handler of its route runs.\<close>

lemma management_needs_deploy_token:
  assumes "management r" "runs (serve S auth bdy r) w rep cs w'"
  shows "if valid_bearer S auth then runs (management_handler S bdy r) w rep cs w'
    else unauthorized rep \<and> cs = [] \<and> w' = w"
proof (cases "valid_bearer S auth")
  case True
  with assms show ?thesis by (simp add: serve_management requireDeployToken_valid)
next
  case False
  then obtain e where "unauthorized e" "requireDeployToken S auth (management_handler S bdy r) = ret e"
    using requireDeployToken_invalid by blast
  with assms False show ?thesis by (simp add: serve_management runs_return)
qed

section \<open>The gateway\<close>

lemma serve_gateway:
  "serve S a b (RGateway q) = requireGatewayToken S q (Handler (sv_lib S) (sv_html S) (sv_proxy S) (sv_kube S) q)"
  by (simp add: serve_def)

lemma unauthenticated_not [simp]:
  "RenderUnauthenticatedPage html n \<noteq> Forward tg" "RenderUnauthenticatedPage html n \<noteq> Redirect st p qs c"
  by (simp_all add: RenderUnauthenticatedPage_def renderPage_def split: sum.split)

lemma exchangeToken_cookie: "exchangeToken S (q\<lparr>gq_cookie := c\<rparr>) t = exchangeToken S q t"
  by (simp add: exchangeToken_def cong: sum.case_cong)

lemma exchangeToken_runs:
  assumes "runs (exchangeToken S r token) w rep cs w'"
  obtains (rejected) e where "cs = [Other (GConvexVerify token (sv_namespace S) (gq_name r) (Inl e))]"
      "rep = RenderUnauthenticatedPage (sv_html S) (gq_name r)"
    | (accepted) uid t where "cs = [Other (GConvexVerify token (sv_namespace S) (gq_name r) (Inr uid)), CNow t]"
      "rep = (case Sign (sv_signer S) (sv_gatewaySecret S) (session_payload S (gq_name r) uid t) of
           Inl _ \<Rightarrow> writeError 500 codeInternalError ''internal error''
         | Inr val \<Rightarrow> Redirect 302 (gq_path r) (query_encode (query_del (gq_query r) ''token'')) (session_cookie (gq_name r) val))"
proof -
  from assms obtain v w1 ds where cs: "cs = Other (GConvexVerify token (sv_namespace S) (gq_name r) v) # ds"
    and rest: "runs (case v of
       Inl _ \<Rightarrow> ret (RenderUnauthenticatedPage (sv_html S) (gq_name r))
     | Inr uid \<Rightarrow> do {
         t \<leftarrow> now (sv_kube S);
         ret (case Sign (sv_signer S) (sv_gatewaySecret S) (session_payload S (gq_name r) uid t) of
           Inl _ \<Rightarrow> writeError 500 codeInternalError ''internal error''
         | Inr val \<Rightarrow> Redirect 302 (gq_path r) (query_encode (query_del (gq_query r) ''token'')) (session_cookie (gq_name r) val))
       }) w1 rep ds w'"
    unfolding exchangeToken_def by (rule runs_ext_bindE) (simp_all add: now_def)
  show thesis
  proof (cases v)
    case (Inl e)
    with cs rest show ?thesis by (intro rejected) (simp_all add: runs_return)
  next
    case (Inr uid)
    with cs rest show ?thesis by (auto simp: now_def runs_bind runs_ext runs_return intro: accepted)
  qed
qed

text \<open>C10: A token in the URL is never absorbed by a session that happens to be in the browser. Every
  gateway request that carries one is answered the same whatever cookie comes with it, asks Convex
  exactly once about exactly that token for that workload, and is never forwarded into the cluster;
  unless Convex accepted it, the answer is the unauthenticated page.\<close>

theorem token_never_absorbed:
  assumes "query_get (gq_query q) ''token'' \<noteq> []" "runs (serve S auth bdy (RGateway q)) w rep cs w'"
  shows "(\<exists>v ds. cs = Other (GConvexVerify (query_get (gq_query q) ''token'') (sv_namespace S) (gq_name q) v) # ds \<and>
      (case v of Inl _ \<Rightarrow> ds = [] \<and> rep = RenderUnauthenticatedPage (sv_html S) (gq_name q)
       | Inr _ \<Rightarrow> \<exists>t. ds = [CNow t])) \<and>
    (\<forall>tg. rep \<noteq> Forward tg) \<and> runs (serve S auth bdy (RGateway (q\<lparr>gq_cookie := c\<rparr>))) w rep cs w'"
proof -
  have ex: "runs (exchangeToken S q (query_get (gq_query q) ''token'')) w rep cs w'"
    using assms by (simp add: serve_gateway requireGatewayToken_def Let_def)
  from ex have "runs (serve S auth bdy (RGateway (q\<lparr>gq_cookie := c\<rparr>))) w rep cs w'"
    using assms(1) by (simp add: serve_gateway requireGatewayToken_def Let_def exchangeToken_cookie)
  moreover from ex have "\<exists>v ds. cs = Other (GConvexVerify (query_get (gq_query q) ''token'') (sv_namespace S) (gq_name q) v) # ds \<and>
      (case v of Inl _ \<Rightarrow> ds = [] \<and> rep = RenderUnauthenticatedPage (sv_html S) (gq_name q)
       | Inr _ \<Rightarrow> \<exists>t. ds = [CNow t])"
    by (cases rule: exchangeToken_runs) simp_all
  moreover from ex have "rep \<noteq> Forward tg" for tg
    by (cases rule: exchangeToken_runs) (simp_all add: writeError_def split: sum.split)
  ultimately show ?thesis by (intro conjI allI)
qed

text \<open>C6: Nothing is forwarded into the cluster without a session. A gateway request is forwarded only
  when it has no token and a cookie that verifies under the operator's key for this very workload
  and is not expired by the clock read then; when the Workload is Running and its Service has a
  port of the entrypoint's name. Those three reads are all the calls it makes: Convex is not asked.\<close>

theorem forward_needs_session:
  assumes "runs (serve S auth bdy (RGateway q)) w (Forward tg) cs w'"
  shows "\<exists>val p t wl svc sp. gq_cookie q = Some val \<and>
    checkToken (sv_signer S) (sv_gatewaySecret S) (sv_namespace S) (gq_name q) val = Inr p \<and>
    pl_Name p = gq_name q \<and> \<not> expired t (pl_Exp p) \<and>
    cs = [CNow t, CGetWorkload (px_namespace (sv_proxy S)) (gq_name q) (Inr wl),
      CGetService (px_namespace (sv_proxy S)) (gq_name q) (Inr svc)] \<and>
    phase (status wl) = PhaseRunning \<and> sp \<in> set (s_ports svc) \<and> sp_name sp = gq_entrypoint q \<and>
    tg_Path tg = targetPath (px_namespace (sv_proxy S)) (gq_name q) (sp_port sp) (gq_subpath q) \<and>
    ''token'' \<notin> fst ` set (tg_Query tg)"
proof -
  let ?H = "Handler (sv_lib S) (sv_html S) (sv_proxy S) (sv_kube S) q :: ('a, body reply) gprog"
  let ?V = "Verify (sv_signer S) (sv_kube S) (sv_gatewaySecret S) (sv_namespace S) (gq_name q)"
  have tok: "query_get (gq_query q) ''token'' = []"
  proof (rule ccontr)
    assume "query_get (gq_query q) ''token'' \<noteq> []"
    with assms have "runs (exchangeToken S q (query_get (gq_query q) ''token'')) w (Forward tg) cs w'"
      by (simp add: serve_gateway requireGatewayToken_def Let_def)
    then show False by (cases rule: exchangeToken_runs) (auto simp: writeError_def dest: sym split: sum.splits)
  qed
  with assms obtain val where c: "gq_cookie q = Some val" and
    run: "runs (do { v \<leftarrow> ?V val; case v of Inr _ \<Rightarrow> ?H | Inl _ \<Rightarrow> ret (RenderUnauthenticatedPage (sv_html S) (gq_name q)) })
      w (Forward tg) cs w'"
    by (cases "gq_cookie q") (auto simp: serve_gateway requireGatewayToken_def runs_return dest: sym)
  from run obtain v cs1 w1 cs2 where v: "runs (?V val) w v cs1 w1" and cs: "cs = cs1 @ cs2"
    and rest: "runs (case v of Inr _ \<Rightarrow> ?H | Inl _ \<Rightarrow> ret (RenderUnauthenticatedPage (sv_html S) (gq_name q))) w1 (Forward tg) cs2 w'"
    by (rule runs_bindE) simp_all
  from rest obtain p where p: "v = Inr p" and H: "runs ?H w1 (Forward tg) cs2 w'"
    by (cases v) (auto simp: runs_return dest: sym)
  from v p obtain t where t: "checkToken (sv_signer S) (sv_gatewaySecret S) (sv_namespace S) (gq_name q) val = Inr p"
    "\<not> expired t (pl_Exp p)" "cs1 = [CNow t]" by (cases rule: Verify_runs) (auto split: if_splits)
  have "pl_Name p = gq_name q" using checkToken_Inr [OF t(1)] by (elim exE conjE)
  moreover from Handler_forwards [OF H] obtain wl svc sp where
    "cs2 = [CGetWorkload (px_namespace (sv_proxy S)) (gq_name q) (Inr wl), CGetService (px_namespace (sv_proxy S)) (gq_name q) (Inr svc)]"
    "phase (status wl) = PhaseRunning" "sp \<in> set (s_ports svc)" "sp_name sp = gq_entrypoint q"
    "tg_Path tg = targetPath (px_namespace (sv_proxy S)) (gq_name q) (sp_port sp) (gq_subpath q)"
    "''token'' \<notin> fst ` set (tg_Query tg)" by (elim exE conjE)
  ultimately show ?thesis using c cs t by (intro exI conjI) simp_all
qed

lemma session_expiry:
  assumes "0 \<le> t" "(t + gatewayCookieTTL) div 10 ^ 9 + unixToInternal + 30 < 2 ^ 63" "t' \<le> t + gatewayCookieTTL"
  shows "\<not> expired t' (pl_Exp (session_payload S name uid t))"
proof -
  let ?e = "(t + gatewayCookieTTL) div 10 ^ 9"
  have "0 \<le> ?e" using assms(1) by (simp add: gatewayCookieTTL_def pos_imp_zdiv_nonneg_iff)
  then have e: "sint (word_of_int ?e :: int64) = ?e"
    using assms(2) by (intro sint_int64) (simp_all add: unixToInternal_def)
  have "t + gatewayCookieTTL < (?e + 1) * 10 ^ 9"
    using div_mult_mod_eq [of "t + gatewayCookieTTL" "10 ^ 9"] pos_mod_bound [of "10 ^ 9" "t + gatewayCookieTTL"]
    by (simp add: algebra_simps)
  with assms(3) have "t' \<le> (?e + 30) * 10 ^ 9" by (simp add: algebra_simps)
  then show ?thesis using assms(2) e by (simp add: session_payload_def expired_exact)
qed

text \<open>C13: The exchange leads to a working session, for that workload only. When a gateway request is
  answered with a redirect, the redirect goes to the same path without the token and sets a cookie;
  a request that follows it with that cookie, up to the thirty minutes of the session later, is
  handed to the proxy without asking Convex, and the same cookie presented for any other workload
  gets the unauthenticated page.\<close>

theorem exchange_then_served:
  assumes "runs (serve S auth bdy (RGateway q)) w (Redirect st path qs ck) cs w1"
    and "cs = [Other (GConvexVerify tok (sv_namespace S) (gq_name q) (Inr uid)), CNow t]"
    and "valid_utf8 (sv_namespace S)" "valid_utf8 (gq_name q)" "valid_utf8 uid"
    and "0 \<le> t" "(t + gatewayCookieTTL) div 10 ^ 9 + unixToInternal + 30 < 2 ^ 63"
    and "gq_query q' = qs" "gq_cookie q' = Some (ck_Value ck)"
    and "k_now (sv_kube S) w2 = (t', w3)" "t' \<le> t + gatewayCookieTTL"
    and "runs (serve S auth' bdy' (RGateway q')) w2 rep ds w4"
  shows "st = 302 \<and> path = gq_path q \<and> ''token'' \<notin> fst ` set qs \<and> ck_Path ck = ''/gw/'' @ gq_name q \<and>
    (if gq_name q' = gq_name q
     then \<exists>es. ds = CNow t' # es \<and> runs (Handler (sv_lib S) (sv_html S) (sv_proxy S) (sv_kube S) q') w3 rep es w4
     else rep = RenderUnauthenticatedPage (sv_html S) (gq_name q') \<and> ds = [])"
proof -
  let ?p = "session_payload S (gq_name q) uid t"
  have tok: "query_get (gq_query q) ''token'' \<noteq> []"
  proof
    assume "query_get (gq_query q) ''token'' = []"
    moreover have "runs (requireGatewayToken S q (Handler (sv_lib S) (sv_html S) (sv_proxy S) (sv_kube S) q))
      w (Redirect st path qs ck) [Other (GConvexVerify tok (sv_namespace S) (gq_name q) (Inr uid)), CNow t] w1"
      using assms(1,2) by (simp add: serve_gateway)
    ultimately show False
      by (auto simp: requireGatewayToken_def runs_return dest!: sym [of "RenderUnauthenticatedPage _ _"]
          elim!: runs_bindE Verify_runs split: option.splits)
  qed
  then have "runs (exchangeToken S q (query_get (gq_query q) ''token'')) w (Redirect st path qs ck) cs w1"
    using assms(1) by (simp add: serve_gateway requireGatewayToken_def Let_def)
  then obtain val where s: "Sign (sv_signer S) (sv_gatewaySecret S) ?p = Inr val" and
    r: "st = 302" "path = gq_path q" "qs = query_encode (query_del (gq_query q) ''token'')" "ck = session_cookie (gq_name q) val"
    by (cases rule: exchangeToken_runs) (use assms(2) in \<open>auto simp: writeError_def dest: sym split: sum.splits\<close>)
  have v: "checkToken (sv_signer S) (sv_gatewaySecret S) (sv_namespace S) (gq_name q') val =
      (if gq_name q' = gq_name q then Inr ?p else Inl (Sentinel ErrScopeMismatch))"
    using assms(3-5) by (subst checkToken_Sign [OF _ s]) (auto simp: session_payload_def utf8_payload_def)
  have "map_of qs ''token'' = None" using r(3) by (simp add: map_of_eq_None_iff)
  then have "query_get (gq_query q') ''token'' = []" using assms(8) by (simp add: query_get_def)
  then have "runs (do { v \<leftarrow> Verify (sv_signer S) (sv_kube S) (sv_gatewaySecret S) (sv_namespace S) (gq_name q') val;
      case v of Inr _ \<Rightarrow> Handler (sv_lib S) (sv_html S) (sv_proxy S) (sv_kube S) q'
      | Inl _ \<Rightarrow> ret (RenderUnauthenticatedPage (sv_html S) (gq_name q')) }) w2 rep ds w4"
    using assms(9,12) r(4) by (simp add: serve_gateway requireGatewayToken_def session_cookie_def)
  then have "if gq_name q' = gq_name q
     then \<exists>es. ds = CNow t' # es \<and> runs (Handler (sv_lib S) (sv_html S) (sv_proxy S) (sv_kube S) q') w3 rep es w4
     else rep = RenderUnauthenticatedPage (sv_html S) (gq_name q') \<and> ds = []"
    using v session_expiry [OF assms(6,7,11), of S "gq_name q" uid] assms(10)
    by (auto simp: Verify_def now_def runs_bind runs_ext runs_return)
  with r show ?thesis by (simp add: session_cookie_def)
qed

section \<open>Deploying\<close>

text \<open>The configuration of a request was read from JSON.\<close>

lemma deploy_config_read:
  assumes "decodeDeploy S b = Some req"
  shows "read_config (floats (sv_lib S)) (dr_Config req)"
proof -
  let ?P = "\<lambda>r. read_config (floats (sv_lib S)) (dr_Config r)"
  have keeps: "?P s'" if "set_int_pointer lo hi (\<lambda>i. dr_Replicas_update (\<lambda>_. g i)) v s = Some s' \<or>
      set_int lo hi (\<lambda>i. dr_ContainerPort_update (\<lambda>_. h i)) v s = Some s' \<or>
      set_list e z dr_Env (\<lambda>x. dr_Env_update (\<lambda>_. x)) v s = Some s'" "?P s" for lo hi g h e z v s s'
    using that by (auto simp: set_int_pointer_def set_int_def set_list_def split: json.splits option.splits if_splits)
  show ?thesis using assms unfolding decodeDeploy_def
    by (rule read_struct_invariant [where P = ?P, rotated])
       (auto simp: deployRequest_fields_def zero_deployRequest_def read_config_def
         dest!: set_string_Some keeps [unfolded read_config_def, OF disjI1]
           keeps [unfolded read_config_def, OF disjI2, OF disjI1] keeps [unfolded read_config_def, OF disjI2, OF disjI2]
         elim!: set_map_read [unfolded read_config_def])
qed

lemma Create_outcome:
  assumes "runs (Create L K ns wid tn uid sub cfg) w r cs w'"
  obtains (refused) e where "r = Inl e" "errors_is e ErrUnknownTemplate \<or> errors_is e ErrInvalidConfig" "cs = []" "w' = w"
    | (written) raw res where "accepted L tn cfg raw" "cs = [CCreateWorkload (created_object ns wid tn uid sub raw) res]"
      "r = (case res of Inl e \<Rightarrow> Inl (Wrap ''creating workload: '' e []) | Inr x \<Rightarrow> Inr x)"
proof -
  have "(\<exists>e. r = Inl e \<and> (errors_is e ErrUnknownTemplate \<or> errors_is e ErrInvalidConfig) \<and> cs = [] \<and> w' = w) \<or>
    (\<exists>raw res. accepted L tn cfg raw \<and> cs = [CCreateWorkload (created_object ns wid tn uid sub raw) res] \<and>
      r = (case res of Inl e \<Rightarrow> Inl (Wrap ''creating workload: '' e []) | Inr x \<Rightarrow> Inr x))"
    using runs_wp [OF assms, of "\<lambda>r s. (\<exists>e. r = Inl e \<and> (errors_is e ErrUnknownTemplate \<or> errors_is e ErrInvalidConfig) \<and>
        calls s = [] \<and> world s = w) \<or> (\<exists>raw res. accepted L tn cfg raw \<and>
        calls s = [CCreateWorkload (created_object ns wid tn uid sub raw) res] \<and>
        r = (case res of Inl e \<Rightarrow> Inl (Wrap ''creating workload: '' e []) | Inr x \<Rightarrow> Inr x))"]
    unfolding Create_wp by auto
  then show thesis using refused written by blast
qed

definition answered_with :: "body reply \<Rightarrow> go_error + workload \<Rightarrow> bool" where
  "answered_with rep res \<longleftrightarrow> (case res of
     Inl _ \<Rightarrow> \<exists>st code m. rep = JsonError st code m \<and> st \<ge> 400
   | Inr x \<Rightarrow> rep = Json 202 (workload_response x))"

definition refused :: "body reply \<Rightarrow> bool" where
  "refused rep \<longleftrightarrow> (\<exists>code m. rep = JsonError 400 code m)"

lemma deployTemplate_runs:
  assumes "runs (deployTemplate S req) w rep cs w'"
  shows "refused rep \<and> cs = [] \<and> w' = w \<or>
    (\<exists>raw res. accepted (sv_lib S) (dr_TemplateName req) (dr_Config req) raw \<and> answered_with rep res \<and>
      cs = [CCreateWorkload (created_object (sv_creator S) [] (dr_TemplateName req) (dr_UserID req) (dr_Subdomain req) raw) res])"
proof -
  from assms obtain r where run: "runs (Create (sv_lib S) (sv_kube S) (sv_creator S) [] (dr_TemplateName req)
      (dr_UserID req) (dr_Subdomain req) (dr_Config req)) w r cs w'"
    and rep: "rep = (case r of Inl e \<Rightarrow> createError e | Inr w \<Rightarrow> Json 202 (workload_response w))"
    by (auto simp: deployTemplate_def runs_bind runs_return)
  from run show ?thesis
  proof (cases rule: Create_outcome)
    case (refused e)
    with rep show ?thesis by (auto simp: refused_def createError_def writeError_def)
  next
    case (written raw res)
    with rep have "answered_with rep res"
      by (auto simp: answered_with_def createError_def writeError_def split: sum.split)
    with written show ?thesis by (intro disjI2 exI conjI)
  qed
qed

lemma deploy_template_created:
  assumes "decodeDeploy S bdy = Some req" "dr_TemplateName req \<noteq> []" "runs (handleDeploy S bdy) w rep cs w'" "cs \<noteq> []"
  shows "\<exists>raw res. accepted (sv_lib S) (dr_TemplateName req) (dr_Config req) raw \<and>
    cs = [CCreateWorkload (created_object (sv_creator S) [] (dr_TemplateName req) (dr_UserID req) (dr_Subdomain req) raw) res]"
proof -
  have "runs (deployTemplate S req) w rep cs w'"
    using assms by (auto simp: handleDeploy_def runs_return split: option.splits)
  from deployTemplate_runs [OF this] assms(4) show ?thesis by auto
qed

lemma deployImage_runs:
  assumes "runs (deployImage S req) w rep cs w'"
  shows "refused rep \<and> cs = [] \<and> w' = w \<or>
    (\<exists>raw res. marshalConfig (sv_lib S) (dr_Config req) = Inr raw \<and> answered_with rep res \<and>
      cs = [CApplyWorkload (sv_namespace S) (dr_Name req) (mutateWorkload req raw) res])"
proof (cases "marshalConfig (sv_lib S) (dr_Config req)")
  case (Inl e)
  with assms show ?thesis by (auto simp: deployImage_def runs_return refused_def writeError_def)
next
  case (Inr raw)
  with assms obtain res where cs: "cs = [CApplyWorkload (sv_namespace S) (dr_Name req) (mutateWorkload req raw) res]"
    and rep: "rep = (case res of
         Inl e \<Rightarrow> writeError 500 codeInternalError (''failed to apply workload: '' @ error_text e)
       | Inr w \<Rightarrow> Json 202 (workload_response w))"
    by (auto simp: deployImage_def applyWorkload_def runs_bind runs_ext runs_return)
  then have "answered_with rep res" by (simp add: answered_with_def writeError_def split: sum.split)
  with cs Inr show ?thesis by blast
qed

text \<open>Applying a raw-image deploy leaves the template of the object alone, and the rendering of an object
  with a template does not depend on what was applied.\<close>

lemma image_deploy_keeps_template:
  assumes "mutateWorkload req raw w = Inr w'" "templateName (spec w) \<noteq> []" "raw = config (spec w)"
  shows "templateName (spec w') = templateName (spec w) \<and> render L w' = render L w"
  using assms by (auto simp: mutateWorkload_def render_def cong: option.case_cong sum.case_cong)

text \<open>C14: A deploy request makes at most one write, and none when it is refused with 400. A template
  deploy names its user and creates a new object, from the request's fields, whose configuration
  the template accepted; a raw-image deploy names an image and a valid DNS label and applies its
  fields to the object of that name. The answer is 202 with the stored object exactly when that
  write succeeded.\<close>

theorem deploy_effects:
  assumes "runs (handleDeploy S bdy) w rep cs w'"
  shows "refused rep \<and> cs = [] \<and> w' = w \<or>
    (\<exists>req raw res. decodeDeploy S bdy = Some req \<and> answered_with rep res \<and>
      (if dr_TemplateName req \<noteq> [] then dr_UserID req \<noteq> [] \<and>
         accepted (sv_lib S) (dr_TemplateName req) (dr_Config req) raw \<and>
         cs = [CCreateWorkload (created_object (sv_creator S) [] (dr_TemplateName req) (dr_UserID req) (dr_Subdomain req) raw) res]
       else dr_Image req \<noteq> [] \<and> dr_Name req \<noteq> [] \<and> isDNS1123Label (sv_lib S) (dr_Name req) = [] \<and>
         marshalConfig (sv_lib S) (dr_Config req) = Inr raw \<and>
         cs = [CApplyWorkload (sv_namespace S) (dr_Name req) (mutateWorkload req raw) res]))"
proof (cases "\<exists>req. decodeDeploy S bdy = Some req \<and> deployRejected S req = None")
  case True
  then obtain req where d: "decodeDeploy S bdy = Some req" "deployRejected S req = None" by blast
  then show ?thesis
    using assms deployTemplate_runs [of S req w rep cs w'] deployImage_runs [of S req w rep cs w']
    by (auto simp: handleDeploy_def deployRejected_def split: if_splits)
next
  case False
  with assms show ?thesis
    by (auto simp: handleDeploy_def runs_return refused_def writeError_def deployRejected_def
        split: sum.splits option.splits if_splits)
qed

section \<open>Functions\<close>

lemma backup_interaction:
  assumes "runs (runInteraction S (backup_run L path c pod ps)) w res cs w'"
  shows "cs = [] \<or> (\<exists>url r ts. url \<noteq> [] \<and> (ts = [] \<or> (\<exists>t. ts = [CNow t])) \<and>
    cs = Other (GExec (pr_namespace pod) (pr_podName pod) c [''/bin/sh'', ''-c'', backup_script, ''sh'', path, url] r) # ts)"
  using assms
  by (auto simp: backup_run_def Let_def runs_bind runs_ext runs_return now_def split: if_splits option.splits)

lemma catalog_operation:
  assumes "Get L i = Some t" "GetOperation t k = Some x"
  obtains path where "op_run x = backup_run L path (t_id t)"
  using assms by (cases rule: Get_cases)
    (auto simp: template_defs GetOperation_def backupStateFunction_def split: if_splits)

text \<open>C15: A function runs only inside a running pod of the workload it was asked for. When a request to
  run a function executes a command, it does so once, after reading the Workload and listing the
  pods labelled with its name in the operator's namespace; the pod is one of those listed and
  Running, the container is the one of the Workload's own template, and the command is the fixed
  backup script with an upload URL.\<close>

theorem function_runs_in_running_pod:
  assumes "runs (handleRunFunction S name key bdy) w rep cs w'" "Other (GExec ns pod c cmd r) \<in> set cs"
  shows "\<exists>wl pods p tmpl path url ts. ns = sv_namespace S \<and>
    cs = CGetWorkload ns name (Inr wl) # CListPods ns [workloadNameLabel \<mapsto> name] (Inr pods) # Other (GExec ns pod c cmd r) # ts \<and>
    p \<in> set pods \<and> p_name p = pod \<and> p_phase p = PodRunning \<and>
    Get (sv_lib S) (templateName (spec wl)) = Some tmpl \<and> c = t_id tmpl \<and>
    cmd = [''/bin/sh'', ''-c'', backup_script, ''sh'', path, url] \<and> url \<noteq> []"
proof -
  let ?ns = "sv_namespace S"
  from assms obtain ps where "decodeRun S bdy = Some ps"
    by (cases "decodeRun S bdy") (auto simp: handleRunFunction_def runs_return)
  with assms(1) obtain g w1 ds where "k_getWorkload (sv_kube S) ?ns name w = (g, w1)"
    and cs: "cs = CGetWorkload ?ns name g # ds" and rest: "runs (case g of
         Inl e \<Rightarrow>
           ret (if IsNotFound e then writeError 404 codeWorkloadNotFound ''workload not found''
                else writeError 500 codeInternalError (''failed to get workload: '' @ error_text e))
       | Inr w \<Rightarrow> (case selectOperation S w key ps of
           Inl rep \<Rightarrow> ret rep
         | Inr (fn, resolved) \<Rightarrow> runOn S name fn resolved)) w1 rep ds w'"
    unfolding handleRunFunction_def getWorkload_def by (auto elim!: runs_ext_bindE)
  from rest cs assms(2) obtain wl fn rs where g: "g = Inr wl" and sel: "selectOperation S wl key ps = Inr (fn, rs)"
    and run: "runs (runOn S name fn rs) w1 rep ds w'"
    by (auto simp: runs_return split: sum.splits)
  from sel obtain tmpl where t: "Get (sv_lib S) (templateName (spec wl)) = Some tmpl" "GetOperation tmpl key = Some fn"
    by (auto simp: selectOperation_def split: option.splits sum.splits)
  from catalog_operation [OF t] obtain path where op: "op_run fn = backup_run (sv_lib S) path (t_id tmpl)" by metis
  from run obtain q cs1 w2 cs2 where find: "runs (FindPod (sv_kube S) ?ns name) w1 q cs1 w2" and ds: "ds = cs1 @ cs2"
    and rest2: "runs (case q of
       Inl e \<Rightarrow> ret (writeError 409 codeWorkloadNoRunningPod (''workload has no running pod: '' @ error_text e))
     | Inr podName \<Rightarrow> do {
         res \<leftarrow> runInteraction S (op_run fn \<lparr>pr_namespace = ?ns, pr_podName = podName\<rparr> rs);
         ret (case res of
           Inl e \<Rightarrow> writeError 500 codeCatalogFunctionFailed (''function failed: '' @ error_text e)
         | Inr out \<Rightarrow> Json 200 (RunBody \<lparr>rf_AdditionalInfo = or_additionalInfo out, rf_File = or_file out\<rparr>))
       }) w2 rep cs2 w'"
    unfolding runOn_def by (rule runs_bindE) simp_all
  from FindPod_runs [OF find] obtain pr where cs1: "cs1 = [CListPods ?ns [workloadNameLabel \<mapsto> name] pr]"
    and pods: "\<forall>n. q = Inr n \<longrightarrow> (\<exists>pods p. pr = Inr pods \<and> p \<in> set pods \<and> p_name p = n \<and> p_phase p = PodRunning)" by blast
  from assms(2) cs ds cs1 have mem: "Other (GExec ns pod c cmd r) \<in> set cs2" by auto
  with rest2 obtain n res where q: "q = Inr n"
    and int: "runs (runInteraction S (backup_run (sv_lib S) path (t_id tmpl) \<lparr>pr_namespace = ?ns, pr_podName = n\<rparr> rs)) w2 res cs2 w'"
    by (cases q) (auto simp: runs_bind runs_return op)
  from backup_interaction [OF int] mem obtain url r' ts where
    "cs2 = Other (GExec ?ns n (t_id tmpl) [''/bin/sh'', ''-c'', backup_script, ''sh'', path, url] r') # ts"
    "url \<noteq> []" "ts = [] \<or> (\<exists>t. ts = [CNow t])" by auto
  with mem pods q g cs ds cs1 t(1) show ?thesis by auto
qed

section \<open>Witnesses\<close>

definition demo_session :: payload where
  "demo_session = \<lparr>pl_Namespace = ''ns'', pl_Name = ''w1'', pl_UserID = ''u1'', pl_Exp = 1800\<rparr>"

definition demo_pod :: "string \<Rightarrow> string \<Rightarrow> pod" where
  "demo_pod n ph = \<lparr>p_name = n, p_namespace = ''ns'', p_labels = Map.empty, p_nodeName = ''n1'', p_phase = ph,
     p_conditions = []\<rparr>"

definition api_kube :: "nat kube" where
  "api_kube = gw_kube\<lparr>
     k_getWorkload := (\<lambda>ns n. answer (Inr (empty_workload\<lparr>w_name := n, w_namespace := ns,
       spec := empty_spec\<lparr>templateName := ''chrome''\<rparr>, status := empty_status\<lparr>phase := PhaseRunning\<rparr>\<rparr>))),
     k_listPods := (\<lambda>ns ls. answer (Inr [demo_pod ''p0'' ''Pending'', demo_pod ''p1'' ''Running'']))\<rparr>"

definition demo_server :: "nat server" where
  "demo_server = \<lparr>sv_lib = demo_lib, sv_kube = api_kube, sv_token = ''t'', sv_gatewaySecret = ''key'',
     sv_signer = demo_signer, sv_html = (\<lambda>d. Inr []),
     sv_verifier = (\<lambda>token ns n. answer (if token = ''ok'' then Inr ''u1'' else Inl (ErrText ''no''))),
     sv_exec = (\<lambda>ns pod c cmd. answer ([], [], None)), sv_proxy = demo_proxy, sv_creator = ''ns'',
     sv_destroyer = ''ns'', sv_namespace = ''ns'',
     sv_envSource = (\<lambda>v e. Some v)\<rparr>"

lemma demo_server_fields:
  "sv_lib demo_server = demo_lib" "sv_kube demo_server = api_kube" "sv_namespace demo_server = ''ns''"
  "sv_creator demo_server = ''ns''"
  by (simp_all add: demo_server_def)

definition deploy_body :: string where
  "deploy_body = encode (JObj [(''name'', JStr ''web''), (''image'', JStr ''nginx''), (''containerPort'', JNum (show_int 80))])"

lemma decode_deploy_body: "decodeDeploy demo_server deploy_body =
    Some (zero_deployRequest\<lparr>dr_Name := ''web'', dr_Image := ''nginx'', dr_ContainerPort := 80\<rparr>)"
proof -
  have "Decode deploy_body = Some (JObj [(''name'', JStr ''web''), (''image'', JStr ''nginx''), (''containerPort'', JNum (show_int 80))])"
    unfolding deploy_body_def by (subst read_json_encode(2) [of _ "[]", simplified]) (simp_all add: maxNestingDepth_def)
  then show ?thesis
    by (simp add: decodeDeploy_def read_struct_def deployRequest_fields_def json_struct_defs int32_max_def zero_deployRequest_def)
qed

definition run_body :: string where
  "run_body = encode (JObj [(''params'', JObj [(paramKeyUploadURL, JStr ''u'')])])"

lemma decode_run_body: "decodeRun demo_server run_body = Some (Some [paramKeyUploadURL \<mapsto> VStr ''u''])"
proof -
  have "Decode run_body = Some (JObj [(''params'', JObj [(paramKeyUploadURL, JStr ''u'')])])"
    unfolding run_body_def by (subst read_json_encode(2) [of _ "[]", simplified])
      (simp_all add: maxNestingDepth_def paramKeyUploadURL_def)
  then show ?thesis
    by (simp add: decodeRun_def read_struct_def runFunctionRequest_fields_def json_struct_defs to_map_def from_members_def)
qed

definition token_request :: "string \<Rightarrow> gwRequest" where
  "token_request t = demo_request\<lparr>gq_query := [(''token'', t)], gq_cookie := Some ''x''\<rparr>"

lemmas demo_server_simps = demo_server_def api_kube_def gw_kube_def demo_proxy_def demo_request_def token_request_def
  demo_kube_simps

theorem token_never_absorbed_witness:
  "\<exists>rep cs w'. runs (serve demo_server [] [] (RGateway (token_request ''bad''))) 0 rep cs w' \<and>
     runs (serve demo_server [] [] (RGateway (token_request ''bad''\<lparr>gq_cookie := None\<rparr>))) 0 rep cs w'"
proof -
  obtain rep cs w' where run: "runs (serve demo_server [] [] (RGateway (token_request ''bad''))) 0 rep cs w'"
    using runs_total [of "(serve demo_server [] [] (RGateway (token_request ''bad'')))" 0] by (elim exE)
  have "query_get (gq_query (token_request ''bad'')) ''token'' \<noteq> []" by (simp add: token_request_def query_get_def)
  from token_never_absorbed [OF this run, of None] run show ?thesis by blast
qed

definition session_token :: string where
  "session_token = EncodeToString (encode (payload_json demo_session)) @ ''.'' @ EncodeToString ''key''"

definition session_request :: gwRequest where
  "session_request = demo_request\<lparr>gq_query := [], gq_cookie := Some session_token\<rparr>"

lemma session_sign:
  "Sign (sv_signer demo_server) (sv_gatewaySecret demo_server) demo_session = Inr session_token"
  by (simp add: Sign_def Marshal_def demo_server_def demo_signer_def Let_def session_token_def)

lemma session_check:
  "checkToken (sv_signer demo_server) ''key'' ''ns'' ''w1'' session_token = Inr demo_session"
proof -
  have "utf8_payload demo_session" by (simp add: utf8_payload_def demo_session_def)
  from checkToken_Sign [OF this session_sign, of "''ns''" "''w1''"] show ?thesis
    by (simp add: demo_server_def demo_session_def)
qed

lemma session_alive: "0 \<le> t \<Longrightarrow> t < 1000 \<Longrightarrow> \<not> expired t (pl_Exp demo_session)"
  by (subst expired_exact) (simp_all add: demo_session_def unixToInternal_def)

theorem forward_needs_session_witness:
  "\<exists>tg cs w' val. runs (serve demo_server [] [] (RGateway session_request)) 5 (Forward tg) cs w' \<and>
     gq_cookie session_request = Some val \<and> ''token'' \<notin> fst ` set (tg_Query tg)"
proof -
  have "\<exists>tg cs w'. runs (serve demo_server [] [] (RGateway session_request)) 5 (Forward tg) cs w'"
    using session_check session_alive [of 5]
    by (simp add: serve_gateway requireGatewayToken_def Verify_def Handler_def serveService_def runs_rules
        demo_server_simps session_request_def query_get_def forward_def phase_defs)
  then obtain tg cs w' where run: "runs (serve demo_server [] [] (RGateway session_request)) 5 (Forward tg) cs w'" by (elim exE)
  from forward_needs_session [OF run] run show ?thesis by blast
qed

theorem deploy_effects_witness:
  "\<exists>rep cs w' req res. runs (handleDeploy demo_server deploy_body) 0 rep cs w' \<and> answered_with rep res \<and>
     cs = [CApplyWorkload ''ns'' ''web'' (mutateWorkload req None) res]"
proof -
  obtain rep cs w' where run: "runs (handleDeploy demo_server deploy_body) 0 rep cs w'"
    using runs_total [of "(handleDeploy demo_server deploy_body)" 0] by (elim exE)
  have "handleDeploy demo_server deploy_body =
      deployImage demo_server (zero_deployRequest\<lparr>dr_Name := ''web'', dr_Image := ''nginx'', dr_ContainerPort := 80\<rparr>)"
    by (simp add: handleDeploy_def decode_deploy_body deployRejected_def zero_deployRequest_def demo_server_fields)
  with run have "cs \<noteq> []"
    by (auto simp: deployImage_def marshalConfig_def zero_deployRequest_def runs_rules demo_server_simps)
  with deploy_effects [OF run] run show ?thesis
    by (auto simp: decode_deploy_body zero_deployRequest_def demo_server_fields marshalConfig_def)
qed

theorem exchange_then_served_witness:
  "\<exists>st path qs ck cs w1 rep ds w4. runs (serve demo_server [] [] (RGateway (token_request ''ok''))) 5 (Redirect st path qs ck) cs w1 \<and>
     runs (serve demo_server [] [] (RGateway (session_request\<lparr>gq_name := ''w2''\<rparr>))) 7 rep ds w4 \<and> st = 302 \<and> ds = []"
proof -
  let ?p = "session_payload demo_server ''w1'' ''u1'' 5"
  let ?q' = "session_request\<lparr>gq_name := ''w2''\<rparr>"
  have p: "?p = demo_session" by (simp add: session_payload_def demo_session_def demo_server_def gatewayCookieTTL_def)
  have n: "gq_name (token_request ''ok'') = ''w1''" by (simp add: token_request_def demo_request_def)
  have "serve demo_server [] [] (RGateway (token_request ''ok'')) = exchangeToken demo_server (token_request ''ok'') ''ok''"
    by (simp add: serve_gateway requireGatewayToken_def Let_def token_request_def query_get_def)
  moreover have "runs (exchangeToken demo_server (token_request ''ok'') ''ok'') 5
      (Redirect 302 ''/gw/w1/http/x'' [] (session_cookie ''w1'' session_token))
      [Other (GConvexVerify ''ok'' ''ns'' ''w1'' (Inr ''u1'')), CNow 5] 6"
    unfolding exchangeToken_def n
    by (simp add: runs_rules p [unfolded n] session_sign)
       (simp add: demo_server_simps query_del_def query_encode_def p [unfolded demo_server_simps] session_sign [unfolded demo_server_simps])
  ultimately have run: "runs (serve demo_server [] [] (RGateway (token_request ''ok''))) 5
      (Redirect 302 ''/gw/w1/http/x'' [] (session_cookie ''w1'' session_token))
      [Other (GConvexVerify ''ok'' ''ns'' ''w1'' (Inr ''u1'')), CNow 5] 6" by simp
  obtain rep ds w4 where run2: "runs (serve demo_server [] [] (RGateway ?q')) 7 rep ds w4"
    using runs_total [of "(serve demo_server [] [] (RGateway ?q'))" 7] by (elim exE)
  have h: "valid_utf8 (sv_namespace demo_server)" "valid_utf8 ''w1''" "valid_utf8 ''u1''"
    "(0::int) \<le> 5" "(5 + gatewayCookieTTL) div 10 ^ 9 + unixToInternal + 30 < 2 ^ 63" "gq_query ?q' = []"
    "gq_cookie ?q' = Some (ck_Value (session_cookie ''w1'' session_token))"
    "k_now (sv_kube demo_server) 7 = (7, 8)" "(7::int) \<le> 5 + gatewayCookieTTL"
    by (simp_all add: demo_server_simps gatewayCookieTTL_def unixToInternal_def
        session_request_def session_cookie_def)
  have "gq_name ?q' \<noteq> ''w1''" by simp
  with exchange_then_served [OF run, unfolded n, OF _ h(1-9) run2] have "ds = []" by (simp add: demo_server_def)
  with run run2 show ?thesis by (intro exI conjI) simp_all
qed

theorem function_runs_in_running_pod_witness:
  "\<exists>rep cs w' url. runs (handleRunFunction demo_server ''w1'' ''backup_state'' run_body) 0 rep cs w' \<and> url \<noteq> [] \<and>
     Other (GExec ''ns'' ''p1'' ''chrome'' [''/bin/sh'', ''-c'', backup_script, ''sh'', ''.config/google-chrome'', url] ([], [], None)) \<in> set cs"
proof -
  let ?x = "backupStateFunction demo_lib ''.config/google-chrome'' templateIDChrome profileSourceKeyChrome"
  let ?m = "[paramKeyUploadURL \<mapsto> VStr ''u'']"
  have x: "GetOperation (Chrome demo_lib) ''backup_state'' = Some ?x"
    by (simp add: GetOperation_def Chrome_def backupStateFunction_def)
  have G: "Get demo_lib ''chrome'' = Some (Chrome demo_lib)"
    by (simp add: Get_def templates_def template_defs template_id_defs)
  have ps: "ResolveParams demo_lib (op_parameters ?x) ?m = Inr ?m"
    by (simp add: ResolveParams_def backupStateFunction_def param_def no_validation_def
      is_visible_def present_def vget_def checkValidation_def param_key_defs dataSource_of_def)
  let ?e = "Other (GExec ''ns'' ''p1'' ''chrome'' [''/bin/sh'', ''-c'', backup_script, ''sh'', ''.config/google-chrome'', ''u''] ([], [], None))"
  have "\<exists>res ds v. runs (runInteraction demo_server (op_run ?x \<lparr>pr_namespace = ''ns'', pr_podName = ''p1''\<rparr> ?m)) 0 res (?e # ds) v"
    by (simp add: backupStateFunction_def backup_run_def Let_def paramString_def templateIDChrome_def param_key_defs runs_rules demo_server_simps)
  then obtain res ds v where int: "runs (runInteraction demo_server (op_run ?x \<lparr>pr_namespace = ''ns'', pr_podName = ''p1''\<rparr> ?m)) 0 res (?e # ds) v"
    by (elim exE)
  have pod: "\<exists>cs :: gcall call list. runs (FindPod (sv_kube demo_server) ''ns'' ''w1'') 0 (Inr ''p1'') cs 0"
    by (simp add: FindPod_def demo_server_simps runs_rules PodRunning_def demo_pod_def)
  have "\<exists>rep cs. runs (runOn demo_server ''w1'' ?x ?m) 0 rep (cs @ ?e # ds) v"
  proof -
    from pod obtain cs :: "gcall call list" where "runs (FindPod (sv_kube demo_server) ''ns'' ''w1'') 0 (Inr ''p1'') cs 0" by (elim exE)
    then have "\<exists>rep. runs (runOn demo_server ''w1'' ?x ?m) 0 rep (cs @ ?e # ds) v"
      unfolding runOn_def using int
      by (intro exI, intro runs_bindI [where a = "Inr ''p1''"]) (auto simp: demo_server_def runs_bind runs_return)
    then show ?thesis by blast
  qed
  then obtain rep cs where on: "runs (runOn demo_server ''w1'' ?x ?m) 0 rep (cs @ ?e # ds) v" by (elim exE)
  have "\<exists>rep cs w'. runs (handleRunFunction demo_server ''w1'' ''backup_state'' run_body) 0 rep cs w' \<and> ?e \<in> set cs"
  proof -
    define wl where "wl = empty_workload\<lparr>w_name := ''w1'', w_namespace := ''ns'',
       spec := empty_spec\<lparr>templateName := ''chrome''\<rparr>, status := empty_status\<lparr>phase := PhaseRunning\<rparr>\<rparr>"
    have "selectOperation demo_server wl ''backup_state'' (Some ?m) = Inr (?x, ?m)"
      using x G ps by (simp add: selectOperation_def demo_server_def wl_def empty_spec_def cfg_map_def)
    moreover have "k_getWorkload (sv_kube demo_server) ''ns'' ''w1'' 0 = (Inr wl, 0)"
      by (simp add: demo_server_simps wl_def)
    ultimately have "runs (handleRunFunction demo_server ''w1'' ''backup_state'' run_body) 0 rep
        (CGetWorkload ''ns'' ''w1'' (Inr wl) # cs @ ?e # ds) v"
      using on by (auto simp: handleRunFunction_def decode_run_body demo_server_fields getWorkload_def intro!: runs_ext_bindI)
    then show ?thesis by (intro exI conjI) (assumption, simp)
  qed
  then obtain rep cs w' where run: "runs (handleRunFunction demo_server ''w1'' ''backup_state'' run_body) 0 rep cs w'"
    and e: "?e \<in> set cs" by (elim exE conjE)
  from function_runs_in_running_pod [OF run e] have "''u'' \<noteq> []" by simp
  with run e show ?thesis by (intro exI conjI)
qed

end
