(* ===== verification/Routing.thy ===== *)
theory Routing
  imports ApiServer_Props
begin

text \<open>
  From an HTTP request to the handler that answers it: the patterns the server registers
  (internal/api/server.go, \<open>Server.Start\<close>) and the matching of \<open>net/http.ServeMux\<close> on them: cleaning the
  path, the trailing-slash redirect, the wildcards with their percent-decoding, \<open>HEAD\<close> served by
  \<open>GET\<close>, and the 404 and 405 answers. A request is given by what \<open>net/http\<close> has parsed of it:
  \<open>hr_escapedPath\<close> is \<open>r.URL.EscapedPath()\<close>, \<open>hr_path\<close> is \<open>r.URL.Path\<close>.
\<close>

section \<open>Paths\<close>

definition unhex :: "char \<Rightarrow> nat option" where
  "unhex c = (let n = (of_char c :: nat) in
     if 48 \<le> n \<and> n \<le> 57 then Some (n - 48)
     else if 97 \<le> n \<and> n \<le> 102 then Some (n - 87)
     else if 65 \<le> n \<and> n \<le> 70 then Some (n - 55) else None)"

text \<open>\<open>url.PathUnescape\<close>, with \<open>None\<close> for a malformed escape; \<open>ServeMux\<close> then keeps the text as it is.\<close>

fun percent_decode :: "string \<Rightarrow> string option" where
  "percent_decode [] = Some []"
| "percent_decode (c # s) =
     (if c \<noteq> CHR ''%'' then map_option (Cons c) (percent_decode s)
      else (case s of
        a # b # r \<Rightarrow> (case (unhex a, unhex b) of
            (Some x, Some y) \<Rightarrow> map_option (Cons (char_of (16 * x + y))) (percent_decode r)
          | _ \<Rightarrow> None)
      | _ \<Rightarrow> None))"

definition pathUnescape :: "string \<Rightarrow> string" where
  "pathUnescape s = (case percent_decode s of None \<Rightarrow> s | Some t \<Rightarrow> t)"

abbreviation not_slash :: "char \<Rightarrow> bool" where "not_slash c \<equiv> c \<noteq> CHR ''/''"

definition firstSegment :: "string \<Rightarrow> string \<times> string" where
  "firstSegment path = (if path = ''/'' then (''/'', [])
     else (pathUnescape (takeWhile not_slash (tl path)), dropWhile not_slash (tl path)))"

text \<open>\<open>path.Clean\<close> on a rooted path: the segments kept so far, last one first.\<close>

definition push_segment :: "string \<Rightarrow> string list \<Rightarrow> string list" where
  "push_segment seg stack =
     (if seg = [] \<or> seg = ''.'' then stack else if seg = ''..'' then drop 1 stack else seg # stack)"

definition path_Clean :: "string \<Rightarrow> string" where
  "path_Clean p = CHR ''/'' # join ''/'' (rev (fold push_segment (split_on (CHR ''/'') p) []))"

definition ends_slash :: "string \<Rightarrow> bool" where
  "ends_slash p \<longleftrightarrow> p \<noteq> [] \<and> last p = CHR ''/''"

definition cleanPath :: "string \<Rightarrow> string" where
  "cleanPath p =
     (if p = [] then ''/''
      else let q = (if hd p \<noteq> CHR ''/'' then CHR ''/'' # p else p); np = path_Clean q in
        if ends_slash q \<and> np \<noteq> ''/'' then np @ ''/'' else np)"

section \<open>Patterns\<close>

datatype segment = Lit string | Wild | Multi

fun match_path :: "segment list \<Rightarrow> string \<Rightarrow> string list option" where
  "match_path [] path = (if path = [] then Some [] else None)"
| "match_path (Multi # ps) path = (if path = [] then None else Some [pathUnescape (tl path)])"
| "match_path (Lit l # ps) path =
     (if path = [] then None
      else case firstSegment path of (seg, rest) \<Rightarrow> if seg = l then match_path ps rest else None)"
| "match_path (Wild # ps) path =
     (if path = [] then None
      else case firstSegment path of (seg, rest) \<Rightarrow>
        if seg = ''/'' then None else map_option (Cons seg) (match_path ps rest))"

record httpRequest =
  hr_method :: string
  hr_requestURI :: string
  hr_escapedPath :: string
  hr_path :: string
  hr_query :: "(string \<times> string) list"
  hr_cookie :: "string option"
  hr_authorization :: string
  hr_body :: string

datatype endpoint = EHealthz | EDeploy | EGet | EDelete | EGateway | EFunction

text \<open>The \<open>mux.Handle\<close> calls of \<open>Start\<close>.\<close>

definition mux_patterns :: "(string \<times> segment list \<times> endpoint) list" where
  "mux_patterns =
     [(''GET'', [Lit ''healthz''], EHealthz),
      (''POST'', [Lit ''workloads''], EDeploy),
      (''GET'', [Lit ''workloads'', Wild], EGet),
      (''DELETE'', [Lit ''workloads'', Wild], EDelete),
      (''GET'', [Lit ''gw'', Wild, Wild, Multi], EGateway),
      (''POST'', [Lit ''workloads'', Wild, Lit ''functions'', Wild], EFunction)]"

text \<open>The route of an endpoint, its path values read with \<open>PathValue\<close>.\<close>

fun route_of :: "httpRequest \<Rightarrow> endpoint \<Rightarrow> string list \<Rightarrow> route" where
  "route_of q EHealthz vs = RHealthz"
| "route_of q EDeploy vs = RDeploy"
| "route_of q EGet vs = RGet (vs ! 0)"
| "route_of q EDelete vs = RDelete (vs ! 0)"
| "route_of q EGateway vs = RGateway \<lparr>gq_name = vs ! 0, gq_entrypoint = vs ! 1, gq_subpath = vs ! 2,
     gq_path = hr_path q, gq_query = hr_query q, gq_cookie = hr_cookie q\<rparr>"
| "route_of q EFunction vs = RFunction (vs ! 0) (vs ! 1)"

definition match_method :: "string \<Rightarrow> string \<Rightarrow> (segment list \<times> endpoint \<times> string list) option" where
  "match_method meth path =
     (case List.find (\<lambda>(mt, segs, ep). mt = meth \<and> match_path segs path \<noteq> None) mux_patterns of
       None \<Rightarrow> None
     | Some (mt, segs, ep) \<Rightarrow> map_option (\<lambda>vs. (segs, ep, vs)) (match_path segs path))"

definition mux_match :: "string \<Rightarrow> string \<Rightarrow> (segment list \<times> endpoint \<times> string list) option" where
  "mux_match meth path = (case match_method meth path of
     Some x \<Rightarrow> Some x
   | None \<Rightarrow> if meth = ''HEAD'' then match_method ''GET'' path else None)"

definition exactMatch :: "(segment list \<times> endpoint \<times> string list) option \<Rightarrow> string \<Rightarrow> bool" where
  "exactMatch n path = (case n of
     None \<Rightarrow> False
   | Some (segs, _) \<Rightarrow> \<not> ends_slash path \<or> length segs = length (filter (\<lambda>c. c = CHR ''/'') path))"

definition matchingMethods :: "string \<Rightarrow> string list" where
  "matchingMethods path = filter (\<lambda>mt. match_method mt path \<noteq> None \<or>
       mt = ''HEAD'' \<and> match_method ''GET'' path \<noteq> None) [''DELETE'', ''GET'', ''HEAD'', ''POST'']"

definition allowedMethods :: "string \<Rightarrow> string list" where
  "allowedMethods path = filter (\<lambda>mt. mt \<in> set (matchingMethods path) \<or>
       \<not> ends_slash path \<and> mt \<in> set (matchingMethods (path @ ''/''))) [''DELETE'', ''GET'', ''HEAD'', ''POST'']"

datatype muxResult = Routed route | Moved string | MethodNotAllowed "string list" | NoRoute | BadRequest

definition ServeMux_handler :: "httpRequest \<Rightarrow> muxResult" where
  "ServeMux_handler q =
     (if hr_requestURI q = ''*'' then BadRequest
      else let esc = hr_escapedPath q; meth = hr_method q;
        path = (if meth = ''CONNECT'' then esc else cleanPath esc); n = mux_match meth path in
        if \<not> exactMatch n path \<and> \<not> ends_slash path \<and> exactMatch (mux_match meth (path @ ''/'')) (path @ ''/'')
        then Moved (cleanPath (hr_path q) @ ''/'')
        else if meth \<noteq> ''CONNECT'' \<and> path \<noteq> esc then Moved path
        else (case n of
          Some (segs, ep, vs) \<Rightarrow> Routed (route_of q ep vs)
        | None \<Rightarrow> if allowedMethods path \<noteq> [] then MethodNotAllowed (allowedMethods path) else NoRoute))"

section \<open>Serving a request\<close>

datatype httpReply = Handled "body reply" | MuxRedirect string | MuxMethodNotAllowed "string list" | MuxError int

definition ServeHTTP :: "'w server \<Rightarrow> httpRequest \<Rightarrow> ('w, httpReply) gprog" where
  "ServeHTTP S q = (case ServeMux_handler q of
     Routed r \<Rightarrow> do { rep \<leftarrow> serve S (hr_authorization q) (hr_body q) r; ret (Handled rep) }
   | Moved p \<Rightarrow> ret (MuxRedirect p)
   | MethodNotAllowed ms \<Rightarrow> ret (MuxMethodNotAllowed ms)
   | NoRoute \<Rightarrow> ret (MuxError 404)
   | BadRequest \<Rightarrow> ret (MuxError 400))"

section \<open>Every request is guarded\<close>

lemma proper_ServeHTTP [simp]: "proper (ServeHTTP S q)"
  by (simp add: ServeHTTP_def split: muxResult.split)

lemma match_method_Some:
  assumes "match_method meth path = Some (segs, ep, vs)"
  shows "(meth, segs, ep) \<in> set mux_patterns \<and> match_path segs path = Some vs"
  using assms by (auto simp: match_method_def find_Some_iff in_set_conv_nth split: option.splits)

lemma mux_match_Some:
  assumes "mux_match meth path = Some (segs, ep, vs)"
  shows "\<exists>mt. (mt, segs, ep) \<in> set mux_patterns \<and> (mt = meth \<or> meth = ''HEAD'' \<and> mt = ''GET'') \<and> match_path segs path = Some vs"
  using assms by (auto simp: mux_match_def dest!: match_method_Some split: option.splits if_splits)

lemma handler_Routed:
  assumes "ServeMux_handler q = Routed r"
  obtains mt segs ep vs where "(mt, segs, ep) \<in> set mux_patterns" "match_path segs (hr_escapedPath q) = Some vs"
    "mt = hr_method q \<or> hr_method q = ''HEAD'' \<and> mt = ''GET''" "r = route_of q ep vs"
proof -
  from assms obtain segs ep vs where "mux_match (hr_method q) (hr_escapedPath q) = Some (segs, ep, vs)" "r = route_of q ep vs"
    by (auto simp: ServeMux_handler_def Let_def split: if_splits option.splits)
  with mux_match_Some that show thesis by (elim mux_match_Some [THEN exE] conjE) blast
qed

definition asks_gateway :: "httpRequest \<Rightarrow> bool" where
  "asks_gateway q \<longleftrightarrow> hr_method q \<in> {''GET'', ''HEAD''} \<and> hr_escapedPath q \<noteq> [] \<and> fst (firstSegment (hr_escapedPath q)) = ''gw''"

lemma handler_gateway:
  assumes "ServeMux_handler q = Routed (RGateway g)"
  shows "asks_gateway q"
  using assms by (rule handler_Routed) (auto simp: mux_patterns_def asks_gateway_def split: if_splits prod.splits)

lemma request_refused:
  assumes "runs (ServeHTTP S q) w rep cs w'" "\<not> valid_bearer S (hr_authorization q)" "\<not> asks_gateway q"
  shows "cs = [] \<and> w' = w \<and> (case rep of Handled b \<Rightarrow> b = handleHealthz \<or> unauthorized b | _ \<Rightarrow> True)"
proof (cases "ServeMux_handler q")
  case (Routed r)
  with assms(1) obtain b where run: "runs (serve S (hr_authorization q) (hr_body q) r) w b cs w'" and rep: "rep = Handled b"
    by (auto simp: ServeHTTP_def runs_bind runs_return)
  have "r = RHealthz \<or> management r" using assms(3) Routed handler_gateway by (cases r) auto
  then show ?thesis
  proof
    assume "r = RHealthz"
    with run rep show ?thesis by (simp add: serve_def runs_return)
  next
    assume "management r"
    with run rep management_needs_deploy_token [of r S "hr_authorization q" "hr_body q" w b cs w'] assms(2)
    show ?thesis by simp
  qed
qed (use assms(1) in \<open>simp_all add: ServeHTTP_def runs_return\<close>)

text \<open>C5: The management API belongs to the holder of the current deploy token, whatever the method of an HTTP
  request and however its path is written. A request with that token that is routed to deploy,
  inspect, delete or run a function runs exactly the handler of its route. A request without it that
  is not a \<open>GET\<close> or \<open>HEAD\<close> of a path whose first segment decodes to \<open>gw\<close> makes no call at all: it is
  answered 401, or it is a health check, or the multiplexer itself answers with a redirect, 400, 404
  or 405.\<close>

theorem every_request_guarded:
  assumes "runs (ServeHTTP S q) w rep cs w'"
  shows "(\<forall>r. valid_bearer S (hr_authorization q) \<and> ServeMux_handler q = Routed r \<and> management r \<longrightarrow>
      (\<exists>b. rep = Handled b \<and> runs (management_handler S (hr_body q) r) w b cs w')) \<and>
    (\<not> valid_bearer S (hr_authorization q) \<and> \<not> asks_gateway q \<longrightarrow>
      cs = [] \<and> w' = w \<and> (case rep of Handled b \<Rightarrow> b = handleHealthz \<or> unauthorized b | _ \<Rightarrow> True))"
proof (intro conjI allI impI; (elim conjE)?)
  fix r
  assume ok: "valid_bearer S (hr_authorization q)" "ServeMux_handler q = Routed r" "management r"
  with assms obtain b where "runs (serve S (hr_authorization q) (hr_body q) r) w b cs w'" "rep = Handled b"
    by (auto simp: ServeHTTP_def runs_bind runs_return)
  with ok management_needs_deploy_token [of r S "hr_authorization q" "hr_body q" w b cs w']
  show "\<exists>b. rep = Handled b \<and> runs (management_handler S (hr_body q) r) w b cs w'" by auto
qed (use request_refused [OF assms] in auto)

section \<open>Every route has an address\<close>

lemma split_on_append: "c \<notin> set t \<Longrightarrow> split_on c (t @ c # s) = t # split_on c s"
  by (induction t) auto

lemma split_on_clean: "c \<notin> set t \<Longrightarrow> split_on c t = [t]"
  by (induction t) auto

definition hex_upper :: "nat \<Rightarrow> char" where
  "hex_upper d = (if d < 10 then char_of (48 + d) else char_of (55 + d))"

text \<open>Percent-encoding of everything but letters, digits and \<open>- _ . ~\<close>, as a client writes a path segment.\<close>

definition unreserved :: "char \<Rightarrow> bool" where
  "unreserved c \<longleftrightarrow> (let n = (of_char c :: nat) in
     48 \<le> n \<and> n \<le> 57 \<or> 65 \<le> n \<and> n \<le> 90 \<or> 97 \<le> n \<and> n \<le> 122 \<or> n \<in> {45, 95, 46, 126})"

definition encode_byte :: "char \<Rightarrow> string" where
  "encode_byte c = (if unreserved c then [c]
     else let n = of_char c in [CHR ''%'', hex_upper (n div 16), hex_upper (n mod 16)])"

definition encode_segment :: "string \<Rightarrow> string" where
  "encode_segment s = concat (map encode_byte s)"

lemma unhex_hex_upper: "d < 16 \<Longrightarrow> unhex (hex_upper d) = Some d"
  by (auto simp: unhex_def hex_upper_def Let_def of_char_of)

lemma hex_upper_no_slash: "d < 16 \<Longrightarrow> CHR ''/'' \<noteq> hex_upper d"
proof
  assume "d < 16" "CHR ''/'' = hex_upper d"
  with unhex_hex_upper [of d] have "unhex (CHR ''/'') = Some d" by simp
  then show False by (simp add: unhex_def)
qed

lemma percent_decode_byte: "percent_decode (encode_byte c @ s) = map_option (Cons c) (percent_decode s)"
proof (cases "unreserved c")
  case True
  then have "c \<noteq> CHR ''%''" by (auto simp: unreserved_def)
  with True show ?thesis by (simp add: encode_byte_def)
next
  case False
  have "(of_char c :: nat) < 256" by simp
  then have d: "(of_char c :: nat) div 16 < 16" "(of_char c :: nat) mod 16 < 16" by (simp_all add: less_mult_imp_div_less)
  have "char_of (16 * (of_char c div 16) + of_char c mod 16 :: nat) = c" by simp
  with False d show ?thesis by (simp add: encode_byte_def Let_def unhex_hex_upper)
qed

lemma percent_decode_encode: "percent_decode (encode_segment s) = Some s"
  by (induction s) (simp_all add: encode_segment_def percent_decode_byte)

lemma pathUnescape_encode [simp]: "pathUnescape (encode_segment s) = s"
  by (simp add: pathUnescape_def percent_decode_encode)

lemma encode_no_slash [simp]: "CHR ''/'' \<notin> set (encode_segment s)"
proof -
  have "CHR ''/'' \<notin> set (encode_byte c)" for c
  proof -
    have "(of_char c :: nat) < 256" by simp
    then have "(of_char c :: nat) div 16 < 16" "(of_char c :: nat) mod 16 < 16" by (simp_all add: less_mult_imp_div_less)
    then have "CHR ''/'' \<noteq> hex_upper (of_char c div 16)" "CHR ''/'' \<noteq> hex_upper (of_char c mod 16)"
      by (simp_all only: hex_upper_no_slash not_False_eq_True)
    then show ?thesis by (auto simp: encode_byte_def Let_def unreserved_def)
  qed
  then show ?thesis by (auto simp: encode_segment_def)
qed

lemma encode_inject: "encode_segment s = encode_segment t \<longleftrightarrow> s = t"
  by (metis pathUnescape_encode)

definition path_for :: "string list \<Rightarrow> string" where
  "path_for segs = concat (map (\<lambda>s. CHR ''/'' # encode_segment s) segs)"

lemma path_for_simps [simp]: "path_for [] = []" "path_for (s # ss) = CHR ''/'' # encode_segment s @ path_for ss"
  by (simp_all add: path_for_def)

lemma encode_special [simp]:
  "encode_segment s = [] \<longleftrightarrow> s = []" "encode_segment s = ''.'' \<longleftrightarrow> s = ''.''" "encode_segment s = ''..'' \<longleftrightarrow> s = ''..''"
proof -
  have "encode_segment [] = []" "encode_segment ''.'' = ''.''" "encode_segment ''..'' = ''..''"
    by (simp_all add: encode_segment_def encode_byte_def unreserved_def)
  with encode_inject show "encode_segment s = [] \<longleftrightarrow> s = []" "encode_segment s = ''.'' \<longleftrightarrow> s = ''.''"
    "encode_segment s = ''..'' \<longleftrightarrow> s = ''..''" by metis+
qed

lemma split_on_path_for: "split_on (CHR ''/'') (path_for segs) = [] # map encode_segment segs"
proof (induction segs)
  case (Cons s ss)
  show ?case
  proof (cases ss)
    case Nil
    then show ?thesis by (simp add: split_on_clean)
  next
    case (Cons s' ss')
    with Cons.IH have "split_on (CHR ''/'') (encode_segment s' @ path_for ss') = map encode_segment ss" by simp
    with Cons show ?thesis by (simp add: split_on_append)
  qed
qed simp

lemma push_segments:
  "list_all (\<lambda>s. s \<noteq> [] \<and> s \<noteq> ''.'' \<and> s \<noteq> ''..'') segs \<Longrightarrow> fold push_segment segs st = rev segs @ st"
  by (induction segs arbitrary: st) (simp_all add: push_segment_def)

lemma join_path_for: "segs \<noteq> [] \<Longrightarrow> CHR ''/'' # join ''/'' (map encode_segment segs) = path_for segs"
  by (induction segs rule: induct_list012) simp_all

definition plain_segment :: "string \<Rightarrow> bool" where
  "plain_segment s \<longleftrightarrow> s \<noteq> [] \<and> s \<noteq> ''.'' \<and> s \<noteq> ''..'' \<and> s \<noteq> ''/''"

lemma path_Clean_path_for:
  assumes "list_all (\<lambda>s. s \<noteq> [] \<and> s \<noteq> ''.'' \<and> s \<noteq> ''..'') segs" "segs \<noteq> []"
  shows "path_Clean (path_for segs) = path_for segs" "path_Clean (path_for (segs @ [[]])) = path_for segs"
proof -
  have "list_all (\<lambda>s. s \<noteq> [] \<and> s \<noteq> ''.'' \<and> s \<noteq> ''..'') (map encode_segment segs)"
    using assms(1) by (simp add: list_all_iff)
  from push_segments [OF this] have "fold push_segment (map encode_segment segs) [] = rev (map encode_segment segs)" by simp
  with assms(2) show "path_Clean (path_for segs) = path_for segs" "path_Clean (path_for (segs @ [[]])) = path_for segs"
    unfolding path_Clean_def split_on_path_for by (simp_all add: push_segment_def join_path_for rev_map encode_segment_def)
qed

lemma path_for_append: "path_for (xs @ ys) = path_for xs @ path_for ys"
  by (simp add: path_for_def)

lemma ends_slash_path_for [simp]: "ends_slash (path_for (segs @ [s])) \<longleftrightarrow> s = []"
proof (cases "encode_segment s" rule: rev_cases)
  case Nil
  then show ?thesis by (simp add: ends_slash_def path_for_append)
next
  case (snoc ys y)
  with encode_no_slash [of s] have "y \<noteq> CHR ''/''" by auto
  moreover have "s \<noteq> []" using snoc encode_special(1) [of s] by auto
  ultimately show ?thesis using snoc by (simp add: ends_slash_def path_for_append)
qed

lemma cleanPath_path_for:
  assumes "list_all (\<lambda>s. s \<noteq> [] \<and> s \<noteq> ''.'' \<and> s \<noteq> ''..'') segs" "segs \<noteq> [] \<or> s \<noteq> []" "s \<noteq> ''.''" "s \<noteq> ''..''"
  shows "cleanPath (path_for (segs @ [s])) = path_for (segs @ [s])"
proof -
  have start: "path_for (segs @ [s]) \<noteq> []" "hd (path_for (segs @ [s])) = CHR ''/''" by (cases segs; simp)+
  show ?thesis
  proof (cases "s = []")
    case True
    with assms(2) have ne: "segs \<noteq> []" by simp
    then have "path_for segs \<noteq> ''/''" using assms(1) by (cases segs) auto
    with True path_Clean_path_for(2) [OF assms(1) ne] start ends_slash_path_for [of segs s] show ?thesis
      by (simp add: cleanPath_def Let_def path_for_append encode_segment_def)
  next
    case False
    then have "path_Clean (path_for (segs @ [s])) = path_for (segs @ [s])"
      using assms by (intro path_Clean_path_for) simp_all
    with False start show ?thesis by (simp add: cleanPath_def Let_def)
  qed
qed

lemma firstSegment_path_for [simp]:
  "s \<noteq> [] \<Longrightarrow> firstSegment (CHR ''/'' # encode_segment s @ path_for ss) = (s, path_for ss)"
proof -
  assume s: "s \<noteq> []"
  have "takeWhile not_slash (encode_segment s @ path_for ss) = encode_segment s"
    "dropWhile not_slash (encode_segment s @ path_for ss) = path_for ss"
    using encode_no_slash [of s] by (cases ss; auto simp: takeWhile_append dropWhile_append dest: not_sym)+
  with s show ?thesis by (simp add: firstSegment_def)
qed

lemma slashes_path_for: "length (filter (\<lambda>c. c = CHR ''/'') (path_for segs)) = length segs"
proof (induction segs)
  case (Cons s ss)
  have "filter (\<lambda>c. c = CHR ''/'') (encode_segment s) = []" using encode_no_slash [of s] by (auto simp: filter_empty_conv)
  with Cons show ?case by simp
qed simp

text \<open>The method and the path segments that address a route.\<close>

fun address :: "route \<Rightarrow> string \<times> string list" where
  "address RHealthz = (''GET'', [''healthz''])"
| "address RDeploy = (''POST'', [''workloads''])"
| "address (RGet n) = (''GET'', [''workloads'', n])"
| "address (RDelete n) = (''DELETE'', [''workloads'', n])"
| "address (RGateway g) = (''GET'', [''gw'', gq_name g, gq_entrypoint g, gq_subpath g])"
| "address (RFunction n k) = (''POST'', [''workloads'', n, ''functions'', k])"

fun addressable :: "route \<Rightarrow> bool" where
  "addressable (RGet n) = plain_segment n"
| "addressable (RDelete n) = plain_segment n"
| "addressable (RGateway g) =
     (plain_segment (gq_name g) \<and> plain_segment (gq_entrypoint g) \<and> gq_subpath g \<noteq> ''.'' \<and> gq_subpath g \<noteq> ''..'')"
| "addressable (RFunction n k) = (plain_segment n \<and> plain_segment k)"
| "addressable _ = True"

text \<open>The request that addresses a route: what the gateway reads of it besides the path is as in the route.\<close>

definition addresses :: "httpRequest \<Rightarrow> route \<Rightarrow> bool" where
  "addresses q r \<longleftrightarrow> hr_method q = fst (address r) \<and> hr_escapedPath q = path_for (snd (address r)) \<and> hr_requestURI q \<noteq> ''*'' \<and>
     (\<forall>g. r = RGateway g \<longrightarrow> gq_path g = hr_path q \<and> gq_query g = hr_query q \<and> gq_cookie g = hr_cookie q)"

lemma match_path_for:
  "match_path [] (path_for ss) = (if ss = [] then Some [] else None)"
  "s \<noteq> [] \<Longrightarrow> match_path (Lit l # ps) (path_for (s # ss)) = (if s = l then match_path ps (path_for ss) else None)"
  "s \<noteq> [] \<Longrightarrow> s \<noteq> ''/'' \<Longrightarrow> match_path (Wild # ps) (path_for (s # ss)) = map_option (Cons s) (match_path ps (path_for ss))"
  "match_path (Multi # ps) (path_for [s]) = Some [s]"
  "match_path (Lit l # ps) (path_for []) = None" "match_path (Wild # ps) (path_for []) = None"
  by (cases ss) simp_all

lemma match_address:
  assumes "addressable r"
  shows "\<exists>segs ep vs. mux_match (fst (address r)) (path_for (snd (address r))) = Some (segs, ep, vs) \<and>
    length segs = length (snd (address r)) \<and> (addresses q r \<longrightarrow> route_of q ep vs = r)"
  using assms
  by (cases r) (simp_all add: mux_match_def match_method_def mux_patterns_def plain_segment_def addresses_def match_path_for
      del: path_for_simps match_path.simps)

lemma clean_address:
  assumes "addressable r"
  shows "cleanPath (path_for (snd (address r))) = path_for (snd (address r))"
proof -
  have "cleanPath (path_for (butlast (snd (address r)) @ [last (snd (address r))])) =
      path_for (butlast (snd (address r)) @ [last (snd (address r))])"
    using assms by (intro cleanPath_path_for) (cases r; simp add: plain_segment_def)+
  moreover have "butlast (snd (address r)) @ [last (snd (address r))] = snd (address r)" by (cases r) simp_all
  ultimately show ?thesis by simp
qed

text \<open>C21: Every route can be reached, and by the address a client computes for it: a request whose path is
  made of the percent-encoded values of a route, with the route's method, is handed to exactly that
  route with exactly those values, whatever bytes they contain. The values that cannot be addressed
  are the empty string, a lone slash and the two dot segments.\<close>

theorem address_routed:
  assumes "addressable r" "addresses q r"
  shows "ServeMux_handler q = Routed r"
proof -
  obtain segs ep vs where m: "mux_match (fst (address r)) (path_for (snd (address r))) = Some (segs, ep, vs)"
    and len: "length segs = length (snd (address r))" and r: "route_of q ep vs = r"
    using match_address [OF assms(1)] assms(2) by blast
  have exact: "exactMatch (Some (segs, ep, vs)) (path_for (snd (address r)))"
    by (simp add: exactMatch_def slashes_path_for len)
  have "fst (address r) \<noteq> ''CONNECT''" by (cases r) simp_all
  with assms(2) clean_address [OF assms(1)] m exact r show ?thesis
    by (simp add: ServeMux_handler_def addresses_def Let_def)
qed

section \<open>Witnesses\<close>

definition demo_http :: "string \<Rightarrow> string \<Rightarrow> httpRequest" where
  "demo_http meth path = \<lparr>hr_method = meth, hr_requestURI = path, hr_escapedPath = path, hr_path = path, hr_query = [],
     hr_cookie = None, hr_authorization = ''Bearer x'', hr_body = []\<rparr>"

theorem every_request_guarded_witness:
  "\<exists>rep. runs (ServeHTTP demo_server (demo_http ''DELETE'' ''/workloads/w1'')) 0 rep [] 0"
proof -
  let ?q = "demo_http ''DELETE'' ''/workloads/w1''"
  obtain rep cs w' where run: "runs (ServeHTTP demo_server ?q) 0 rep cs w'"
    using runs_total [of "ServeHTTP demo_server ?q" 0] by (elim exE)
  have "\<not> valid_bearer demo_server (hr_authorization ?q)" "\<not> asks_gateway ?q"
    by (simp_all add: valid_bearer_def demo_server_def demo_http_def asks_gateway_def)
  with every_request_guarded [OF run, THEN conjunct2] have "cs = []" "w' = 0" by (simp_all only: simp_thms)
  with run show ?thesis by (intro exI) simp
qed

lemma demo_path: "path_for [''workloads'', ''a/b''] = ''/workloads/a%2Fb''"
  by code_simp

theorem address_routed_witness: "ServeMux_handler (demo_http ''GET'' ''/workloads/a%2Fb'') = Routed (RGet ''a/b'')"
  by (rule address_routed) (simp_all add: addresses_def demo_http_def plain_segment_def demo_path del: path_for_simps)

end
