(* ===== verification/Duration.thy ===== *)
theory Duration
  imports Go_Std
begin

text \<open>
  Package \<open>time\<close> as start-up uses it: \<open>time.ParseDuration\<close> on the interval variables, and the
  precondition of \<open>time.NewTicker\<close>. Integers are kept at their 64 bits, as the overflow checks of
  the parser are part of its meaning; the one float64 expression, the value of a decimal fraction
  of a unit, is a parameter over the digits read, the unit and the number of digits.
\<close>

section \<open>Parsing\<close>

text \<open>\<open>leadingInt\<close> from an accumulator: \<open>None\<close> on overflow.\<close>

fun leadingInt :: "uint64 \<Rightarrow> string \<Rightarrow> (uint64 \<times> string) option" where
  "leadingInt x [] = Some (x, [])"
| "leadingInt x (c # s) =
     (if \<not> is_digit c then Some (x, c # s)
      else if x > 2 ^ 63 div 10 then None
      else let y = x * 10 + of_nat (digit_value c) in
        if y > 2 ^ 63 then None else leadingInt y s)"

text \<open>\<open>leadingFraction\<close>: digits past an overflow are skipped. The scale is a power of ten, given by its
  exponent.\<close>

fun leadingFraction :: "bool \<Rightarrow> uint64 \<Rightarrow> nat \<Rightarrow> string \<Rightarrow> uint64 \<times> nat \<times> string" where
  "leadingFraction overflow x k [] = (x, k, [])"
| "leadingFraction overflow x k (c # s) =
     (if \<not> is_digit c then (x, k, c # s)
      else if overflow \<or> x > (2 ^ 63 - 1) div 10 then leadingFraction True x k s
      else let y = x * 10 + of_nat (digit_value c) in
        if y > 2 ^ 63 then leadingFraction True x k s else leadingFraction False y (Suc k) s)"

text \<open>The units; a Go string is its bytes, so the two spellings of the micro sign take two bytes each.\<close>

definition unitMap :: "(string \<times> nat) list" where
  "unitMap = [(''ns'', 1), (''us'', 10 ^ 3), ([CHR 0xC2, CHR 0xB5, CHR ''s''], 10 ^ 3),
     ([CHR 0xCE, CHR 0xBC, CHR ''s''], 10 ^ 3), (''ms'', 10 ^ 6), (''s'', 10 ^ 9), (''m'', 60 * 10 ^ 9),
     (''h'', 3600 * 10 ^ 9)]"

datatype duration_error = InvalidDuration | MissingUnit | UnknownUnit string

type_synonym fraction = "uint64 \<Rightarrow> nat \<Rightarrow> nat \<Rightarrow> uint64"

text \<open>The value of one segment in nanoseconds, once its integer, fraction and unit are read.\<close>

definition segment_value :: "fraction \<Rightarrow> uint64 \<Rightarrow> uint64 \<Rightarrow> nat \<Rightarrow> nat \<Rightarrow> uint64 option" where
  "segment_value fr v f k unit =
     (if v > 2 ^ 63 div of_nat unit then None
      else let v' = v * of_nat unit in
        if f > 0 then (let v'' = v' + fr f unit k in if v'' > 2 ^ 63 then None else Some v'') else Some v')"

abbreviation unit_char :: "char \<Rightarrow> bool" where
  "unit_char c \<equiv> c \<noteq> CHR ''.'' \<and> \<not> is_digit c"

definition read_fraction :: "string \<Rightarrow> bool \<times> uint64 \<times> nat \<times> string" where
  "read_fraction s = (case s of
     [] \<Rightarrow> (False, 0, 0, [])
   | c # r \<Rightarrow> if c = CHR ''.'' then (case leadingFraction False 0 0 r of (f, k, r') \<Rightarrow> (length r \<noteq> length r', f, k, r'))
              else (False, 0, 0, c # r))"

lemma leadingInt_length: "leadingInt x s = Some (v, r) \<Longrightarrow> length r \<le> length s"
  by (induction x s rule: leadingInt.induct) (auto simp: Let_def split: if_splits)

lemma leadingFraction_length: "leadingFraction b x k s = (f, k', r) \<Longrightarrow> length r \<le> length s"
  by (induction s arbitrary: b x k) (auto simp: Let_def split: if_splits intro: le_SucI)

lemma read_fraction_length: "read_fraction s = (b, f, k, r) \<Longrightarrow> length r \<le> length s"
  by (auto simp: read_fraction_def split: list.splits if_splits prod.splits dest!: leadingFraction_length)

text \<open>One segment, a number with its unit: the nanoseconds it stands for and the text after it.\<close>

definition read_segment :: "fraction \<Rightarrow> string \<Rightarrow> duration_error + uint64 \<times> string" where
  "read_segment fr s =
     (if \<not> (hd s = CHR ''.'' \<or> is_digit (hd s)) then Inl InvalidDuration
      else (case leadingInt 0 s of
        None \<Rightarrow> Inl InvalidDuration
      | Some (v, r) \<Rightarrow>
          (case read_fraction r of (post_digits, f, k, r') \<Rightarrow>
            if length r = length s \<and> \<not> post_digits then Inl InvalidDuration
            else (let u = takeWhile unit_char r' in
              if u = [] then Inl MissingUnit
              else (case map_of unitMap u of
                None \<Rightarrow> Inl (UnknownUnit u)
              | Some unit \<Rightarrow>
                  (case segment_value fr v f k unit of
                    None \<Rightarrow> Inl InvalidDuration
                  | Some v' \<Rightarrow> Inr (v', dropWhile unit_char r')))))))"

lemma read_segment_shorter:
  assumes "read_segment fr s = Inr (v, rest)"
  shows "length rest < length s"
proof -
  from assms obtain n r b f k r' where "leadingInt 0 s = Some (n, r)" "read_fraction r = (b, f, k, r')"
    "takeWhile unit_char r' \<noteq> []" "rest = dropWhile unit_char r'"
    by (auto simp: read_segment_def Let_def split: if_splits option.splits prod.splits)
  with dropWhile_shorter [of unit_char r'] leadingInt_length [of 0 s n r] read_fraction_length [of r b f k r']
  show ?thesis by simp
qed

text \<open>The loop over the segments, with the sum \<open>d\<close> so far.\<close>

function parse_segments :: "fraction \<Rightarrow> uint64 \<Rightarrow> string \<Rightarrow> duration_error + uint64" where
  "parse_segments fr d s =
     (if s = [] then Inr d
      else (case read_segment fr s of
        Inl e \<Rightarrow> Inl e
      | Inr (v, rest) \<Rightarrow> if d + v > 2 ^ 63 then Inl InvalidDuration else parse_segments fr (d + v) rest))"
  by pat_completeness auto
termination
  by (relation "measure (\<lambda>(fr, d, s). length s)") (auto dest: read_segment_shorter)

declare parse_segments.simps [simp del]

text \<open>\<open>quote\<close> of package \<open>time\<close>: unlike \<open>%q\<close> it writes every control or non-ASCII byte in hexadecimal.\<close>

definition time_quote_byte :: "char \<Rightarrow> string" where
  "time_quote_byte c = (let n = (of_char c :: nat); bs = CHR 0x5C in
     if n < 32 \<or> 128 \<le> n then [bs, CHR ''x'', hex_char (n div 16), hex_char (n mod 16)]
     else if n = 34 \<or> n = 92 then [bs, c] else [c])"

definition time_quote :: "string \<Rightarrow> string" where
  "time_quote s = CHR 0x22 # concat (map time_quote_byte s) @ [CHR 0x22]"

fun duration_error_text :: "string \<Rightarrow> duration_error \<Rightarrow> string" where
  "duration_error_text orig InvalidDuration = ''time: invalid duration '' @ time_quote orig"
| "duration_error_text orig MissingUnit = ''time: missing unit in duration '' @ time_quote orig"
| "duration_error_text orig (UnknownUnit u) = ''time: unknown unit '' @ time_quote u @ '' in duration '' @ time_quote orig"

fun duration_sign :: "string \<Rightarrow> bool \<times> string" where
  "duration_sign [] = (False, [])"
| "duration_sign (c # s) = (if c = CHR ''-'' then (True, s) else if c = CHR ''+'' then (False, s) else (False, c # s))"

definition parse_duration :: "fraction \<Rightarrow> string \<Rightarrow> duration_error + int64" where
  "parse_duration fr orig = (case duration_sign orig of (neg, s) \<Rightarrow>
     if s = ''0'' then Inr 0
     else if s = [] then Inl InvalidDuration
     else (case parse_segments fr 0 s of
       Inl e \<Rightarrow> Inl e
     | Inr d \<Rightarrow> if neg then Inr (- d) else if d > 2 ^ 63 - 1 then Inl InvalidDuration else Inr d))"

definition ParseDuration :: "fraction \<Rightarrow> string \<Rightarrow> go_error + int64" where
  "ParseDuration fr s = map_sum (\<lambda>e. ErrText (duration_error_text s e)) id (parse_duration fr s)"

text \<open>\<open>time.NewTicker\<close> panics unless the interval is positive.\<close>

definition ticker_panics :: "int64 \<Rightarrow> bool" where
  "ticker_panics d \<longleftrightarrow> sint d \<le> 0"

section \<open>Numbers and units read back\<close>

lemma decimal_ge: "x \<le> decimal x ds"
proof (induction ds arbitrary: x)
  case (Cons c ds)
  from Cons.IH [of "x * 10 + digit_value c"] show ?case by simp
qed simp

lemma unat_small: "n < 2 ^ 64 \<Longrightarrow> unat (of_nat n :: uint64) = n"
  by (simp add: unat_of_nat take_bit_nat_eq_self)

lemma of_nat_gt: "n < 2 ^ 64 \<Longrightarrow> m < 2 ^ 64 \<Longrightarrow> (of_nat m :: uint64) < of_nat n \<longleftrightarrow> m < n"
  by (simp add: word_less_nat_alt unat_small)

lemma two_63: "(2 ^ 63 :: uint64) = of_nat (2 ^ 63)" "(2 ^ 63 div 10 :: uint64) = of_nat (2 ^ 63 div 10)"
  by simp_all

text \<open>\<open>leadingInt\<close> reads exactly the decimal number, or overflows when it is over \<open>2 ^ 63\<close>.\<close>

lemma leadingInt_decimal:
  assumes "list_all is_digit ds" "rest = [] \<or> \<not> is_digit (hd rest)" "x \<le> 2 ^ 63"
  shows "leadingInt (of_nat x) (ds @ rest) =
    (if decimal x ds \<le> 2 ^ 63 then Some (of_nat (decimal x ds), rest) else None)"
  using assms(1,3)
proof (induction ds arbitrary: x)
  case Nil
  with assms(2) show ?case by (cases rest) auto
next
  case (Cons c ds)
  then have d: "is_digit c" "digit_value c < 10" by (simp_all add: digit_value_less)
  let ?y = "x * 10 + digit_value c"
  have guard: "of_nat x > (2 ^ 63 div 10 :: uint64) \<longleftrightarrow> x > 2 ^ 63 div 10"
    using Cons.prems(2) of_nat_gt [of x "2 ^ 63 div 10"] by (simp only: two_63(2)) simp
  show ?case
  proof (cases "x > 2 ^ 63 div 10")
    case True
    then have "2 ^ 63 < ?y" by simp
    with decimal_ge [of ?y ds] True guard d show ?thesis by simp
  next
    case False
    then have y: "?y < 2 ^ 64" using d by simp
    have eq: "of_nat x * 10 + of_nat (digit_value c) = (of_nat ?y :: uint64)" by simp
    have guard': "(of_nat ?y :: uint64) > 2 ^ 63 \<longleftrightarrow> ?y > 2 ^ 63"
      unfolding two_63 using y by (intro of_nat_gt) simp_all
    have step: "leadingInt (of_nat x) (c # ds @ rest) =
        (if ?y > 2 ^ 63 then None else leadingInt (of_nat ?y) (ds @ rest))"
      using False guard guard' d by (simp only: leadingInt.simps Let_def eq simp_thms if_False)
    show ?thesis
    proof (cases "?y > 2 ^ 63")
      case True
      with step decimal_ge [of ?y ds] show ?thesis by simp
    next
      case False
      with step Cons.IH [of ?y] Cons.prems(1) show ?thesis by simp
    qed
  qed
qed

lemma unitMap_positive: "map_of unitMap u = Some k \<Longrightarrow> 0 < k \<and> k < 2 ^ 63"
  by (auto simp: unitMap_def split: if_splits)

lemma unitMap_chars: "map_of unitMap u = Some k \<Longrightarrow> u \<noteq> [] \<and> list_all unit_char u"
  by (auto simp: unitMap_def is_digit_def split: if_splits)

lemma segment_value_whole:
  assumes "0 < k" "k < 2 ^ 63" "n \<le> 2 ^ 63"
  shows "segment_value fr (of_nat n) 0 j k = (if n * k \<le> 2 ^ 63 then Some (of_nat (n * k)) else None)"
proof -
  have "(2 ^ 63 div of_nat k :: uint64) = of_nat (2 ^ 63 div k)"
    unfolding two_63 word_arith_nat_div using assms by (simp add: unat_small)
  moreover have "2 ^ 63 div k < (2 ^ 64 :: nat)" by (rule le_less_trans [OF div_le_dividend]) simp
  ultimately have "of_nat n > (2 ^ 63 div of_nat k :: uint64) \<longleftrightarrow> n > 2 ^ 63 div k"
    using assms of_nat_gt [of n "2 ^ 63 div k"] by simp
  also have "\<dots> \<longleftrightarrow> \<not> n * k \<le> 2 ^ 63"
    using assms(1) by (metis div_less_iff_less_mult less_eq_div_iff_mult_less_eq linorder_not_le)
  finally show ?thesis by (simp add: segment_value_def)
qed

section \<open>Durations written as numbers with units\<close>

text \<open>A text such as \<open>1h30m\<close>, given by its segments, and the nanoseconds it means.\<close>

definition duration_text :: "(nat \<times> string) list \<Rightarrow> string" where
  "duration_text segs = concat (map (\<lambda>(n, u). show_nat n @ u) segs)"

definition nanoseconds :: "nat \<times> string \<Rightarrow> nat" where
  "nanoseconds seg = fst seg * (case map_of unitMap (snd seg) of None \<Rightarrow> 0 | Some k \<Rightarrow> k)"

definition total_nanoseconds :: "(nat \<times> string) list \<Rightarrow> nat" where
  "total_nanoseconds segs = sum_list (map nanoseconds segs)"

text \<open>Known units, and no single segment that overflows by itself.\<close>

definition segments_fit :: "(nat \<times> string) list \<Rightarrow> bool" where
  "segments_fit segs \<longleftrightarrow> list_all (\<lambda>seg. map_of unitMap (snd seg) \<noteq> None \<and> nanoseconds seg < 2 ^ 63) segs"

lemma duration_text_simps [simp]:
  "duration_text [] = []" "duration_text ((n, u) # segs) = show_nat n @ u @ duration_text segs"
  "total_nanoseconds [] = 0" "total_nanoseconds (seg # segs) = nanoseconds seg + total_nanoseconds segs"
  by (simp_all add: duration_text_def total_nanoseconds_def)

lemma hd_duration_text: "duration_text segs = [] \<or> is_digit (hd (duration_text segs))"
  by (cases segs) (auto simp: hd_show_nat)

lemma read_segment_text:
  assumes "map_of unitMap u = Some k" "n * k < 2 ^ 63" "rest = [] \<or> is_digit (hd rest)"
  shows "read_segment fr (show_nat n @ u @ rest) = Inr (of_nat (n * k), rest)"
proof -
  from unitMap_positive [OF assms(1)] have k: "0 < k" "k < 2 ^ 63" by simp_all
  from unitMap_chars [OF assms(1)] obtain c u' where u: "u = c # u'" "unit_char c" "list_all unit_char u"
    by (cases u) auto
  have "n * 1 \<le> n * k" using k by (intro mult_le_mono2) simp
  with assms(2) have n: "n \<le> 2 ^ 63" by linarith
  have int: "leadingInt 0 (show_nat n @ u @ rest) = Some (of_nat n, u @ rest)"
    using leadingInt_decimal [OF show_nat_digits, of "u @ rest" 0 n] u n by (simp add: decimal_show_nat)
  have frac: "read_fraction (u @ rest) = (False, 0, 0, u @ rest)" using u by (simp add: read_fraction_def)
  have tw: "takeWhile unit_char (u @ rest) = u" "dropWhile unit_char (u @ rest) = rest"
    using u(3) assms(3) by (cases rest; simp add: takeWhile_append dropWhile_append list_all_iff)+
  show ?thesis unfolding read_segment_def int option.case prod.case frac tw assms(1)
    using hd_show_nat [of n] segment_value_whole [OF k n, of fr 0] assms(1,2) u(1) by (simp add: Let_def)
qed

text \<open>The loop adds up the segments and stops as soon as the sum is over \<open>2 ^ 63\<close>.\<close>

lemma parse_segments_text:
  assumes "segments_fit segs" "d \<le> 2 ^ 63"
  shows "parse_segments fr (of_nat d) (duration_text segs) =
    (if d + total_nanoseconds segs \<le> 2 ^ 63 then Inr (of_nat (d + total_nanoseconds segs)) else Inl InvalidDuration)"
  using assms
proof (induction segs arbitrary: d)
  case Nil
  then show ?case by (subst parse_segments.simps) simp
next
  case (Cons seg segs)
  obtain n u where seg: "seg = (n, u)" by (cases seg)
  from Cons.prems(1) obtain k where k: "map_of unitMap u = Some k" and nk: "n * k < 2 ^ 63" and fit: "segments_fit segs"
    by (auto simp: segments_fit_def nanoseconds_def seg)
  have ns: "nanoseconds seg = n * k" by (simp add: nanoseconds_def seg k)
  have guard: "of_nat d + of_nat (n * k) > (2 ^ 63 :: uint64) \<longleftrightarrow> d + n * k > 2 ^ 63"
    using of_nat_gt [of "d + n * k" "2 ^ 63"] nk Cons.prems(2) by (simp only: of_nat_add two_63(1)) simp
  have "parse_segments fr (of_nat d) (duration_text (seg # segs)) =
      (if d + n * k > 2 ^ 63 then Inl InvalidDuration else parse_segments fr (of_nat (d + n * k)) (duration_text segs))"
    by (subst parse_segments.simps) (simp add: seg read_segment_text [OF k nk hd_duration_text] guard [simplified])
  with Cons.IH [OF fit, of "d + n * k"] show ?case by (simp add: ns)
qed

lemma duration_text_units:
  assumes "segments_fit segs" "segs \<noteq> []"
  shows "duration_text segs \<noteq> [] \<and> duration_text segs \<noteq> ''0''"
proof -
  obtain n u tl where segs: "segs = (n, u) # tl" using assms(2) by (cases segs) auto
  with assms(1) obtain k where "map_of unitMap u = Some k" by (auto simp: segments_fit_def)
  with unitMap_chars have u: "u \<noteq> []" "list_all unit_char u" by blast+
  have "\<not> list_all is_digit (duration_text segs)" using u by (cases u) (auto simp: segs)
  then show ?thesis by (auto simp: is_digit_def)
qed

lemma parse_duration_text:
  assumes "segments_fit segs" "segs \<noteq> []"
  shows "parse_duration fr (duration_text segs) =
    (if total_nanoseconds segs < 2 ^ 63 then Inr (of_nat (total_nanoseconds segs)) else Inl InvalidDuration)"
proof -
  let ?s = "duration_text segs" and ?t = "total_nanoseconds segs"
  have ne: "?s \<noteq> []" and n0: "?s \<noteq> ''0''" using duration_text_units [OF assms] by simp_all
  have sign: "duration_sign ?s = (False, ?s)"
    using hd_duration_text [of segs] ne by (cases ?s) (auto simp: is_digit_def)
  have top: "(of_nat ?t > (2 ^ 63 - 1 :: uint64)) \<longleftrightarrow> ?t = 2 ^ 63" if "?t \<le> 2 ^ 63"
    using of_nat_gt [of ?t "2 ^ 63 - 1"] that by auto
  show ?thesis unfolding parse_duration_def sign prod.case
    using parse_segments_text [OF assms(1), of 0 fr] ne n0 top by auto
qed

end
