(* ===== verification/Setup.thy ===== *)
theory Setup
  imports Routing Duration
begin

text \<open>
  The wiring of the operator (cmd/main.go, \<open>setupConvexIntegration\<close>) with the constructors it
  calls. What the process is given from outside is the record \<open>'w platform\<close>: the environment, the
  clients and their configuration, the manager's \<open>Add\<close>, and the library functions that parse a
  URL or take a decimal fraction of a time unit. The result is the runnable with its first state
  and the API server, which reads the runnable's current tokens on every request. A step made of a whole program of another
  component, such as loading the signing key, is one call of the history. The rest
  of \<open>main\<close> is theory \<open>Process\<close>.
\<close>

section \<open>Platform\<close>

datatype component = CapacityTracker | ConvexRunnable | MetricsReporter | OperatorApi

datatype scall =
    SEnrollment "go_error + string"
  | SSigningKey string "go_error + string"
  | SNamespace string "go_error option"
  | SAdd component "go_error option"

type_synonym ('w, 'a) sprog = "('w, scall, 'a) kprog"

record 'w platform =
  pf_lookupEnv :: "string \<Rightarrow> string option"
  pf_fraction :: fraction
  pf_lib :: lib
  pf_digest :: "string \<Rightarrow> string"
  pf_kube :: "'w kube"
  pf_kubelet :: "'w kubelet"
  pf_convex :: "'w convex"
  pf_readFile :: "string \<Rightarrow> 'w \<Rightarrow> (go_error + string) \<times> 'w"
  pf_random :: "nat \<Rightarrow> 'w \<Rightarrow> (go_error + string) \<times> 'w"
  pf_clientset :: "go_error option"
  pf_transport :: "go_error option"
  pf_host :: string
  pf_parseURL :: "string \<Rightarrow> go_error + string \<times> string"
  pf_signer :: signer
  pf_html :: "pageData \<Rightarrow> go_error + string"
  pf_executor :: "'w executor"
  pf_envSource :: "json setter"
  pf_add :: "component \<Rightarrow> 'w \<Rightarrow> go_error option \<times> 'w"

definition getenv :: "'w platform \<Rightarrow> string \<Rightarrow> string" where
  "getenv P k = mget (pf_lookupEnv P) k"

abbreviation podNamespace :: "'w platform \<Rightarrow> string" where "podNamespace P \<equiv> getenv P ''POD_NAMESPACE''"
abbreviation workloadNamespace :: "'w platform \<Rightarrow> string" where "workloadNamespace P \<equiv> getenv P ''WORKLOAD_NAMESPACE''"

definition missingRequiredEnv :: "'w platform \<Rightarrow> bool" where
  "missingRequiredEnv P \<longleftrightarrow> getenv P ''CONVEX_BASE_URL'' = [] \<or> getenv P ''OPERATOR_NAME'' = [] \<or>
     getenv P ''OPERATOR_EXTERNAL_URL'' = [] \<or> podNamespace P = [] \<or> workloadNamespace P = []"

text \<open>\<open>OPERATOR_TAGS\<close>: absent, or a comma-separated list of trimmed non-empty tags.\<close>

definition operatorTags :: "string option \<Rightarrow> string list option" where
  "operatorTags var = (case var of
     None \<Rightarrow> None
   | Some raw \<Rightarrow> Some (if raw = [] then [] else filter (\<lambda>t. t \<noteq> []) (map trim_space (split_on (CHR '','') raw))))"

text \<open>An interval variable: the default when unset or empty, otherwise whatever the duration parses to.\<close>

definition interval :: "'w platform \<Rightarrow> string \<Rightarrow> int64 \<Rightarrow> go_error + int64" where
  "interval P var dflt = (let raw = getenv P var in
     if raw = [] then Inr dflt
     else (case ParseDuration (pf_fraction P) raw of
       Inl e \<Rightarrow> Inl (ErrText (''invalid '' @ var @ '': '' @ error_text e))
     | Inr d \<Rightarrow> Inr d))"

definition apiListenAddr :: "'w platform \<Rightarrow> string" where
  "apiListenAddr P = (if getenv P ''API_LISTEN_ADDR'' = [] then '':8443'' else getenv P ''API_LISTEN_ADDR'')"

section \<open>Constructors\<close>

definition NewClientConfig :: "'w platform \<Rightarrow> string \<Rightarrow> clientConfig" where
  "NewClientConfig P secret = \<lparr>BaseURL = getenv P ''CONVEX_BASE_URL'', EnrollmentSecret = secret,
     OperatorName = getenv P ''OPERATOR_NAME'', ExternalURL = getenv P ''OPERATOR_EXTERNAL_URL'', Metadata = None,
     Version = getenv P ''OPERATOR_VERSION'', Tags = operatorTags (pf_lookupEnv P ''OPERATOR_TAGS'')\<rparr>"

definition NewRunnable :: "'w platform \<Rightarrow> 'w runnable" where
  "NewRunnable P = \<lparr>rn_lib = pf_lib P, rn_digest = pf_digest P, rn_kube = pf_kube P, rn_convex = pf_convex P,
     rn_store = podNamespace P, rn_readFile = pf_readFile P, rn_enrollmentPath = NewEnrollmentSecretWatcher [],
     rn_creator = Some (workloadNamespace P), rn_destroyer = Some (workloadNamespace P),
     rn_capacity = Some (Snapshot (pf_lib P) (pf_kube P) (workloadNamespace P)),
     rn_usage = Some (CollectUsage KSummary (pf_kube P) (pf_kubelet P) (workloadNamespace P))\<rparr>"

definition NewClientset :: "'w platform \<Rightarrow> go_error + unit" where
  "NewClientset P = (case pf_clientset P of
     Some e \<Rightarrow> Inl (Wrap ''building kubernetes clientset: '' e [])
   | None \<Rightarrow> Inr ())"

definition NewServiceProxy :: "'w platform \<Rightarrow> string \<Rightarrow> go_error + serviceProxy" where
  "NewServiceProxy P ns = (case pf_transport P of
     Some e \<Rightarrow> Inl (Wrap ''building api-server transport: '' e [])
   | None \<Rightarrow> (case pf_parseURL P (pf_host P) of
       Inl e \<Rightarrow> Inl (Wrap (''parsing api server host '' @ go_quote (pf_host P) @ '': '') e [])
     | Inr (sch, h) \<Rightarrow> Inr \<lparr>px_scheme = sch, px_host = h, px_namespace = ns\<rparr>))"

text \<open>The server, for requests that arrive while the runnable is in state \<open>s\<close>.\<close>

definition NewServer :: "'w platform \<Rightarrow> string \<Rightarrow> serviceProxy \<Rightarrow> rstate \<Rightarrow> 'w server" where
  "NewServer P key px s = \<lparr>sv_lib = pf_lib P, sv_kube = pf_kube P, sv_token = CurrentDeployToken s,
     sv_gatewaySecret = key, sv_signer = pf_signer P, sv_html = pf_html P,
     sv_verifier = (\<lambda>token ns name. op_of (Runnable_VerifyGatewayToken (NewRunnable P) s token ns name)),
     sv_exec = (\<lambda>ns pod c cmd. op_of (Executor_Exec (pf_executor P) ns pod c cmd)), sv_proxy = px, sv_creator = workloadNamespace P, sv_destroyer = workloadNamespace P,
     sv_namespace = workloadNamespace P, sv_envSource = pf_envSource P\<rparr>"

text \<open>A round of the reporter that \<open>metrics.NewReporter\<close> builds from the collector and the runnable.\<close>

definition NewReporter :: "'w platform \<Rightarrow> (string list \<Rightarrow> string list) \<Rightarrow> rstate \<Rightarrow> ('w, unit) rprog" where
  "NewReporter P order s = reportOnce (Collect KSummary order (pf_kube P) (pf_kubelet P) (workloadNamespace P))
     (Runnable_ReportMetrics (NewRunnable P) s)"

record 'w integration =
  ig_runnable :: "'w runnable"
  ig_state :: rstate
  ig_server :: "rstate \<Rightarrow> 'w server"
  ig_reporter :: "(string list \<Rightarrow> string list) \<Rightarrow> rstate \<Rightarrow> ('w, unit) rprog"
  ig_listenAddr :: string
  ig_heartbeatInterval :: int64
  ig_metricsReportInterval :: int64

section \<open>Start-up\<close>

text \<open>Go on with the value of a fallible step, or return its error.\<close>

definition andThen :: "('s, 'e + 'a) state \<Rightarrow> ('a \<Rightarrow> ('s, 'e + 'b) state) \<Rightarrow> ('s, 'e + 'b) state" where
  "andThen m k = do { r \<leftarrow> m; case r of Inl e \<Rightarrow> ret (Inl e) | Inr x \<Rightarrow> k x }"

definition wrapped :: "string \<Rightarrow> go_error + 'a \<Rightarrow> go_error + 'a" where
  "wrapped pre r = (case r of Inl e \<Rightarrow> Inl (Wrap pre e []) | Inr x \<Rightarrow> Inr x)"

definition failing :: "go_error option \<Rightarrow> go_error + unit" where
  "failing e = (case e of None \<Rightarrow> Inr () | Some err \<Rightarrow> Inl err)"

definition readEnrollment :: "'w platform \<Rightarrow> ('w, go_error + string) sprog" where
  "readEnrollment P = do {
     r \<leftarrow> ext (op_of (Current (NewRunnable P))) (\<lambda>r. Other (SEnrollment r));
     ret (case r of
       Inl e \<Rightarrow> Inl (Wrap ''reading initial enrollment secret: '' e [])
     | Inr secret \<Rightarrow> if secret = [] then Inl (ErrText ''enrollment secret file is empty'') else Inr secret)
   }"

definition loadSigningKey :: "'w platform \<Rightarrow> ('w, go_error + string) sprog" where
  "loadSigningKey P = do {
     r \<leftarrow> ext (op_of (LoadOrGenerate (pf_kube P) (pf_random P) (podNamespace P))) (\<lambda>r. Other (SSigningKey (podNamespace P) r));
     ret (wrapped ''loading or generating gateway signing key: '' r)
   }"

definition ensureWorkloadNamespace :: "'w platform \<Rightarrow> ('w, go_error + unit) sprog" where
  "ensureWorkloadNamespace P = do {
     e \<leftarrow> ext (op_of (EnsureNamespace (pf_kube P) (workloadNamespace P) :: ('w, unit, go_error option) kprog))
           (\<lambda>e. Other (SNamespace (workloadNamespace P) e));
     ret (wrapped ''ensuring workload namespace: '' (failing e))
   }"

definition mgrAdd :: "'w platform \<Rightarrow> component \<Rightarrow> ('w, go_error + unit) sprog" where
  "mgrAdd P c = do {
     e \<leftarrow> ext (pf_add P c) (\<lambda>e. Other (SAdd c e));
     ret (failing e)
   }"

text \<open>From the metrics reporter on: the runnable is built and added, the signing key and the secret are known.\<close>

definition wireApi :: "'w platform \<Rightarrow> string \<Rightarrow> string \<Rightarrow> int64 \<Rightarrow> ('w, go_error + 'w integration) sprog" where
  "wireApi P secret key heartbeatInterval =
     andThen (ret (interval P ''METRICS_REPORT_INTERVAL'' (5 * 60 * 10 ^ 9))) (\<lambda>metricsReportInterval.
     andThen (mgrAdd P MetricsReporter) (\<lambda>_.
     andThen (ret (wrapped ''building gateway service proxy: '' (NewServiceProxy P (workloadNamespace P)))) (\<lambda>px.
     andThen (ret (wrapped ''building pod executor: '' (NewExecutor (pf_executor P)))) (\<lambda>_.
     andThen (mgrAdd P OperatorApi) (\<lambda>_.
     ret (Inr \<lparr>ig_runnable = NewRunnable P,
       ig_state = \<lparr>rs_config = NewClientConfig P secret, rs_tokens = no_tokens\<rparr>,
       ig_server = NewServer P key px, ig_reporter = NewReporter P, ig_listenAddr = apiListenAddr P,
       ig_heartbeatInterval = heartbeatInterval, ig_metricsReportInterval = metricsReportInterval\<rparr>))))))"

definition setupConvexIntegration :: "'w platform \<Rightarrow> ('w, go_error + 'w integration) sprog" where
  "setupConvexIntegration P =
     (if missingRequiredEnv P then ret (Inl (ErrText (
        ''CONVEX_BASE_URL, OPERATOR_NAME, OPERATOR_EXTERNAL_URL, '' @
        ''POD_NAMESPACE, and WORKLOAD_NAMESPACE must all be set'')))
      else
        andThen (readEnrollment P) (\<lambda>secret.
        andThen (loadSigningKey P) (\<lambda>key.
        andThen (ensureWorkloadNamespace P) (\<lambda>_.
        andThen (ret (interval P ''HEARTBEAT_INTERVAL'' (30 * 10 ^ 9))) (\<lambda>heartbeatInterval.
        andThen (mgrAdd P CapacityTracker) (\<lambda>_.
        andThen (ret (wrapped ''building metrics collector: '' (NewClientset P))) (\<lambda>_.
        andThen (mgrAdd P ConvexRunnable) (\<lambda>_.
        wireApi P secret key heartbeatInterval))))))))"

section \<open>Lemmas\<close>

lemma proper_andThen [simp]: "proper m \<Longrightarrow> (\<And>x. proper (k x)) \<Longrightarrow> proper (andThen m k)"
  by (simp add: andThen_def)

lemma runs_andThen_Inr:
  assumes "\<And>x. proper (k x)"
  shows "runs (andThen m k) w (Inr y) cs w' \<longleftrightarrow>
    (\<exists>x cs1 w1 cs2. runs m w (Inr x) cs1 w1 \<and> runs (k x) w1 (Inr y) cs2 w' \<and> cs = cs1 @ cs2)"
proof -
  have p: "proper (case r of Inl e \<Rightarrow> ret (Inl e) | Inr x \<Rightarrow> k x)" for r using assms by simp
  show ?thesis unfolding andThen_def runs_bind [OF p]
    by (auto simp: runs_return split: sum.splits) (metis sum.exhaust old.sum.simps(5,6))+
qed

lemma runs_andThenE:
  assumes "runs (andThen m k) w (Inr y) cs w'" "\<And>x. proper (k x)"
  obtains x cs1 w1 cs2 where "runs m w (Inr x) cs1 w1" "runs (k x) w1 (Inr y) cs2 w'" "cs = cs1 @ cs2"
  using assms by (auto simp: runs_andThen_Inr)

lemma runs_return_Inr: "runs (ret x) w (Inr y) cs w' \<longleftrightarrow> x = Inr y \<and> cs = [] \<and> w' = w"
  by (auto simp: runs_return)

lemma runs_steps_Inr:
  "runs (readEnrollment P) w (Inr s) cs w' \<longleftrightarrow>
     op_of (Current (NewRunnable P)) w = (Inr s, w') \<and> s \<noteq> [] \<and> cs = [Other (SEnrollment (Inr s))]"
  "runs (loadSigningKey P) w (Inr key) cs w' \<longleftrightarrow>
     op_of (LoadOrGenerate (pf_kube P) (pf_random P) (podNamespace P)) w = (Inr key, w') \<and>
     cs = [Other (SSigningKey (podNamespace P) (Inr key))]"
  "runs (ensureWorkloadNamespace P) w (Inr u) cs w' \<longleftrightarrow>
     op_of (EnsureNamespace (pf_kube P) (workloadNamespace P) :: ('a, unit, go_error option) kprog) w = (None, w') \<and>
     cs = [Other (SNamespace (workloadNamespace P) None)]"
  "runs (mgrAdd P c) w (Inr u) cs w' \<longleftrightarrow> pf_add P c w = (None, w') \<and> cs = [Other (SAdd c None)]"
proof goal_cases
  case 1
  have "Inr s = (case r of
       Inl e \<Rightarrow> Inl (Wrap ''reading initial enrollment secret: '' e [])
     | Inr secret \<Rightarrow> if secret = [] then Inl (ErrText ''enrollment secret file is empty'') else Inr secret)
     \<longleftrightarrow> r = Inr s \<and> s \<noteq> []" for r by (cases r) auto
  then show ?case by (auto simp: readEnrollment_def runs_bind runs_ext runs_return)
next
  case 2
  have "Inr key = wrapped p r \<longleftrightarrow> r = Inr key" for p r by (cases r) (auto simp: wrapped_def)
  then show ?case by (auto simp: loadSigningKey_def runs_bind runs_ext runs_return)
next
  case 3
  have "Inr u = wrapped p (failing e) \<longleftrightarrow> e = None" for p e by (cases e) (auto simp: wrapped_def failing_def)
  then show ?case by (auto simp: ensureWorkloadNamespace_def runs_bind runs_ext runs_return)
next
  case 4
  have "Inr u = failing e \<longleftrightarrow> e = None" for e by (cases e) (auto simp: failing_def)
  then show ?case by (auto simp: mgrAdd_def runs_bind runs_ext runs_return)
qed

lemma proper_setup_steps [simp]:
  "proper (readEnrollment P)" "proper (loadSigningKey P)" "proper (ensureWorkloadNamespace P)" "proper (mgrAdd P c)"
  by (simp_all add: readEnrollment_def loadSigningKey_def ensureWorkloadNamespace_def mgrAdd_def)

lemma wrapped_Inr [simp]: "wrapped p r = Inr x \<longleftrightarrow> r = Inr x"
  by (cases r) (auto simp: wrapped_def)

lemma NewServiceProxy_namespace: "NewServiceProxy P ns = Inr px \<Longrightarrow> px_namespace px = ns"
  by (auto simp: NewServiceProxy_def split: option.splits sum.splits)

lemma setup_runs_Inr:
  assumes "runs (setupConvexIntegration P) w (Inr I) cs w'"
  obtains secret key px hb mr where "\<not> missingRequiredEnv P" "secret \<noteq> []" "NewServiceProxy P (workloadNamespace P) = Inr px"
    "interval P ''HEARTBEAT_INTERVAL'' (30 * 10 ^ 9) = Inr hb" "interval P ''METRICS_REPORT_INTERVAL'' (5 * 60 * 10 ^ 9) = Inr mr"
    "cs = map Other ([SEnrollment (Inr secret), SSigningKey (podNamespace P) (Inr key), SNamespace (workloadNamespace P) None] @
       map (\<lambda>c. SAdd c None) [CapacityTracker, ConvexRunnable, MetricsReporter, OperatorApi])"
    "I = \<lparr>ig_runnable = NewRunnable P, ig_state = \<lparr>rs_config = NewClientConfig P secret, rs_tokens = no_tokens\<rparr>,
          ig_server = NewServer P key px, ig_reporter = NewReporter P, ig_listenAddr = apiListenAddr P,
          ig_heartbeatInterval = hb, ig_metricsReportInterval = mr\<rparr>"
proof -
  have ok: "\<not> missingRequiredEnv P"
  proof
    assume "missingRequiredEnv P"
    with assms show False by (simp add: setupConvexIntegration_def runs_return)
  qed
  from assms [unfolded setupConvexIntegration_def wireApi_def if_not_P [OF ok]] show thesis
    apply (elim runs_andThenE)
    apply simp_all
    apply (clarsimp simp: runs_steps_Inr runs_return_Inr)
    apply (rule that [OF ok, rotated 5])
         apply (assumption | rule refl)
        apply assumption
       apply assumption
      apply simp_all
    done
qed

text \<open>The call that puts the API on the network, and programs that fail without having made it.\<close>

definition api_added :: "scall call" where
  "api_added = Other (SAdd OperatorApi None)"

definition fails_closed :: "('w, go_error + 'a) sprog \<Rightarrow> bool" where
  "fails_closed m \<longleftrightarrow> (\<forall>w e cs w'. runs m w (Inl e) cs w' \<longrightarrow> api_added \<notin> set cs)"

lemma fails_closed_andThen:
  assumes "emits (\<lambda>c. c \<noteq> api_added) m" "\<And>x. fails_closed (k x)" "\<And>x. proper (k x)"
  shows "fails_closed (andThen m k)"
  unfolding fails_closed_def
proof (intro allI impI)
  fix w e cs w'
  assume "runs (andThen m k) w (Inl e) cs w'"
  then obtain r cs1 w1 cs2 where m: "runs m w r cs1 w1" and cs: "cs = cs1 @ cs2"
    and rest: "runs (case r of Inl e \<Rightarrow> ret (Inl e) | Inr x \<Rightarrow> k x) w1 (Inl e) cs2 w'"
    unfolding andThen_def by (rule runs_bindE) (simp add: assms(3))
  from emits_runs [OF assms(1) m] have "api_added \<notin> set cs1" by (auto simp: list_all_iff)
  moreover have "api_added \<notin> set cs2"
  proof (cases r)
    case (Inr x)
    with rest assms(2) [of x] show ?thesis by (auto simp only: fails_closed_def sum.case)
  qed (use rest in \<open>simp add: runs_return\<close>)
  ultimately show "api_added \<notin> set cs" by (simp add: cs)
qed

lemma emits_steps:
  "emits (\<lambda>c. c \<noteq> api_added) (readEnrollment P)" "emits (\<lambda>c. c \<noteq> api_added) (loadSigningKey P)"
  "emits (\<lambda>c. c \<noteq> api_added) (ensureWorkloadNamespace P)"
  "c \<noteq> OperatorApi \<Longrightarrow> emits (\<lambda>c. c \<noteq> api_added) (mgrAdd P c)"
  by (auto simp: readEnrollment_def loadSigningKey_def ensureWorkloadNamespace_def mgrAdd_def api_added_def
      intro!: emits_intros)

lemma fails_closed_ret: "fails_closed (ret x)"
  by (simp add: fails_closed_def runs_return)

lemma fails_closed_last: "fails_closed (andThen (mgrAdd P OperatorApi) (\<lambda>_. ret (Inr x)))"
  unfolding fails_closed_def
proof (intro allI impI)
  fix w e cs w'
  assume "runs (andThen (mgrAdd P OperatorApi) (\<lambda>_. ret (Inr x))) w (Inl e) cs w'"
  then obtain r cs1 w1 cs2 where m: "runs (mgrAdd P OperatorApi) w r cs1 w1" and cs: "cs = cs1 @ cs2"
    and rest: "runs (case r of Inl e \<Rightarrow> ret (Inl e) | Inr _ \<Rightarrow> ret (Inr x)) w1 (Inl e) cs2 w'"
    unfolding andThen_def by (rule runs_bindE) simp
  from rest have "r = Inl e" "cs2 = []" by (cases r; simp add: runs_return)+
  with m cs show "api_added \<notin> set cs"
    by (auto simp: mgrAdd_def runs_bind runs_ext runs_return api_added_def failing_def)
qed

lemma setup_fails_closed: "fails_closed (setupConvexIntegration P)"
  unfolding setupConvexIntegration_def wireApi_def
  by (intro fails_closed_andThen fails_closed_last emits_steps emits_return fails_closed_ret impI
      if_split [where P = fails_closed, THEN iffD2] conjI) simp_all

section \<open>Properties\<close>

text \<open>
  The namespace a call addresses: Workloads, Deployments, Services and pods are looked for in \<open>ns\<close> and
  created there, Secrets in \<open>own\<close>; a call of the package's own kind satisfies \<open>oth\<close>. A write back of an
  object that was read carries the namespace it came with.
\<close>

definition inside :: "string \<Rightarrow> string \<Rightarrow> ('n \<Rightarrow> bool) \<Rightarrow> 'n call \<Rightarrow> bool" where
  "inside ns own oth c = (case c of
     CGetWorkload a _ _ \<Rightarrow> a = ns | CCreateWorkload x _ \<Rightarrow> w_namespace x = ns | CDeleteWorkload a _ _ \<Rightarrow> a = ns
   | CApplyWorkload a _ _ _ \<Rightarrow> a = ns | CGetDeployment a _ _ \<Rightarrow> a = ns | CApplyDeployment a _ _ _ \<Rightarrow> a = ns
   | CApplyService a _ _ _ \<Rightarrow> a = ns | CGetService a _ _ \<Rightarrow> a = ns | CListPods a _ _ \<Rightarrow> a = ns
   | CListDeployments a _ _ \<Rightarrow> a = ns | CGetSecret a _ _ \<Rightarrow> a = own | CCreateSecret x _ \<Rightarrow> sec_namespace x = own
   | Other m \<Rightarrow> oth m | _ \<Rightarrow> True)"

lemma inside_post [emits_intros]: "emits (inside ns own (\<lambda>_. True)) (post C url what t v)"
  by (rule emits_post [THEN emits_mono]) (auto simp: sends_def inside_def)

lemma inside_store [emits_intros]:
  "emits (inside ns own oth) (Load K own)" "emits (inside ns own oth) (Save K own t)"
  unfolding Load_def Save_def kube_ops by (intro emits_intros; simp add: inside_def)+

lemma inside_provisioning [emits_intros]:
  "emits (inside ns own oth) (Create L K ns wid tn uid sub cfg)" "emits (inside ns own oth) (Redeploy L K ns n cfg)"
  "emits (inside ns own oth) (SetSuspended K ns n b)" "emits (inside ns own oth) (Destroy K ns n)"
  unfolding Create_def Redeploy_def SetSuspended_def Destroy_def kube_ops by (intro emits_intros; simp add: inside_def)+

lemma inside_fetch [emits_intros]: "emits (inside ns own (\<lambda>_. True)) (fetchNodeSummary emb Q n)"
  by (rule emits_fetch [THEN emits_mono]) (auto simp: inside_def)

lemma inside_nodes [emits_intros]:
  "emits (inside ns own (\<lambda>_. True)) (collectNodes emb Q t pods nodes xs)"
  "emits (inside ns own (\<lambda>_. True)) (usageNodes emb Q pods nodes' x)"
  by (induction nodes arbitrary: xs, auto intro!: emits_intros, induction nodes' arbitrary: x, auto intro!: emits_intros)

lemma inside_sources [emits_intros]:
  "emits (inside ns own (\<lambda>_. True)) (Snapshot L K ns)" "emits (inside ns own (\<lambda>_. True)) (CollectUsage emb K Q ns)"
  "emits (inside ns own (\<lambda>_. True)) (Collect emb order K Q ns)"
  unfolding Snapshot_def CollectUsage_def Collect_def kube_ops Let_def by (intro emits_intros; simp add: inside_def)+

lemma inside_register [emits_intros]:
  "rn_store R = own \<Longrightarrow> emits (inside ns own (\<lambda>_. True)) (register R s)"
  unfolding register_def Client_Register_def Let_def by (auto intro!: emits_intros)

lemma inside_claimAll [emits_intros]: "emits (inside ns own (\<lambda>_. True)) (claimAll R ns c t items snap)"
  by (induction R ns c t items snap rule: claimAll.induct)
     (auto simp: claimOne_def createClaimed_def reportFailed_def client_ops intro!: emits_intros)

lemma inside_pendingOne [emits_intros]:
  assumes "rn_creator R = Some ns" "rn_destroyer R = Some ns"
  shows "emits (inside ns own (\<lambda>_. True)) (pendingOne R c t item)"
  unfolding pendingOne_def runOperation_def reportOn_def reportFailed_def client_ops assms option.case
  by (intro emits_intros)

lemma inside_heartbeat:
  "emits (inside (workloadNamespace P) (podNamespace P) (\<lambda>_. True)) (heartbeatOnce (NewRunnable P) s)"
proof -
  have R: "rn_capacity (NewRunnable P) = Some (Snapshot (pf_lib P) (pf_kube P) (workloadNamespace P))"
    "rn_usage (NewRunnable P) = Some (CollectUsage KSummary (pf_kube P) (pf_kubelet P) (workloadNamespace P))"
    "rn_creator (NewRunnable P) = Some (workloadNamespace P)" "rn_destroyer (NewRunnable P) = Some (workloadNamespace P)"
    "rn_store (NewRunnable P) = podNamespace P"
    by (simp_all add: NewRunnable_def)
  show ?thesis
    unfolding heartbeatOnce_def reading_def Client_Heartbeat_def afterHeartbeat_def processClaimable_def
      processPendingOperations_def Let_def R option.case
    by (intro emits_intros R)
qed

lemma inside_reporter: "emits (inside (workloadNamespace P) (podNamespace P) (\<lambda>_. True)) (NewReporter P order s)"
  unfolding NewReporter_def reportOnce_def Runnable_ReportMetrics_def Client_ReportMetrics_def by (intro emits_intros)

text \<open>Convex is asked about a token for a workload in that namespace.\<close>

fun verifies_in :: "string \<Rightarrow> gcall \<Rightarrow> bool" where
  "verifies_in ns (GConvexVerify token a name v) = (a = ns)"
| "verifies_in ns _ = True"

lemma inside_interaction [emits_intros]: "emits (inside ns own (verifies_in ns)) (runInteraction S i)"
  by (induction i) (auto simp: now_def inside_def intro!: emits_intros)

lemma inside_serve:
  assumes "px_namespace px = workloadNamespace P"
  shows "emits (inside (workloadNamespace P) own (verifies_in (workloadNamespace P))) (serve (NewServer P key px s) auth bdy r)"
proof -
  let ?S = "NewServer P key px s" and ?in = "inside (workloadNamespace P) own (verifies_in (workloadNamespace P))"
  have S: "sv_namespace ?S = workloadNamespace P" "sv_creator ?S = workloadNamespace P" "sv_destroyer ?S = workloadNamespace P"
    "sv_proxy ?S = px" by (simp_all add: NewServer_def)
  have "emits ?in (handleDeploy ?S bdy)" "emits ?in (handleGet ?S n)" "emits ?in (handleDelete ?S n)" for n
    unfolding handleDeploy_def deployTemplate_def deployImage_def handleGet_def handleDelete_def S kube_ops
    by (intro emits_intros; simp add: inside_def)+
  moreover have "emits ?in (handleRunFunction ?S n k bdy)" for n k
    unfolding handleRunFunction_def runOn_def FindPod_def S kube_ops by (intro emits_intros) (simp_all add: inside_def)
  moreover have "emits ?in (requireGatewayToken ?S q (Handler (sv_lib ?S) (sv_html ?S) px (sv_kube ?S) q))" for q
    unfolding requireGatewayToken_def exchangeToken_def Verify_def Handler_def serveService_def Let_def S assms kube_ops
    by (intro emits_intros) (simp_all add: inside_def)
  ultimately show ?thesis
    unfolding serve_def requireDeployToken_def S by (cases r) (auto intro!: emits_intros)
qed


text \<open>C25: An interval variable made of numbers with units, such as \<open>1h30m\<close>, sets exactly the sum of its
  parts in nanoseconds when that fits in an int64, and stops start-up with an error that names the
  variable and quotes its value when it does not; the default has no influence.\<close>

theorem interval_exact:
  assumes "getenv P var = duration_text segs" "segments_fit segs" "segs \<noteq> []"
  shows "interval P var dflt =
    (if total_nanoseconds segs < 2 ^ 63 then Inr (of_nat (total_nanoseconds segs))
     else Inl (ErrText (''invalid '' @ var @ '': time: invalid duration '' @ time_quote (duration_text segs))))"
proof -
  have "duration_text segs \<noteq> []" using assms(3) by (cases segs) auto
  with parse_duration_text [OF assms(2,3), of "pf_fraction P"] show ?thesis
    by (simp add: interval_def assms(1) Let_def ParseDuration_def)
qed

lemma api_added_iff_started:
  assumes "runs (setupConvexIntegration P) w r cs w'"
  shows "Other (SAdd OperatorApi None) \<in> set cs \<longleftrightarrow> (\<exists>I. r = Inr I)"
proof (cases r)
  case (Inl e)
  with assms setup_fails_closed [of P] show ?thesis by (auto simp: fails_closed_def api_added_def)
next
  case (Inr I)
  with assms have "runs (setupConvexIntegration P) w (Inr I) cs w'" by simp
  then show ?thesis by (rule setup_runs_Inr) (simp add: Inr)
qed

section \<open>Tags\<close>

lemma split_on_join: "ts \<noteq> [] \<Longrightarrow> list_all (\<lambda>t. c \<notin> set t) ts \<Longrightarrow> split_on c (join [c] ts) = ts"
  by (induction "[c]" ts rule: join.induct) (auto simp: split_on_clean split_on_append)

definition clean_tags :: "string list \<Rightarrow> bool" where
  "clean_tags ts \<longleftrightarrow> list_all (\<lambda>t. t \<noteq> [] \<and> CHR '','' \<notin> set t) ts"

lemma operatorTags_clean: "operatorTags v = Some ts \<Longrightarrow> clean_tags ts"
  using set_trim_space split_on_no_sep
  by (fastforce simp: operatorTags_def clean_tags_def list_all_iff split: option.splits if_splits)

lemma join_eq_Nil: "clean_tags ts \<Longrightarrow> join '','' ts = [] \<longleftrightarrow> ts = []"
  by (cases "('','', ts)" rule: join.cases) (auto simp: clean_tags_def)

lemma join_injective:
  assumes "clean_tags ts" "clean_tags us" "join '','' ts = join '','' us"
  shows "ts = us"
proof (cases "ts = [] \<or> us = []")
  case True
  with assms join_eq_Nil [of ts] join_eq_Nil [of us] show ?thesis by auto
next
  case False
  have "split_on (CHR '','') (join '','' ts) = ts" "split_on (CHR '','') (join '','' us) = us"
    using False assms(1,2) by (auto simp: clean_tags_def list_all_iff intro!: split_on_join)
  with assms(3) show ?thesis by metis
qed

text \<open>C29: A change of the reported tags is always noticed: the fingerprints of two configurations agree
  exactly when both leave \<open>OPERATOR_TAGS\<close> unset or both set it to the same list of tags. Unset and
  empty differ, and no two lists share a fingerprint.\<close>

theorem tags_fingerprint_exact:
  "Client_TagsFingerprint (NewClientConfig P secret) = Client_TagsFingerprint (NewClientConfig P' secret') \<longleftrightarrow>
   operatorTags (pf_lookupEnv P ''OPERATOR_TAGS'') = operatorTags (pf_lookupEnv P' ''OPERATOR_TAGS'')"
proof -
  have fp: "Client_TagsFingerprint (NewClientConfig P secret) = (case operatorTags (pf_lookupEnv P ''OPERATOR_TAGS'') of
      None \<Rightarrow> ''unset'' | Some ts \<Rightarrow> ''set:'' @ join '','' ts)" for P :: "'x platform" and secret
    by (simp add: Client_TagsFingerprint_def NewClientConfig_def tagsFingerprintUnset_def cong: option.case_cong)
  show ?thesis
    using join_injective [OF operatorTags_clean operatorTags_clean] unfolding fp
    by (cases "operatorTags (pf_lookupEnv P ''OPERATOR_TAGS'')"; cases "operatorTags (pf_lookupEnv P' ''OPERATOR_TAGS'')") auto
qed

section \<open>Witnesses\<close>

definition demo_platform :: "nat platform" where
  "demo_platform = \<lparr>pf_lookupEnv = [''CONVEX_BASE_URL'' \<mapsto> ''https://c'', ''OPERATOR_NAME'' \<mapsto> ''op'',
       ''OPERATOR_EXTERNAL_URL'' \<mapsto> ''https://o'', ''POD_NAMESPACE'' \<mapsto> ''system'', ''WORKLOAD_NAMESPACE'' \<mapsto> ''ns''],
     pf_fraction = (\<lambda>f unit k. of_nat (unat f * unit div 10 ^ k)), pf_lib = demo_lib, pf_digest = (\<lambda>s. ''h''), pf_kube = demo_kube,
     pf_kubelet = \<lparr>kl_summary = (\<lambda>n. answer (Inl (ErrText n))), kl_jsonError = (\<lambda>s. ErrText s)\<rparr>,
     pf_convex = demo_convex 200, pf_readFile = (\<lambda>path. answer (Inr ''secret'')),
     pf_random = (\<lambda>n. answer (Inr (replicate n (CHR ''k'')))), pf_clientset = None, pf_transport = None,
     pf_host = ''api'', pf_parseURL = (\<lambda>s. Inr (''https'', s)), pf_signer = demo_signer, pf_html = (\<lambda>d. Inr []),
     pf_executor = \<lparr>ex_clientset = None, ex_newSPDY = (\<lambda>r. None), ex_stream = (\<lambda>r. answer ([], [], None))\<rparr>, 
     pf_envSource = (\<lambda>v e. Some v), pf_add = (\<lambda>c. answer None)\<rparr>"

lemma op_of_runs: "runs m w a cs w' \<Longrightarrow> op_of m w = (a, w')"
  by (simp add: runs_def op_of_def)

lemma demo_setup_steps:
  "op_of (Current (NewRunnable demo_platform)) 0 = (Inr ''secret'', 0)"
  "op_of (LoadOrGenerate demo_kube (\<lambda>n. answer (Inr (replicate n (CHR ''k'')))) ''system'') 0 = (Inr (replicate 32 (CHR ''k'')), 0)"
  "op_of (EnsureNamespace demo_kube ''ns'' :: (nat, unit, go_error option) kprog) 0 = (None, 0)"
proof goal_cases
  case 1
  show ?case by (rule op_of_runs) (simp add: Current_def NewRunnable_def demo_platform_def runs_rules answer_def)
next
  case 2
  show ?case by (rule op_of_runs)
    (simp add: LoadOrGenerate_def generateKey_def signingKeyBytes_def runs_rules demo_kube_simps IsNotFound_def)
next
  case 3
  show ?case by (rule op_of_runs) (simp add: EnsureNamespace_def runs_rules demo_kube_simps)
qed

lemma demo_setup: "\<exists>I cs w'. runs (setupConvexIntegration demo_platform) 0 (Inr I) cs w'"
proof -
  have env: "getenv demo_platform ''POD_NAMESPACE'' = ''system''" "getenv demo_platform ''WORKLOAD_NAMESPACE'' = ''ns''"
    "getenv demo_platform ''HEARTBEAT_INTERVAL'' = []" "getenv demo_platform ''METRICS_REPORT_INTERVAL'' = []"
    "\<not> missingRequiredEnv demo_platform"
    by (simp_all add: getenv_def demo_platform_def missingRequiredEnv_def mget_def)
  have pf: "pf_kube demo_platform = demo_kube" "pf_random demo_platform = (\<lambda>n. answer (Inr (replicate n (CHR ''k''))))"
    "NewClientset demo_platform = Inr ()" "NewExecutor (pf_executor demo_platform) = Inr (pf_executor demo_platform)" "pf_add demo_platform c w = (None, w)"
    "NewServiceProxy demo_platform ns = Inr \<lparr>px_scheme = ''https'', px_host = ''api'', px_namespace = ns\<rparr>" for c ns and w :: nat
    by (simp_all add: demo_platform_def NewClientset_def NewExecutor_def NewServiceProxy_def answer_def)
  show ?thesis unfolding setupConvexIntegration_def wireApi_def
    by (simp add: env runs_andThen_Inr runs_steps_Inr runs_return_Inr pf demo_setup_steps interval_def)
qed


theorem interval_exact_witness:
  "interval (demo_platform\<lparr>pf_lookupEnv := [''HEARTBEAT_INTERVAL'' \<mapsto> ''1h30m'']\<rparr>) ''HEARTBEAT_INTERVAL'' 0 = Inr (5400 * 10 ^ 9)"
proof -
  let ?P = "demo_platform\<lparr>pf_lookupEnv := [''HEARTBEAT_INTERVAL'' \<mapsto> ''1h30m'']\<rparr>" and ?segs = "[(1, ''h''), (30, ''m'')]"
  have form: "duration_text ?segs = ''1h30m''" by code_simp
  have env: "getenv ?P ''HEARTBEAT_INTERVAL'' = duration_text ?segs" unfolding form by (simp add: getenv_def mget_def)
  have fit: "segments_fit ?segs" by (simp add: segments_fit_def nanoseconds_def unitMap_def)
  have "total_nanoseconds ?segs = 5400 * 10 ^ 9" by (simp add: nanoseconds_def unitMap_def)
  with interval_exact [OF env fit, of 0] show ?thesis by (simp del: duration_text_simps One_nat_def)
qed

end
