(* ===== verification/System.thy ===== *)
theory System
  imports Setup
begin

text \<open>
  The credentials of the running operator as a state machine. A state is the runnable's state with the
  history of the calls that the claim loop and the reporter made so far. The tokens are written in one
  place, at the end of \<open>register\<close>, which is the last act of a heartbeat or of a check of the
  enrollment secret; so whatever runs beside such a step reads the tokens from before it, and a
  heartbeat, a check and a report can be taken as steps. The reconciler and the API server read the
  tokens and leave the runnable as it is; for this machine they are part of the world, which may change
  in any way between two calls and between two steps.
\<close>

section \<open>The step relation\<close>

inductive operating :: "'w platform \<Rightarrow> rstate \<Rightarrow> rcall call list \<Rightarrow> 'w \<Rightarrow> bool" for P :: "'w platform" where
  booted: "secret \<noteq> [] \<Longrightarrow>
     runs (loadOrRegister (NewRunnable P) \<lparr>rs_config = NewClientConfig P secret, rs_tokens = no_tokens\<rparr>) w (None, s) cs w' \<Longrightarrow>
     operating P s cs w'"
| beaten: "operating P s cs w \<Longrightarrow> runs (heartbeatOnce (NewRunnable P) s) w s' ds w' \<Longrightarrow> operating P s' (cs @ ds) w'"
| checked: "operating P s cs w \<Longrightarrow> runs (checkEnrollmentSecret (NewRunnable P) s) w s' ds w' \<Longrightarrow> operating P s' (cs @ ds) w'"
| measured: "operating P s cs w \<Longrightarrow> runs (NewReporter P order s) w u ds w' \<Longrightarrow> operating P s (cs @ ds) w'"
| elapsed: "operating P s cs w \<Longrightarrow> operating P s cs w'"

section \<open>What a step does to the credentials\<close>

text \<open>
  \<open>renews R s s' ds\<close>: going from \<open>s\<close> to \<open>s'\<close> with the calls \<open>ds\<close>, the tokens were kept, or replaced
  by current ones that were saved; the configuration changed at most in its enrollment secret, and
  that did not become empty.
\<close>

definition same_identity :: "clientConfig \<Rightarrow> clientConfig \<Rightarrow> bool" where
  "same_identity c c' \<longleftrightarrow> Version c' = Version c \<and> Tags c' = Tags c \<and> BaseURL c' = BaseURL c"

definition renews :: "'w runnable \<Rightarrow> rstate \<Rightarrow> rstate \<Rightarrow> rcall call list \<Rightarrow> bool" where
  "renews R s s' ds \<longleftrightarrow> same_identity (rs_config s) (rs_config s') \<and>
     (EnrollmentSecret (rs_config s) \<noteq> [] \<longrightarrow> EnrollmentSecret (rs_config s') \<noteq> []) \<and>
     (rs_tokens s' = rs_tokens s \<or>
      unchanged R (rs_config s') (rs_tokens s') \<and> (\<exists>c \<in> set ds. saved (rs_tokens s') c))"

lemma same_identity_unchanged: "same_identity c c' \<Longrightarrow> unchanged R c' t \<longleftrightarrow> unchanged R c t"
  by (simp add: same_identity_def unchanged_def Client_TagsFingerprint_def)

lemma renews_refl [simp]: "renews R s s ds"
  by (simp add: renews_def same_identity_def)

lemma renews_more: "renews R s s' ds \<Longrightarrow> renews R s s' (cs @ ds)"
  by (auto simp: renews_def)

lemma renews_trans:
  assumes "renews R s s1 cs" "renews R s1 s2 ds"
  shows "renews R s s2 (cs @ ds)"
proof -
  have id: "same_identity (rs_config s) (rs_config s2)" "same_identity (rs_config s1) (rs_config s2)"
    using assms by (simp_all add: renews_def same_identity_def)
  have eq: "unchanged R (rs_config s2) (rs_tokens s1) = unchanged R (rs_config s1) (rs_tokens s1)"
    by (rule same_identity_unchanged [OF id(2)])
  have "rs_tokens s2 = rs_tokens s \<or>
      unchanged R (rs_config s2) (rs_tokens s2) \<and> (\<exists>c \<in> set (cs @ ds). saved (rs_tokens s2) c)"
  proof (cases "rs_tokens s2 = rs_tokens s1")
    case True
    with assms(1) eq show ?thesis by (auto simp: renews_def)
  next
    case False
    with assms(2) show ?thesis by (auto simp: renews_def)
  qed
  with assms id(1) show ?thesis by (simp add: renews_def)
qed

lemma renews_bind:
  assumes "runs (m \<bind> f) w s' cs w'" "\<And>a. proper (f a)"
    and "\<And>a w1 ds. runs (f a) w1 s' ds w' \<Longrightarrow> renews R s s' ds"
  shows "renews R s s' cs"
proof -
  from assms(1,2) obtain a cs1 w1 cs2 where "cs = cs1 @ cs2" "runs (f a) w1 s' cs2 w'" by (rule runs_bindE)
  with assms(3) show ?thesis by (simp add: renews_more)
qed

lemma register_renews: "runs (register R s) w (e, s') cs w' \<Longrightarrow> renews R s s' cs"
  by (cases e) (drule register_runs; auto simp: renews_def same_identity_def)+

lemma afterHeartbeat_renews:
  assumes "runs (afterHeartbeat R s token snap h) w s' cs w'"
  shows "renews R s s' cs"
proof (cases h)
  case (Inl e)
  show ?thesis
  proof (cases "e = Sentinel ErrUnauthorized")
    case True
    with assms Inl obtain e' where "runs (register R s) w (e', s') cs w'"
      by (auto simp: afterHeartbeat_def runs_bind runs_return)
    then show ?thesis by (rule register_renews)
  qed (use assms Inl in \<open>simp add: afterHeartbeat_def runs_return\<close>)
next
  case (Inr x)
  with assms have "s' = s" by (cases x) (auto simp: afterHeartbeat_def runs_bind runs_return)
  then show ?thesis by simp
qed

lemma NewRunnable_sources: "sources (NewRunnable P)"
  by (simp add: sources_def NewRunnable_def capacity_source.reading_source_axioms usage_source.reading_source_axioms)

lemma heartbeatOnce_renews:
  assumes "sources R" "runs (heartbeatOnce R s) w s' cs w'"
  shows "renews R s s' cs"
proof -
  note [simp] = sources_reading(1,2) [OF assms(1)]
  from assms(2) show ?thesis unfolding heartbeatOnce_def Let_def
    by (elim renews_bind) (simp_all add: proper_afterHeartbeat afterHeartbeat_renews)
qed

lemma checkEnrollmentSecret_renews:
  assumes "runs (checkEnrollmentSecret R s) w s' cs w'"
  shows "renews R s s' cs"
proof -
  from assms obtain r rs w1 ds where "runs (Current R) w r rs w1" and cs: "cs = rs @ ds" and rest: "runs (case r of
       Inl _ \<Rightarrow> ret s
     | Inr cur \<Rightarrow>
         if cur = [] \<or> cur = EnrollmentSecret (rs_config s) then ret s
         else do {
           (e, s') \<leftarrow> register R (s\<lparr>rs_config := (rs_config s)\<lparr>EnrollmentSecret := cur\<rparr>\<rparr>);
           ret s'
         }) w1 s' ds w'"
    unfolding checkEnrollmentSecret_def by (rule runs_bindE) simp_all
  consider "s' = s" | cur e where "cur \<noteq> []"
    "runs (register R (s\<lparr>rs_config := (rs_config s)\<lparr>EnrollmentSecret := cur\<rparr>\<rparr>)) w1 (e, s') ds w'"
    using rest by (cases r) (auto simp: runs_bind runs_return split: if_splits)
  then show ?thesis
  proof cases
    case (2 cur e)
    have "renews R s (s\<lparr>rs_config := (rs_config s)\<lparr>EnrollmentSecret := cur\<rparr>\<rparr>) rs"
      using 2(1) by (simp add: renews_def same_identity_def)
    from renews_trans [OF this register_renews [OF 2(2)]] show ?thesis by (simp add: cs)
  qed simp
qed

lemma tick_renews:
  assumes "sources R" "runs (tick R s) w s' cs w'"
  shows "renews R s s' cs"
proof -
  from assms(2) obtain s1 cs1 w1 cs2 where h: "runs (heartbeatOnce R s) w s1 cs1 w1" and cs: "cs = cs1 @ cs2"
    and c: "runs (checkEnrollmentSecret R s1) w1 s' cs2 w'"
    unfolding tick_def by (rule runs_bindE) simp_all
  from renews_trans [OF heartbeatOnce_renews [OF assms(1) h] checkEnrollmentSecret_renews [OF c]] show ?thesis
    by (simp add: cs)
qed

section \<open>Current credentials\<close>

text \<open>The credentials were issued to this operator as it runs now: same catalog, same version, same tags.\<close>

definition current :: "'w platform \<Rightarrow> tokens \<Rightarrow> bool" where
  "current P t \<longleftrightarrow> CatalogHash t = Hash (pf_digest P) (pf_lib P) \<and> OperatorVersion t = getenv P ''OPERATOR_VERSION'' \<and>
     TagsFingerprint t = (case operatorTags (pf_lookupEnv P ''OPERATOR_TAGS'') of
       None \<Rightarrow> ''unset'' | Some ts \<Rightarrow> ''set:'' @ join '','' ts)"

lemma unchanged_current:
  "same_identity (NewClientConfig P secret) c \<Longrightarrow> unchanged (NewRunnable P) c t \<longleftrightarrow> current P t"
  by (auto simp: same_identity_def unchanged_def current_def catalogHash_def NewRunnable_def NewClientConfig_def
      Client_TagsFingerprint_def tagsFingerprintUnset_def cong: option.case_cong)

section \<open>Where credentials come from\<close>

text \<open>The tokens were saved by a call of the history, or read from the store.\<close>

definition held :: "'w platform \<Rightarrow> tokens \<Rightarrow> rcall call list \<Rightarrow> bool" where
  "held P t cs \<longleftrightarrow> (\<exists>c \<in> set cs. saved t c) \<or>
     (\<exists>x. CGetSecret (podNamespace P) SecretName (Inr x) \<in> set cs \<and> tokens_of_data (sec_data x) = t)"

text \<open>They were saved, or loaded from the store and accepted by Convex.\<close>

definition backed :: "'w platform \<Rightarrow> tokens \<Rightarrow> rcall call list \<Rightarrow> bool" where
  "backed P t cs \<longleftrightarrow> (\<exists>c \<in> set cs. saved t c) \<or>
     (\<exists>x. CGetSecret (podNamespace P) SecretName (Inr x) \<in> set cs \<and> tokens_of_data (sec_data x) = t) \<and>
     (\<exists>c \<in> set cs. accepted_heartbeat (HeartbeatToken t) c)"

lemma backed_more: "backed P t cs \<Longrightarrow> backed P t (cs @ ds)"
  by (auto simp: backed_def)

lemma backed_held: "backed P t cs \<Longrightarrow> held P t cs"
  by (auto simp: backed_def held_def)

text \<open>What a request to Convex may carry after the calls \<open>known\<close>: a registration no token, and every other
  request the heartbeat token of credentials saved or read before.\<close>

definition presents :: "'w platform \<Rightarrow> rcall call list \<Rightarrow> rcall call \<Rightarrow> bool" where
  "presents P known c = (case c of
     Other (HDo rq v _) \<Rightarrow> (case v of
       WRegister _ \<Rightarrow> rq_headers rq ''Authorization'' = None
     | _ \<Rightarrow> \<exists>t. rq_headers rq ''Authorization'' = Some (''Bearer '' @ HeartbeatToken t) \<and> held P t known)
   | _ \<Rightarrow> True)"

definition presents_all :: "'w platform \<Rightarrow> rcall call list \<Rightarrow> bool" where
  "presents_all P cs \<longleftrightarrow> (\<forall>i < length cs. presents P (take i cs) (cs ! i))"

lemma presents_mono: "presents P known c \<Longrightarrow> set known \<subseteq> set known' \<Longrightarrow> presents P known' c"
proof (cases c)
  case (Other m)
  assume "presents P known c" "set known \<subseteq> set known'"
  moreover have "held P t known \<Longrightarrow> held P t known'" if "set known \<subseteq> set known'" for t
    using that by (auto simp: held_def)
  ultimately show ?thesis using Other by (cases m) (auto simp: presents_def split: wire.splits)
qed (simp_all add: presents_def)

lemma presents_append:
  assumes "presents_all P cs" "list_all (presents P cs) ds"
  shows "presents_all P (cs @ ds)"
  unfolding presents_all_def
proof (intro allI impI)
  fix i
  assume i: "i < length (cs @ ds)"
  show "presents P (take i (cs @ ds)) ((cs @ ds) ! i)"
  proof (cases "i < length cs")
    case True
    with assms(1) show ?thesis by (simp add: presents_all_def nth_append)
  next
    case False
    with i assms(2) have "presents P cs (ds ! (i - length cs))" by (simp add: list_all_length)
    with False show ?thesis by (auto simp: nth_append elim: presents_mono)
  qed
qed

lemma bearer_presents: "bearer (HeartbeatToken t) c \<Longrightarrow> held P t cs \<Longrightarrow> presents P cs c"
  by (auto simp: bearer_def presents_def split: call.splits rcall.splits wire.splits)

lemma register_presents: "emits (presents P cs) (register R s)"
  unfolding register_def Let_def
  by (intro emits_intros emits_client(1) [THEN emits_mono] emits_tokens(2) [THEN emits_mono])
     (auto simp: presents_def sends_def post_request_def posts_def split: call.splits rcall.splits)

lemma check_presents: "emits (presents P cs) (checkEnrollmentSecret R s)"
  unfolding checkEnrollmentSecret_def Current_def by (intro emits_intros register_presents) (simp add: presents_def)

lemma reporter_bearer: "emits (bearer (HeartbeatToken (rs_tokens s))) (NewReporter P order s)"
proof -
  let ?b = "bearer (HeartbeatToken (rs_tokens s))"
  have "emits ?b (collectNodes KSummary Q t pods ns xs)" for Q t pods ns xs
    by (induction ns arbitrary: xs)
       (auto simp: bearer_def intro!: emits_intros emits_fetch [THEN emits_mono])
  then have "emits ?b (Collect KSummary order (pf_kube P) (pf_kubelet P) (workloadNamespace P))"
    unfolding Collect_def kube_ops by (intro emits_intros) (simp_all add: bearer_def)
  moreover have "emits ?b (Client_ReportMetrics C c (HeartbeatToken (rs_tokens s)) xs)" for C c xs
    unfolding Client_ReportMetrics_def
    by (intro emits_intros(1-5) emits_post [THEN emits_mono]) (auto intro: bearer_sends(1))
  ultimately show ?thesis unfolding NewReporter_def reportOnce_def Runnable_ReportMetrics_def
    by (intro emits_intros)
qed

lemma boot_presents:
  assumes "runs (loadOrRegister R s) w r cs w'" "rn_store R = podNamespace P"
  shows "presents_all P cs"
proof -
  from assms(1) obtain l ls w1 ds where L: "runs (Load (rn_kube R) (rn_store R)) w l ls w1" and cs: "cs = ls @ ds"
    and rest: "runs (case l of
       Inl _ \<Rightarrow> register R s
     | Inr None \<Rightarrow> register R s
     | Inr (Some t) \<Rightarrow> do {
         h \<leftarrow> Client_Heartbeat (rn_convex R) (rs_config s) (HeartbeatToken t) None None;
         case h of
           Inl _ \<Rightarrow> register R s
         | Inr _ \<Rightarrow>
             if unchanged R (rs_config s) t then ret (None, s\<lparr>rs_tokens := t\<rparr>)
             else register R s
       }) w1 r ds w'"
    unfolding loadOrRegister_def by (rule runs_bindE) simp_all
  have "list_all (presents P []) ls"
    by (rule list.pred_mono_strong [OF emits_runs [OF emits_tokens(1) L]])
       (auto simp: presents_def posts_def split: call.splits rcall.splits)
  then have ls: "presents_all P ls" using presents_append [of P "[]" ls] by (simp add: presents_all_def)
  have "held P t ls" if "l = Inr (Some t)" for t
    using Load_Some [OF L [unfolded that]] assms(2) by (auto simp: held_def)
  then have "emits (presents P ls) (Client_Heartbeat (rn_convex R) (rs_config s) (HeartbeatToken t) None None)"
    if "l = Inr (Some t)" for t
    using that by (intro emits_heartbeat [THEN emits_mono]) (auto intro: bearer_presents)
  then have "list_all (presents P ls) ds"
    by (intro emits_runs [OF _ rest]) (auto intro!: emits_intros register_presents split: sum.split option.split)
  with presents_append [OF ls this] show ?thesis by (simp add: cs)
qed

section \<open>The invariant\<close>

lemma renewed:
  assumes "renews (NewRunnable P) s s' ds" "current P (rs_tokens s)" "backed P (rs_tokens s) cs"
    "same_identity (NewClientConfig P x) (rs_config s)" "EnrollmentSecret (rs_config s) \<noteq> []"
  shows "current P (rs_tokens s') \<and> backed P (rs_tokens s') (cs @ ds) \<and>
    same_identity (NewClientConfig P x) (rs_config s') \<and> EnrollmentSecret (rs_config s') \<noteq> []"
proof -
  have id: "same_identity (NewClientConfig P x) (rs_config s')"
    using assms(1,4) by (auto simp: renews_def same_identity_def)
  show ?thesis
  proof (cases "rs_tokens s' = rs_tokens s")
    case True
    with id assms show ?thesis by (simp add: backed_more renews_def)
  next
    case False
    with assms(1) have "unchanged (NewRunnable P) (rs_config s') (rs_tokens s')" "\<exists>c \<in> set ds. saved (rs_tokens s') c"
      by (simp_all add: renews_def)
    with id assms(1,5) show ?thesis by (auto simp: unchanged_current [OF id] backed_def renews_def)
  qed
qed

lemma operating_current:
  assumes "operating P s cs w"
  shows "current P (rs_tokens s) \<and> backed P (rs_tokens s) cs \<and> presents_all P cs \<and>
    same_identity (NewClientConfig P []) (rs_config s) \<and> EnrollmentSecret (rs_config s) \<noteq> []"
  using assms
proof (induction rule: operating.induct)
  case (booted secret w s cs w')
  have store: "rn_store (NewRunnable P) = podNamespace P" by (simp add: NewRunnable_def)
  have id: "same_identity (NewClientConfig P []) (NewClientConfig P secret)" by (simp add: same_identity_def NewClientConfig_def)
  note boot = loadOrRegister_runs [OF booted(2)]
  then have "unchanged (NewRunnable P) (NewClientConfig P secret) (rs_tokens s)" "rs_config s = NewClientConfig P secret" by simp_all
  moreover from this have "current P (rs_tokens s)" by (simp add: unchanged_current [OF id])
  ultimately show ?case
    using boot booted(1) boot_presents [OF booted(2) store] id
    by (auto simp: store backed_def) (simp_all add: NewClientConfig_def)
next
  case (beaten s cs w s' ds w')
  have "list_all (presents P cs) ds"
    by (rule list.pred_mono_strong [OF emits_runs [OF emits_heartbeatOnce [OF NewRunnable_sources] beaten(2)]])
       (use beaten.IH in \<open>auto intro: bearer_presents backed_held\<close>)
  with beaten.IH renewed [OF heartbeatOnce_renews [OF NewRunnable_sources beaten(2)], of cs "[]"] show ?case
    by (simp add: presents_append)
next
  case (checked s cs w s' ds w')
  with presents_append [OF _ emits_runs [OF check_presents checked(2)], of P cs] renewed [OF checkEnrollmentSecret_renews [OF checked(2)], of cs "[]"]
  show ?case
    by (simp add: presents_append)
next
  case (measured s cs w order u ds w')
  have "list_all (presents P cs) ds"
    by (rule list.pred_mono_strong [OF emits_runs [OF reporter_bearer measured(2)]])
       (use measured.IH in \<open>auto intro: bearer_presents backed_held\<close>)
  with measured.IH show ?case by (simp add: presents_append backed_more)
qed simp

text \<open>C11: The credentials the operator works with are never stale or made up, from start-up on, through any
  sequence of heartbeats, checks of the enrollment secret and metric reports, whatever the cluster,
  Convex and the operator's other parts do meanwhile. At every moment they carry the hash of the
  running catalog, the running version and the fingerprint of the configured tags; they were written
  to the store by a write that succeeded, or read from it and accepted by Convex in a heartbeat.
  No request ever carried a token but the heartbeat token of credentials that an earlier call had
  saved or read from the store, and no registration carried one. And a non-empty enrollment secret is
  at hand to register again.\<close>

theorem tokens_always_current:
  assumes "operating P s cs w"
  shows "current P (rs_tokens s) \<and> backed P (rs_tokens s) cs \<and> presents_all P cs \<and> EnrollmentSecret (rs_config s) \<noteq> []"
  using operating_current [OF assms] by simp

lemma demo_boot:
  "\<exists>s cs w'. runs (loadOrRegister (NewRunnable demo_platform)
     \<lparr>rs_config = NewClientConfig demo_platform ''secret'', rs_tokens = no_tokens\<rparr>) 0 (None, s) cs w'"
  by (simp add: loadOrRegister_def Load_def register_def Client_Register_def post_def Save_def decode_body_def
      NewRunnable_def demo_platform_def Let_def runs_rules demo_kube_simps)

theorem tokens_always_current_witness:
  "\<exists>s cs w. operating demo_platform s cs w \<and> OperatorVersion (rs_tokens s) = getenv demo_platform ''OPERATOR_VERSION'' \<and>
     TagsFingerprint (rs_tokens s) = ''unset'' \<and> presents_all demo_platform cs"
proof -
  let ?s = "\<lparr>rs_config = NewClientConfig demo_platform ''secret'', rs_tokens = no_tokens\<rparr>"
  from demo_boot obtain s cs w where "runs (loadOrRegister (NewRunnable demo_platform) ?s) 0 (None, s) cs w" by (elim exE)
  then have boot: "operating demo_platform s cs w" by (rule booted [rotated]) simp
  obtain s' ds w' where "runs (heartbeatOnce (NewRunnable demo_platform) s) w s' ds w'"
    using runs_total [of "heartbeatOnce (NewRunnable demo_platform) s" w] by (elim exE)
  with boot have step: "operating demo_platform s' (cs @ ds) w'" by (rule beaten)
  have "pf_lookupEnv demo_platform ''OPERATOR_TAGS'' = None" by (simp add: demo_platform_def)
  with tokens_always_current [OF step] step show ?thesis by (auto simp: current_def operatorTags_def)
qed

end
