(* ===== verification/Lifecycle.thy ===== *)
theory Lifecycle
  imports System
begin

text \<open>
  The components as the manager runs them: \<open>Start\<close> of the claim loop (internal/convexclient/runnable.go),
  of the metrics reporter (internal/metrics/reporter.go), of the capacity tracker
  (internal/capacity/tracker.go) and of the API server (internal/api/server.go). A \<open>select\<close> is driven
  by the list of what became ready, in the order in which it was received; a list that ends leaves
  the component waiting. Time and scheduling are thus arbitrary, and so is the number of rounds.
\<close>

section \<open>Start\<close>

datatype wakeup = Tick | Done

datatype start_result = Returned "go_error option" | Panicked | Waiting

text \<open>The loop of a ticker and a cancelled context; \<open>work\<close> is one round.\<close>

fun ticker_loop :: "('s \<Rightarrow> ('w, 'c, 's) prog) \<Rightarrow> wakeup list \<Rightarrow> 's \<Rightarrow> ('w, 'c, start_result \<times> 's) prog" where
  "ticker_loop work [] s = ret (Waiting, s)"
| "ticker_loop work (Done # ws) s = ret (Returned None, s)"
| "ticker_loop work (Tick # ws) s = do { s' \<leftarrow> work s; ticker_loop work ws s' }"

definition Runnable_Start :: "'w runnable \<Rightarrow> int64 \<Rightarrow> wakeup list \<Rightarrow> rstate \<Rightarrow> ('w, start_result \<times> rstate) rprog" where
  "Runnable_Start R heartbeatInterval ws s = do {
     (e, s') \<leftarrow> loadOrRegister R s;
     case e of
       Some err \<Rightarrow> ret (Returned (Some err), s')
     | None \<Rightarrow>
         if ticker_panics heartbeatInterval then ret (Panicked, s')
         else ticker_loop (tick R) ws s'
   }"

definition Reporter_Start :: "('w, 'c, unit) prog \<Rightarrow> int64 \<Rightarrow> wakeup list \<Rightarrow> ('w, 'c, start_result) prog" where
  "Reporter_Start report reportInterval ws =
     (if ticker_panics reportInterval then ret Panicked
      else do { (r, u) \<leftarrow> ticker_loop (\<lambda>_. report) ws (); ret r })"

text \<open>The tracker only waits: it has no ticker.\<close>

fun Tracker_Start :: "wakeup list \<Rightarrow> start_result" where
  "Tracker_Start [] = Waiting"
| "Tracker_Start (Done # ws) = Returned None"
| "Tracker_Start (Tick # ws) = Tracker_Start ws"

text \<open>
  The server: requests are answered by the handlers while it listens, each with the tokens the
  runnable holds at that moment; the listener may end, with \<open>http.ErrServerClosed\<close> or with another
  error; cancelling shuts it down and returns what that returns. The replies are returned in order.
\<close>

datatype listenEnd = ServerClosed | ListenError go_error

datatype apiEvent = Request rstate httpRequest | ListenReturned listenEnd | Cancelled

fun Server_Start :: "(rstate \<Rightarrow> 'w server) \<Rightarrow> ('w \<Rightarrow> go_error option \<times> 'w) \<Rightarrow> apiEvent list \<Rightarrow>
    ('w, start_result \<times> httpReply list) gprog" where
  "Server_Start srv shutdown [] = ret (Waiting, [])"
| "Server_Start srv shutdown (Request s q # es) = do {
     rep \<leftarrow> ServeHTTP (srv s) q;
     (r, reps) \<leftarrow> Server_Start srv shutdown es;
     ret (r, rep # reps)
   }"
| "Server_Start srv shutdown (ListenReturned ServerClosed # es) = Server_Start srv shutdown es"
| "Server_Start srv shutdown (ListenReturned (ListenError e) # es) = ret (Returned (Some e), [])"
| "Server_Start srv shutdown (Cancelled # es) = do {
     e \<leftarrow> ext shutdown (\<lambda>e. Other (GShutdown e));
     ret (Returned e, [])
   }"

text \<open>Which components a replica runs before it is elected: those that declare they need no election.\<close>

fun NeedLeaderElection :: "component \<Rightarrow> bool" where
  "NeedLeaderElection OperatorApi = False"
| "NeedLeaderElection _ = True"

section \<open>The ticker loop\<close>

lemma proper_ticker_loop [simp]: "(\<And>s. proper (work s)) \<Longrightarrow> proper (ticker_loop work ws s)"
  by (induction work ws s rule: ticker_loop.induct) simp_all

lemma proper_Server_Start [simp]: "proper (Server_Start srv shutdown es)"
  by (induction srv shutdown es rule: Server_Start.induct) simp_all

definition rounds_of :: "wakeup list \<Rightarrow> nat" where
  "rounds_of ws = length (takeWhile (\<lambda>e. e = Tick) ws)"

text \<open>Any number of rounds, one after the other.\<close>

fun work_rounds :: "('s \<Rightarrow> ('w, 'c, 's) prog) \<Rightarrow> nat \<Rightarrow> 's \<Rightarrow> ('w, 'c, 's) prog" where
  "work_rounds work 0 s = ret s"
| "work_rounds work (Suc n) s = do { s' \<leftarrow> work s; work_rounds work n s' }"

text \<open>The loop does one round per tick received before the cancellation, then returns; without one it waits.\<close>

lemma ticker_loop_rounds:
  "ticker_loop work ws s = do {
     s' \<leftarrow> work_rounds work (rounds_of ws) s;
     ret (if Done \<in> set ws then Returned None else Waiting, s')
   }"
proof (induction work ws s rule: ticker_loop.induct)
  case (3 work ws s)
  have "ticker_loop work ws = (\<lambda>s'. work_rounds work (rounds_of ws) s' \<bind>
      (\<lambda>s''. ret (if Done \<in> set ws then Returned None else Waiting, s'')))"
    by (rule HOL.ext) (rule 3)
  then show ?case by (simp add: rounds_of_def)
qed (simp_all add: rounds_of_def)

section \<open>The claim loop\<close>

lemma proper_work_rounds [simp]: "(\<And>s. proper (work s)) \<Longrightarrow> proper (work_rounds work n s)"
  by (induction work n s rule: work_rounds.induct) simp_all

lemma NewRunnable_reading [simp]: "proper (reading (rn_capacity (NewRunnable P)))" "proper (reading (rn_usage (NewRunnable P)))"
  by (rule sources_reading [OF NewRunnable_sources])+

lemma proper_tick [simp]: "proper (tick (NewRunnable P) s)"
  by (simp add: tick_def heartbeatOnce_def Let_def proper_afterHeartbeat)

text \<open>How a run of \<open>Start\<close> is made up: registration, then the rounds.\<close>

lemma Runnable_Start_runs:
  assumes "runs (Runnable_Start (NewRunnable P) hb ws s) w (res, s') cs w'"
  obtains e s1 cs1 w1 cs2 where "runs (loadOrRegister (NewRunnable P) s) w (e, s1) cs1 w1" "cs = cs1 @ cs2"
    "e \<noteq> None \<Longrightarrow> res = Returned e \<and> s' = s1 \<and> cs2 = [] \<and> w' = w1"
    "e = None \<Longrightarrow> ticker_panics hb \<Longrightarrow> res = Panicked \<and> s' = s1 \<and> cs2 = [] \<and> w' = w1"
    "e = None \<Longrightarrow> \<not> ticker_panics hb \<Longrightarrow> res = (if Done \<in> set ws then Returned None else Waiting) \<and>
       runs (work_rounds (tick (NewRunnable P)) (rounds_of ws) s1) w1 s' cs2 w'"
proof -
  from assms obtain e s1 cs1 w1 cs2 where boot: "runs (loadOrRegister (NewRunnable P) s) w (e, s1) cs1 w1"
    and cs: "cs = cs1 @ cs2" and rest: "runs (case e of
       Some err \<Rightarrow> ret (Returned (Some err), s1)
     | None \<Rightarrow> if ticker_panics hb then ret (Panicked, s1) else ticker_loop (tick (NewRunnable P)) ws s1) w1 (res, s') cs2 w'"
    unfolding Runnable_Start_def by (rule runs_pair_bindE) simp
  show thesis
    by (rule that [OF boot cs]) (use rest in \<open>auto simp: ticker_loop_rounds runs_bind runs_return\<close>)
qed

lemma tick_runsE:
  assumes "runs (tick R s) w s' cs w'"
  obtains s1 cs1 w1 cs2 where "runs (heartbeatOnce R s) w s1 cs1 w1" "cs = cs1 @ cs2" "runs (checkEnrollmentSecret R s1) w1 s' cs2 w'"
  using assms unfolding tick_def by (rule runs_bindE) simp_all

text \<open>
  Every round of the loop is two steps of the running operator, and sends one heartbeat.
\<close>

lemma tick_operating:
  assumes "operating P s cs w" "runs (tick (NewRunnable P) s) w s' ds w'"
  shows "operating P s' (cs @ ds) w'"
  using assms(2)
proof (rule tick_runsE)
  fix s1 cs1 w1 cs2
  assume "runs (heartbeatOnce (NewRunnable P) s) w s1 cs1 w1" "ds = cs1 @ cs2" "runs (checkEnrollmentSecret (NewRunnable P) s1) w1 s' cs2 w'"
  with checked [OF beaten [OF assms(1)]] show ?thesis by simp
qed

lemma tick_beats:
  assumes "sources R" "cv_newRequest (rn_convex R) (BaseURL (rs_config s) @ ''/operators/heartbeat'') = None"
    "runs (tick R s) w s' cs w'"
  shows "length (filter beats cs) = 1"
  using assms(3)
proof (rule tick_runsE)
  fix s1 cs1 w1 cs2
  assume h: "runs (heartbeatOnce R s) w s1 cs1 w1" and cs: "cs = cs1 @ cs2" and c: "runs (checkEnrollmentSecret R s1) w1 s' cs2 w'"
  from heartbeatOnce_beats [OF assms(1,2) h] silent_filter [OF checkEnrollmentSecret_silent c] show ?thesis by (simp add: cs)
qed

lemma rounds_operating:
  assumes "operating P s cs w" "runs (work_rounds (tick (NewRunnable P)) n s) w s' ds w'"
    "cv_newRequest (pf_convex P) (getenv P ''CONVEX_BASE_URL'' @ ''/operators/heartbeat'') = None"
  shows "operating P s' (cs @ ds) w' \<and> length (filter beats ds) = n"
  using assms(1,2)
proof (induction "tick (NewRunnable P)" n s arbitrary: cs w ds rule: work_rounds.induct)
  case (1 s)
  then show ?case by (simp add: runs_return)
next
  case (2 n s)
  from 2(3) obtain s1 ds1 w1 ds2 where tick: "runs (tick (NewRunnable P) s) w s1 ds1 w1" and ds: "ds = ds1 @ ds2"
    and rest: "runs (work_rounds (tick (NewRunnable P)) n s1) w1 s' ds2 w'"
    unfolding work_rounds.simps by (rule runs_bindE) simp
  from operating_current [OF 2(2)] have "BaseURL (rs_config s) = getenv P ''CONVEX_BASE_URL''"
    by (simp add: same_identity_def NewClientConfig_def)
  with assms(3) tick_beats [OF NewRunnable_sources _ tick] have "length (filter beats ds1) = 1"
    by (simp add: NewRunnable_def)
  with 2(1) [OF tick_operating [OF 2(2) tick] rest] show ?case by (simp add: ds)
qed

lemma atmost_heartbeat: "atmost P 1 (Client_Heartbeat C c t snap usage)"
proof -
  have "atmost P 1 (post C url what tok v)" for url what tok v
    unfolding atmost_def by (auto elim: post_runs)
  then show ?thesis unfolding Client_Heartbeat_def by (intro atmost_last emits_return proper_return)
qed

lemma Load_silent: "emits (\<lambda>c. \<not> beats c) (Load K ns)"
  by (rule emits_tokens(1) [THEN emits_mono]) (simp add: silent_calls)

lemma boot_calls:
  assumes "runs (loadOrRegister R s) w r cs w'"
  shows "length (filter beats cs) \<le> 1" "list_all (\<lambda>c. \<not> creates c \<and> \<not> alters c) cs"
proof -
  have "atmost beats 1 (loadOrRegister R s)"
    unfolding loadOrRegister_def
    by (intro atmost_skip [OF Load_silent] atmost_cases atmost_last [OF atmost_heartbeat] atmost_none [OF register_silent]
        emits_intros register_silent) simp_all
  with assms show "length (filter beats cs) \<le> 1" by (rule atmostD [rotated])
  have "emits (\<lambda>c. \<not> creates c \<and> \<not> alters c) (loadOrRegister R s)"
    unfolding loadOrRegister_def
    by (intro emits_intros emits_register(1) emits_tokens(1) [THEN emits_mono] emits_heartbeat [THEN emits_mono]) auto
  from emits_runs [OF this assms] show "list_all (\<lambda>c. \<not> creates c \<and> \<not> alters c) cs" .
qed

text \<open>C22: The claim loop keeps its cadence. Once start-up succeeded with a positive interval, and the
  address of Convex is a URL, \<open>Start\<close> either gives up before it touches any Workload, because the operator
  could neither reuse its credentials nor register, or it holds current, saved or accepted credentials
  and from then on sends exactly one heartbeat for every tick until the cancellation, no matter how the
  heartbeats, the claims, the re-registrations and the checks of the secret turn out; then it
  returns without an error, still holding current credentials.\<close>

theorem heartbeat_every_tick:
  assumes "runs (setupConvexIntegration P) w0 (Inr I) cs0 w1" "0 < sint (ig_heartbeatInterval I)"
    and "cv_newRequest (pf_convex P) (getenv P ''CONVEX_BASE_URL'' @ ''/operators/heartbeat'') = None"
    and "runs (Runnable_Start (ig_runnable I) (ig_heartbeatInterval I) (replicate n Tick @ Done # ws) (ig_state I)) w (res, s) cs w'"
  shows "(\<exists>err. res = Returned (Some err)) \<and> length (filter beats cs) \<le> 1 \<and> list_all (\<lambda>c. \<not> creates c \<and> \<not> alters c) cs \<or>
    res = Returned None \<and> current P (rs_tokens s) \<and> EnrollmentSecret (rs_config s) \<noteq> [] \<and>
    (\<exists>boot loop t. cs = boot @ loop \<and> backed P t boot \<and> current P t \<and> length (filter beats boot) \<le> 1 \<and>
       length (filter beats loop) = n)"
  using assms(1)
proof (rule setup_runs_Inr)
  fix secret key px hb mr
  assume secret: "secret \<noteq> []"
    and I: "I = \<lparr>ig_runnable = NewRunnable P, ig_state = \<lparr>rs_config = NewClientConfig P secret, rs_tokens = no_tokens\<rparr>,
          ig_server = NewServer P key px, ig_reporter = NewReporter P, ig_listenAddr = apiListenAddr P,
          ig_heartbeatInterval = hb, ig_metricsReportInterval = mr\<rparr>"
  let ?s = "\<lparr>rs_config = NewClientConfig P secret, rs_tokens = no_tokens\<rparr>" and ?ws = "replicate n Tick @ Done # ws"
  have hb: "\<not> ticker_panics hb" using assms(2) by (simp add: I ticker_panics_def)
  have ws: "rounds_of ?ws = n" "Done \<in> set ?ws" by (simp_all add: rounds_of_def takeWhile_append)
  from assms(4) have "runs (Runnable_Start (NewRunnable P) hb ?ws ?s) w (res, s) cs w'" by (simp add: I)
  then show ?thesis
  proof (rule Runnable_Start_runs)
    fix e s1 cs1 w2 cs2
    assume boot: "runs (loadOrRegister (NewRunnable P) ?s) w (e, s1) cs1 w2" and cs: "cs = cs1 @ cs2"
      and fail: "e \<noteq> None \<Longrightarrow> res = Returned e \<and> s = s1 \<and> cs2 = [] \<and> w' = w2"
      and loop: "e = None \<Longrightarrow> \<not> ticker_panics hb \<Longrightarrow> res = (if Done \<in> set ?ws then Returned None else Waiting) \<and>
         runs (work_rounds (tick (NewRunnable P)) (rounds_of ?ws) s1) w2 s cs2 w'"
    note calls = boot_calls [OF boot]
    show ?thesis
    proof (cases e)
      case (Some err)
      with fail cs calls show ?thesis by auto
    next
      case None
      with boot secret have up: "operating P s1 cs1 w2" by (auto intro: booted)
      from loop [OF None hb] ws have res: "res = Returned None"
        and rounds: "runs (work_rounds (tick (NewRunnable P)) n s1) w2 s cs2 w'" by simp_all
      from rounds_operating [OF up rounds assms(3)] have fin: "operating P s (cs1 @ cs2) w'" "length (filter beats cs2) = n" by simp_all
      show ?thesis
        using operating_current [OF up] operating_current [OF fin(1)] fin(2) res cs calls(1) by blast
    qed
  qed
qed

section \<open>Intervals that are not positive\<close>

lemma signed_duration:
  assumes "getenv P var = CHR ''-'' # duration_text segs" "segments_fit segs" "segs \<noteq> []" "total_nanoseconds segs < 2 ^ 63"
  shows "interval P var dflt = Inr (- of_nat (total_nanoseconds segs))"
proof -
  have ne: "duration_text segs \<noteq> []" "duration_text segs \<noteq> ''0''"
    using duration_text_units [OF assms(2,3)] by auto
  have "parse_segments (pf_fraction P) 0 (duration_text segs) = Inr (of_nat (total_nanoseconds segs))"
    using parse_segments_text [OF assms(2), of 0 "pf_fraction P"] assms(4) by simp
  with ne show ?thesis by (simp add: interval_def assms(1) Let_def ParseDuration_def parse_duration_def)
qed

lemma sint_minus_of_nat:
  assumes "n < 2 ^ 63"
  shows "sint (- of_nat n :: int64) \<le> 0"
proof -
  have "(- of_nat n :: int64) = word_of_int (- int n)" by simp
  also have "sint \<dots> = - int n"
    unfolding sint_sbintrunc' using assms by (subst signed_take_bit_int_eq_self) simp_all
  finally show ?thesis by simp
qed

text \<open>A negative or zero interval is not refused at start-up and takes the operator down later. With
  \<open>HEARTBEAT_INTERVAL\<close> set to a minus sign and a duration, start-up succeeds like any other, and the
  claim loop then never sends a heartbeat of its own: it returns its registration error or crashes;
  the metrics reporter crashes at once on such a \<open>METRICS_REPORT_INTERVAL\<close>.\<close>

lemma negative_interval_crashes:
  assumes "runs (setupConvexIntegration P) w (Inr I) cs w'"
    and "segments_fit segs" "segs \<noteq> []" "total_nanoseconds segs < 2 ^ 63"
  shows "(getenv P ''HEARTBEAT_INTERVAL'' = CHR ''-'' # duration_text segs \<longrightarrow>
      (\<forall>ws w1 res s cs1 w2. runs (Runnable_Start (ig_runnable I) (ig_heartbeatInterval I) ws (ig_state I)) w1 (res, s) cs1 w2 \<longrightarrow>
        res = Panicked \<or> (\<exists>err. res = Returned (Some err)))) \<and>
    (getenv P ''METRICS_REPORT_INTERVAL'' = CHR ''-'' # duration_text segs \<longrightarrow>
      Reporter_Start report (ig_metricsReportInterval I) ws = ret Panicked)"
  using assms(1)
proof (rule setup_runs_Inr)
  fix secret key px hb mr
  assume hb: "interval P ''HEARTBEAT_INTERVAL'' (30 * 10 ^ 9) = Inr hb"
    and mr: "interval P ''METRICS_REPORT_INTERVAL'' (5 * 60 * 10 ^ 9) = Inr mr"
    and secret: "secret \<noteq> []"
    and I: "I = \<lparr>ig_runnable = NewRunnable P, ig_state = \<lparr>rs_config = NewClientConfig P secret, rs_tokens = no_tokens\<rparr>,
          ig_server = NewServer P key px, ig_reporter = NewReporter P, ig_listenAddr = apiListenAddr P,
          ig_heartbeatInterval = hb, ig_metricsReportInterval = mr\<rparr>"
  have neg: "ticker_panics d" if "getenv P var = CHR ''-'' # duration_text segs" "interval P var dflt = Inr d" for var dflt d
    using signed_duration [OF that(1) assms(2-4), of dflt] that(2) sint_minus_of_nat [OF assms(4)]
    by (simp add: ticker_panics_def)
  have "res = Panicked \<or> (\<exists>err. res = Returned (Some err))"
    if "ticker_panics hb" "runs (Runnable_Start (NewRunnable P) hb ws s0) w1 (res, s) cs1 w2" for ws w1 res s cs1 w2 s0
    using that(2) by (rule Runnable_Start_runs) (use that(1) in \<open>auto simp: not_None_eq\<close>)
  with neg [OF _ hb] neg [OF _ mr] show ?thesis by (simp add: I Reporter_Start_def)
qed

section \<open>Witnesses\<close>

theorem heartbeat_every_tick_witness:
  "\<exists>I cs0 w1 res s cs w'. runs (setupConvexIntegration demo_platform) 0 (Inr I) cs0 w1 \<and>
     runs (Runnable_Start (ig_runnable I) (ig_heartbeatInterval I) [Tick, Tick, Done] (ig_state I)) w1 (res, s) cs w' \<and>
     ((\<exists>err. res = Returned (Some err)) \<or> res = Returned None \<and> current demo_platform (rs_tokens s) \<and>
       (\<exists>boot loop. cs = boot @ loop \<and> length (filter beats loop) = 2))"
proof -
  from demo_setup obtain I cs0 w1 where up: "runs (setupConvexIntegration demo_platform) 0 (Inr I) cs0 w1" by (elim exE)
  have "getenv demo_platform ''HEARTBEAT_INTERVAL'' = []" by (simp add: getenv_def demo_platform_def mget_def)
  with up have hb: "0 < sint (ig_heartbeatInterval I)" by (elim setup_runs_Inr) (simp add: interval_def)
  have url: "cv_newRequest (pf_convex demo_platform) u = None" for u by (simp add: demo_platform_def)
  let ?m = "Runnable_Start (ig_runnable I) (ig_heartbeatInterval I) (replicate 2 Tick @ Done # []) (ig_state I)"
  obtain res s cs w' where run: "runs ?m w1 (res, s) cs w'" using runs_total [of ?m w1] by fastforce
  have ticks: "replicate 2 Tick @ Done # [] = [Tick, Tick, Done]" by (simp add: numeral_2_eq_2)
  from heartbeat_every_tick [OF up hb url run]
  have "(\<exists>err. res = Returned (Some err)) \<or> res = Returned None \<and> current demo_platform (rs_tokens s) \<and>
       (\<exists>boot loop. cs = boot @ loop \<and> length (filter beats loop) = 2)" by blast
  with up run [unfolded ticks] show ?thesis by blast
qed

definition demo_env :: "string \<Rightarrow> nat platform" where
  "demo_env v = demo_platform\<lparr>pf_lookupEnv := (pf_lookupEnv demo_platform)(''HEARTBEAT_INTERVAL'' \<mapsto> v)\<rparr>"

lemma demo_env_setup:
  assumes "interval (demo_env v) ''HEARTBEAT_INTERVAL'' (30 * 10 ^ 9) = Inr hb"
  shows "\<exists>I cs w'. runs (setupConvexIntegration (demo_env v)) 0 (Inr I) cs w'"
proof -
  have env: "getenv (demo_env v) ''POD_NAMESPACE'' = ''system''" "getenv (demo_env v) ''WORKLOAD_NAMESPACE'' = ''ns''"
    "getenv (demo_env v) ''METRICS_REPORT_INTERVAL'' = []" "\<not> missingRequiredEnv (demo_env v)"
    by (simp_all add: getenv_def demo_env_def demo_platform_def missingRequiredEnv_def mget_def)
  have pf: "pf_kube (demo_env v) = demo_kube" "pf_random (demo_env v) = (\<lambda>n. answer (Inr (replicate n (CHR ''k''))))"
    "NewClientset (demo_env v) = Inr ()" "NewExecutor (pf_executor (demo_env v)) = Inr (pf_executor (demo_env v))"
    "pf_add (demo_env v) c w = (None, w)"
    "NewServiceProxy (demo_env v) ns = Inr \<lparr>px_scheme = ''https'', px_host = ''api'', px_namespace = ns\<rparr>" for c ns and w :: nat
    by (simp_all add: demo_env_def demo_platform_def NewClientset_def NewExecutor_def NewServiceProxy_def answer_def)
  have cur: "op_of (Current (NewRunnable (demo_env v))) 0 = (Inr ''secret'', 0)"
    by (rule op_of_runs) (simp add: Current_def NewRunnable_def demo_env_def demo_platform_def runs_rules answer_def)
  have mr: "interval (demo_env v) ''METRICS_REPORT_INTERVAL'' d = Inr d" for d by (simp add: interval_def env)
  show ?thesis unfolding setupConvexIntegration_def wireApi_def
    by (simp add: env runs_andThen_Inr runs_steps_Inr runs_return_Inr pf demo_setup_steps cur assms [simplified] mr)
qed

end
