(* ===== verification/Process.thy ===== *)
theory Process
  imports Lifecycle
begin

text \<open>
  The process itself (cmd/main.go, \<open>main\<close>) with the controller it registers
  (internal/controller/workload_controller.go, \<open>SetupWithManager\<close>): the command line read by package
  \<open>flag\<close>, the options of the servers and of the manager built from it, and the steps up to
  \<open>mgr.Start\<close> with the exit status of each failure. The flags that libraries register, the manager and
  its operations are parameters.
\<close>

section \<open>The command line\<close>

record flags =
  metricsAddr :: string
  probeAddr :: string
  enableLeaderElection :: bool
  secureMetrics :: bool
  webhookCertPath :: string
  webhookCertName :: string
  webhookCertKey :: string
  metricsCertPath :: string
  metricsCertName :: string
  metricsCertKey :: string
  enableHTTP2 :: bool

definition defaultFlags :: flags where
  "defaultFlags = \<lparr>metricsAddr = ''0'', probeAddr = '':8081'', enableLeaderElection = False, secureMetrics = True,
     webhookCertPath = [], webhookCertName = ''tls.crt'', webhookCertKey = ''tls.key'',
     metricsCertPath = [], metricsCertName = ''tls.crt'', metricsCertKey = ''tls.key'', enableHTTP2 = False\<rparr>"

text \<open>A flag of the program sets a field; one of a library is a boolean flag or not, and may refuse a value.\<close>

datatype flagDef =
    StringFlag "string \<Rightarrow> flags \<Rightarrow> flags"
  | BoolFlag "bool \<Rightarrow> flags \<Rightarrow> flags"
  | LibraryFlag bool "string \<Rightarrow> go_error option"

definition commandLine :: "(string \<times> flagDef) list" where
  "commandLine =
     [(''metrics-bind-address'', StringFlag (\<lambda>v. metricsAddr_update (\<lambda>_. v))),
      (''health-probe-bind-address'', StringFlag (\<lambda>v. probeAddr_update (\<lambda>_. v))),
      (''leader-elect'', BoolFlag (\<lambda>b. enableLeaderElection_update (\<lambda>_. b))),
      (''metrics-secure'', BoolFlag (\<lambda>b. secureMetrics_update (\<lambda>_. b))),
      (''webhook-cert-path'', StringFlag (\<lambda>v. webhookCertPath_update (\<lambda>_. v))),
      (''webhook-cert-name'', StringFlag (\<lambda>v. webhookCertName_update (\<lambda>_. v))),
      (''webhook-cert-key'', StringFlag (\<lambda>v. webhookCertKey_update (\<lambda>_. v))),
      (''metrics-cert-path'', StringFlag (\<lambda>v. metricsCertPath_update (\<lambda>_. v))),
      (''metrics-cert-name'', StringFlag (\<lambda>v. metricsCertName_update (\<lambda>_. v))),
      (''metrics-cert-key'', StringFlag (\<lambda>v. metricsCertKey_update (\<lambda>_. v))),
      (''enable-http2'', BoolFlag (\<lambda>b. enableHTTP2_update (\<lambda>_. b)))]"

definition lookupFlag :: "(string \<Rightarrow> (bool \<times> (string \<Rightarrow> go_error option)) option) \<Rightarrow> string \<Rightarrow> flagDef option" where
  "lookupFlag lib name = (case map_of commandLine name of
     Some d \<Rightarrow> Some d
   | None \<Rightarrow> map_option (\<lambda>(b, put). LibraryFlag b put) (lib name))"

text \<open>\<open>strconv.ParseBool\<close>.\<close>

definition ParseBool :: "string \<Rightarrow> bool option" where
  "ParseBool s =
     (if s \<in> {''1'', ''t'', ''T'', ''true'', ''TRUE'', ''True''} then Some True
      else if s \<in> {''0'', ''f'', ''F'', ''false'', ''FALSE'', ''False''} then Some False else None)"

datatype flagResult = Parsed flags | FlagError string | HelpRequested

text \<open>The name and the value of an argument \<open>-name\<close>, \<open>--name\<close> or \<open>-name=value\<close>, without the dashes.\<close>

definition flag_body :: "string \<Rightarrow> string" where
  "flag_body s = (if drop 1 s \<noteq> [] \<and> hd (drop 1 s) = CHR ''-'' then drop 2 s else drop 1 s)"

definition flag_parts :: "string \<Rightarrow> string \<times> string option" where
  "flag_parts s = (case cut (CHR ''='') (flag_body s) of None \<Rightarrow> (flag_body s, None) | Some (n, v) \<Rightarrow> (n, Some v))"

text \<open>\<open>FlagSet.Parse\<close>: it stops at the first argument that is not a flag, or after \<open>--\<close>.\<close>

definition invalid_flag :: "bool \<Rightarrow> string \<Rightarrow> string \<Rightarrow> string \<Rightarrow> string" where
  "invalid_flag isBool v name err =
     (if isBool then ''invalid boolean value '' @ go_quote v @ '' for -'' else ''invalid value '' @ go_quote v @ '' for flag -'') @
     name @ '': '' @ err"

text \<open>\<open>parseOne\<close> on the arguments \<open>s # args\<close>: stop, or go on with the arguments that are left.\<close>

datatype parseStep = Stop flagResult | More flags "string list"

definition set_flag :: "flagDef \<Rightarrow> string \<Rightarrow> string option \<Rightarrow> flags \<Rightarrow> string list \<Rightarrow> parseStep" where
  "set_flag d name val fl args = (case d of
     BoolFlag put \<Rightarrow>
       (case val of
         None \<Rightarrow> More (put True fl) args
       | Some v \<Rightarrow> (case ParseBool v of
           None \<Rightarrow> Stop (FlagError (invalid_flag True v name ''parse error''))
         | Some b \<Rightarrow> More (put b fl) args))
   | StringFlag put \<Rightarrow>
       (case val of
         Some v \<Rightarrow> More (put v fl) args
       | None \<Rightarrow> (case args of
           [] \<Rightarrow> Stop (FlagError (''flag needs an argument: -'' @ name))
         | v # rest \<Rightarrow> More (put v fl) rest))
   | LibraryFlag isBool put \<Rightarrow>
       (case val of
         Some v \<Rightarrow> (case put v of
           None \<Rightarrow> More fl args
         | Some e \<Rightarrow> Stop (FlagError (invalid_flag isBool v name (error_text e))))
       | None \<Rightarrow>
           if isBool then (case put ''true'' of
             None \<Rightarrow> More fl args
           | Some e \<Rightarrow> Stop (FlagError (''invalid boolean flag '' @ name @ '': '' @ error_text e)))
           else (case args of
             [] \<Rightarrow> Stop (FlagError (''flag needs an argument: -'' @ name))
           | v # rest \<Rightarrow> (case put v of
               None \<Rightarrow> More fl rest
             | Some e \<Rightarrow> Stop (FlagError (invalid_flag False v name (error_text e)))))))"

definition parseOne :: "(string \<Rightarrow> flagDef option) \<Rightarrow> flags \<Rightarrow> string \<Rightarrow> string list \<Rightarrow> parseStep" where
  "parseOne look fl s args =
     (if length s < 2 \<or> hd s \<noteq> CHR ''-'' \<or> s = ''--'' then Stop (Parsed fl)
      else if hd (flag_body s) = CHR ''-'' \<or> hd (flag_body s) = CHR ''='' then Stop (FlagError (''bad flag syntax: '' @ s))
      else case flag_parts s of (name, val) \<Rightarrow>
        (case look name of
          None \<Rightarrow> Stop (if name = ''help'' \<or> name = ''h'' then HelpRequested
                  else FlagError (''flag provided but not defined: -'' @ name))
        | Some d \<Rightarrow> set_flag d name val fl args))"

lemma set_flag_args: "set_flag d name val fl args = More fl' args' \<Longrightarrow> args' = args \<or> (\<exists>v. args = v # args')"
  by (auto simp: set_flag_def split: flagDef.splits option.splits list.splits if_splits)

lemma parseOne_args: "parseOne look fl s args = More fl' args' \<Longrightarrow> args' = args \<or> (\<exists>v. args = v # args')"
  by (auto simp: parseOne_def dest: set_flag_args split: if_splits prod.splits option.splits)

function parse_flags :: "(string \<Rightarrow> flagDef option) \<Rightarrow> flags \<Rightarrow> string list \<Rightarrow> flagResult" where
  "parse_flags look fl [] = Parsed fl"
| "parse_flags look fl (s # args) = (case parseOne look fl s args of
     Stop r \<Rightarrow> r
   | More fl' args' \<Rightarrow> parse_flags look fl' args')"
  by pat_completeness auto
termination
  by (relation "measure (\<lambda>(look, fl, args). length args)") (auto dest!: parseOne_args)

section \<open>Options\<close>

record tlsConfig =
  NextProtos :: "string list"

type_synonym tlsOption = "tlsConfig \<Rightarrow> tlsConfig"

definition disableHTTP2 :: tlsOption where
  "disableHTTP2 c = c\<lparr>NextProtos := [''http/1.1'']\<rparr>"

definition tlsOpts :: "flags \<Rightarrow> tlsOption list" where
  "tlsOpts fl = (if \<not> enableHTTP2 fl then [disableHTTP2] else [])"

record serverCert =
  CertDir :: string
  CertName :: string
  KeyName :: string

record webhookOptions =
  wo_TLSOpts :: "tlsOption list"
  wo_cert :: serverCert

datatype filterProvider = WithAuthenticationAndAuthorization

record metricsOptions =
  mo_BindAddress :: string
  mo_SecureServing :: bool
  mo_TLSOpts :: "tlsOption list"
  mo_FilterProvider :: "filterProvider option"
  mo_cert :: serverCert

definition certOptions :: "string \<Rightarrow> string \<Rightarrow> string \<Rightarrow> serverCert" where
  "certOptions path name key =
     (if length path > 0 then \<lparr>CertDir = path, CertName = name, KeyName = key\<rparr> else \<lparr>CertDir = [], CertName = [], KeyName = []\<rparr>)"

definition webhookServerOptions :: "flags \<Rightarrow> webhookOptions" where
  "webhookServerOptions fl = \<lparr>wo_TLSOpts = tlsOpts fl,
     wo_cert = certOptions (webhookCertPath fl) (webhookCertName fl) (webhookCertKey fl)\<rparr>"

definition metricsServerOptions :: "flags \<Rightarrow> metricsOptions" where
  "metricsServerOptions fl = \<lparr>mo_BindAddress = metricsAddr fl, mo_SecureServing = secureMetrics fl, mo_TLSOpts = tlsOpts fl,
     mo_FilterProvider = (if secureMetrics fl then Some WithAuthenticationAndAuthorization else None),
     mo_cert = certOptions (metricsCertPath fl) (metricsCertName fl) (metricsCertKey fl)\<rparr>"

record managerOptions =
  mg_cacheDisabledFor :: "string list"
  mg_Metrics :: metricsOptions
  mg_Webhook :: webhookOptions
  mg_HealthProbeBindAddress :: string
  mg_LeaderElection :: bool
  mg_LeaderElectionID :: string

definition manager_options :: "flags \<Rightarrow> managerOptions" where
  "manager_options fl = \<lparr>mg_cacheDisabledFor = [''Secret''], mg_Metrics = metricsServerOptions fl,
     mg_Webhook = webhookServerOptions fl, mg_HealthProbeBindAddress = probeAddr fl,
     mg_LeaderElection = enableLeaderElection fl, mg_LeaderElectionID = ''75dfcc5e.aicloud.dev''\<rparr>"

section \<open>The controller\<close>

definition maxConcurrentReconciles :: nat where "maxConcurrentReconciles = 5"

record controllerSpec =
  ct_For :: string
  ct_Owns :: "string list"
  ct_Named :: string
  ct_MaxConcurrentReconciles :: nat

definition workload_controller :: controllerSpec where
  "workload_controller = \<lparr>ct_For = ''Workload'', ct_Owns = [''Deployment'', ''Service''], ct_Named = ''workload'',
     ct_MaxConcurrentReconciles = maxConcurrentReconciles\<rparr>"

section \<open>The steps of main\<close>

text \<open>The manager: its configuration, its construction, the registrations it takes and its run.\<close>

record 'w manager =
  mn_getConfig :: "go_error option"
  mn_new :: "managerOptions \<Rightarrow> 'w \<Rightarrow> go_error option \<times> 'w"
  mn_addController :: "controllerSpec \<Rightarrow> 'w \<Rightarrow> go_error option \<times> 'w"
  mn_addHealthzCheck :: "string \<Rightarrow> 'w \<Rightarrow> go_error option \<times> 'w"
  mn_addReadyzCheck :: "string \<Rightarrow> 'w \<Rightarrow> go_error option \<times> 'w"
  mn_start :: "'w \<Rightarrow> go_error option \<times> 'w"

datatype 'w mcall =
    MNewManager managerOptions "go_error option"
  | MIntegration "go_error + 'w integration"
  | MController controllerSpec "go_error option"
  | MHealthz string "go_error option"
  | MReadyz string "go_error option"
  | MStart "go_error option"

definition SetupWithManager :: "'w manager \<Rightarrow> ('w, 'w mcall, go_error + unit) kprog" where
  "SetupWithManager M = do {
     e \<leftarrow> ext (mn_addController M workload_controller) (\<lambda>e. Other (MController workload_controller e));
     ret (failing e)
   }"

definition newManager :: "'w manager \<Rightarrow> flags \<Rightarrow> ('w, 'w mcall, go_error + unit) kprog" where
  "newManager M fl = do {
     e \<leftarrow> ext (mn_new M (manager_options fl)) (\<lambda>e. Other (MNewManager (manager_options fl) e));
     ret (failing e)
   }"

definition integrate :: "'w platform \<Rightarrow> ('w, 'w mcall, go_error + 'w integration) kprog" where
  "integrate P = ext (op_of (setupConvexIntegration P)) (\<lambda>r. Other (MIntegration r))"

definition addHealthz :: "'w manager \<Rightarrow> ('w, 'w mcall, go_error + unit) kprog" where
  "addHealthz M = do { e \<leftarrow> ext (mn_addHealthzCheck M ''healthz'') (\<lambda>e. Other (MHealthz ''healthz'' e)); ret (failing e) }"

definition addReadyz :: "'w manager \<Rightarrow> ('w, 'w mcall, go_error + unit) kprog" where
  "addReadyz M = do { e \<leftarrow> ext (mn_addReadyzCheck M ''readyz'') (\<lambda>e. Other (MReadyz ''readyz'' e)); ret (failing e) }"

definition startManager :: "'w manager \<Rightarrow> ('w, 'w mcall, go_error + unit) kprog" where
  "startManager M = do { e \<leftarrow> ext (mn_start M) (\<lambda>e. Other (MStart e)); ret (failing e) }"

text \<open>Everything after the flags: any error is logged and ends the process with status 1.\<close>

definition run_main :: "'w manager \<Rightarrow> 'w platform \<Rightarrow> flags \<Rightarrow> ('w, 'w mcall, go_error + unit) kprog" where
  "run_main M P fl =
     andThen (ret (failing (mn_getConfig M))) (\<lambda>_.
     andThen (newManager M fl) (\<lambda>_.
     andThen (integrate P) (\<lambda>_.
     andThen (SetupWithManager M) (\<lambda>_.
     andThen (addHealthz M) (\<lambda>_.
     andThen (addReadyz M) (\<lambda>_.
     startManager M))))))"

definition main :: "(string \<Rightarrow> (bool \<times> (string \<Rightarrow> go_error option)) option) \<Rightarrow> 'w manager \<Rightarrow> 'w platform \<Rightarrow> string list \<Rightarrow>
    ('w, 'w mcall, int) kprog" where
  "main lib M P args = (case parse_flags (lookupFlag lib) defaultFlags args of
     FlagError msg \<Rightarrow> ret 2
   | HelpRequested \<Rightarrow> ret 0
   | Parsed fl \<Rightarrow> do {
       r \<leftarrow> run_main M P fl;
       ret (case r of Inl e \<Rightarrow> 1 | Inr _ \<Rightarrow> 0)
     })"

section \<open>What the command line can change\<close>

definition names_flag :: "string \<Rightarrow> string \<Rightarrow> bool" where
  "names_flag n a \<longleftrightarrow> fst (flag_parts a) = n"

lemma lookupFlag_own:
  "lookupFlag lib name = Some (StringFlag put) \<Longrightarrow> enableHTTP2 (put v fl) = enableHTTP2 fl \<and> secureMetrics (put v fl) = secureMetrics fl"
  "lookupFlag lib name = Some (BoolFlag putb) \<Longrightarrow> name \<noteq> ''enable-http2'' \<Longrightarrow> enableHTTP2 (putb b fl) = enableHTTP2 fl"
  "lookupFlag lib name = Some (BoolFlag putb) \<Longrightarrow> name \<noteq> ''metrics-secure'' \<Longrightarrow> secureMetrics (putb b fl) = secureMetrics fl"
  by (auto simp: lookupFlag_def commandLine_def split: option.splits if_splits)

lemma set_flag_keeps:
  assumes "set_flag d name val fl args = More fl' args'" "lookupFlag lib name = Some d"
  shows "name \<noteq> ''enable-http2'' \<Longrightarrow> enableHTTP2 fl' = enableHTTP2 fl"
    and "name \<noteq> ''metrics-secure'' \<Longrightarrow> secureMetrics fl' = secureMetrics fl"
  using assms by (auto simp: set_flag_def lookupFlag_own split: flagDef.splits option.splits list.splits if_splits)

lemma parseOne_keeps:
  assumes "parseOne (lookupFlag lib) fl s args = More fl' args'"
  shows "\<not> names_flag ''enable-http2'' s \<Longrightarrow> enableHTTP2 fl' = enableHTTP2 fl"
    and "\<not> names_flag ''metrics-secure'' s \<Longrightarrow> secureMetrics fl' = secureMetrics fl"
  using assms set_flag_keeps [where fl = fl and fl' = fl' and args = args and args' = args']
  by (auto simp: parseOne_def names_flag_def split: if_splits prod.splits option.splits)

lemma parse_flags_keeps:
  assumes "parse_flags (lookupFlag lib) fl args = Parsed fl'"
  shows "(list_all (\<lambda>a. \<not> names_flag ''enable-http2'' a) args \<longrightarrow> enableHTTP2 fl' = enableHTTP2 fl) \<and>
    (list_all (\<lambda>a. \<not> names_flag ''metrics-secure'' a) args \<longrightarrow> secureMetrics fl' = secureMetrics fl)"
  using assms
proof (induction "lookupFlag lib" fl args rule: parse_flags.induct)
  case (2 fl s args)
  show ?case
  proof (cases "parseOne (lookupFlag lib) fl s args")
    case (Stop r)
    with 2(2) have "fl' = fl"
      by (auto simp: parseOne_def set_flag_def split: if_splits prod.splits option.splits flagDef.splits list.splits)
    then show ?thesis by simp
  next
    case (More fl1 args1)
    with 2 have "(list_all (\<lambda>a. \<not> names_flag ''enable-http2'' a) args1 \<longrightarrow> enableHTTP2 fl' = enableHTTP2 fl1) \<and>
        (list_all (\<lambda>a. \<not> names_flag ''metrics-secure'' a) args1 \<longrightarrow> secureMetrics fl' = secureMetrics fl1)" by simp
    with parseOne_keeps [OF More] parseOne_args [OF More] show ?thesis by auto
  qed
qed simp

text \<open>C24: The servers are hardened unless the command line says otherwise. When the arguments parse and
  none of them names \<open>enable-http2\<close>, the metrics and the webhook server offer HTTP/1.1 only, whatever
  the TLS configuration was; when none names \<open>metrics-secure\<close>, the metrics endpoint is served over
  TLS behind authentication and authorization. Secrets are never cached, so the manager never
  lists them.\<close>

theorem hardened_by_default:
  assumes "parse_flags (lookupFlag lib) defaultFlags args = Parsed fl"
  shows "(list_all (\<lambda>a. \<not> names_flag ''enable-http2'' a) args \<longrightarrow>
      (\<forall>c. NextProtos (fold (\<lambda>f. f) (mo_TLSOpts (mg_Metrics (manager_options fl))) c) = [''http/1.1''] \<and>
           NextProtos (fold (\<lambda>f. f) (wo_TLSOpts (mg_Webhook (manager_options fl))) c) = [''http/1.1''])) \<and>
    (list_all (\<lambda>a. \<not> names_flag ''metrics-secure'' a) args \<longrightarrow>
      mo_SecureServing (mg_Metrics (manager_options fl)) \<and>
      mo_FilterProvider (mg_Metrics (manager_options fl)) = Some WithAuthenticationAndAuthorization) \<and>
    ''Secret'' \<in> set (mg_cacheDisabledFor (manager_options fl))"
  using parse_flags_keeps [OF assms]
  by (simp add: manager_options_def metricsServerOptions_def webhookServerOptions_def tlsOpts_def disableHTTP2_def
      defaultFlags_def)

theorem hardened_by_default_witness:
  "\<exists>fl. parse_flags (lookupFlag (\<lambda>n. None)) defaultFlags [''--leader-elect'', ''-metrics-bind-address=:8443''] = Parsed fl \<and>
     enableLeaderElection fl \<and> metricsAddr fl = '':8443'' \<and> mo_SecureServing (mg_Metrics (manager_options fl))"
proof -
  let ?args = "[''--leader-elect'', ''-metrics-bind-address=:8443'']"
  let ?fl = "defaultFlags\<lparr>enableLeaderElection := True, metricsAddr := '':8443''\<rparr>"
  have p: "parse_flags (lookupFlag (\<lambda>n. None)) defaultFlags ?args = Parsed ?fl"
    by (simp add: parseOne_def set_flag_def flag_parts_def flag_body_def lookupFlag_def commandLine_def)
  have "list_all (\<lambda>a. \<not> names_flag ''metrics-secure'' a) ?args"
    by (simp add: names_flag_def flag_parts_def flag_body_def)
  with hardened_by_default [OF p] p show ?thesis by (intro exI [of _ ?fl]) simp
qed

section \<open>The exit status\<close>

lemma proper_main_steps [simp]:
  "proper (newManager M fl)" "proper (integrate P)" "proper (SetupWithManager M)" "proper (addHealthz M)" "proper (addReadyz M)" "proper (startManager M)"
  by (simp_all add: newManager_def integrate_def SetupWithManager_def addHealthz_def addReadyz_def startManager_def)

lemma proper_run_main [simp]: "proper (run_main M P fl)"
  by (simp add: run_main_def)

lemma failing_Inr [simp]: "failing e = Inr u \<longleftrightarrow> e = None" "Inr u = failing e \<longleftrightarrow> e = None"
  by (auto simp: failing_def split: option.splits)

text \<open>The calls of a process that comes up, ending with the manager's run.\<close>

definition start_calls :: "flags \<Rightarrow> 'w integration \<Rightarrow> go_error option \<Rightarrow> 'w mcall call list" where
  "start_calls fl I e = map Other [MNewManager (manager_options fl) None, MIntegration (Inr I), MController workload_controller None,
     MHealthz ''healthz'' None, MReadyz ''readyz'' None, MStart e]"

abbreviation not_started :: "'w mcall call list \<Rightarrow> bool" where
  "not_started cs \<equiv> \<forall>e. Other (MStart e) \<notin> set cs"

text \<open>Programs that fail without a run of the manager, or end as \<open>T\<close> says.\<close>

definition reaches :: "('w mcall call list \<Rightarrow> go_error + 'a \<Rightarrow> bool) \<Rightarrow> ('w, 'w mcall, go_error + 'a) kprog \<Rightarrow> bool" where
  "reaches T m \<longleftrightarrow> (\<forall>w r cs w'. runs m w r cs w' \<longrightarrow> (\<exists>e. r = Inl e \<and> not_started cs) \<or> T cs r)"

lemma reaches_andThen:
  assumes "\<And>w a cs w'. runs m w a cs w' \<Longrightarrow> not_started cs" "\<And>x. proper (k x)"
    and "\<And>x w cs w'. runs m w (Inr x) cs w' \<Longrightarrow> reaches (\<lambda>ds. T (cs @ ds)) (k x)"
  shows "reaches T (andThen m k)"
  unfolding reaches_def
proof (intro allI impI)
  fix w r cs w'
  assume "runs (andThen m k) w r cs w'"
  then obtain a cs1 w1 cs2 where m: "runs m w a cs1 w1" and cs: "cs = cs1 @ cs2"
    and rest: "runs (case a of Inl e \<Rightarrow> ret (Inl e) | Inr x \<Rightarrow> k x) w1 r cs2 w'"
    unfolding andThen_def by (rule runs_bindE) (simp add: assms(2))
  show "(\<exists>e. r = Inl e \<and> not_started cs) \<or> T cs r"
  proof (cases a)
    case (Inl e)
    with rest assms(1) [OF m] cs show ?thesis by (simp add: runs_return)
  next
    case (Inr x)
    with m have "reaches (\<lambda>ds. T (cs1 @ ds)) (k x)" by (intro assms(3)) simp
    from this [unfolded reaches_def, rule_format, of w1 r cs2 w'] rest Inr
    have "(\<exists>e. r = Inl e \<and> not_started cs2) \<or> T cs r" by (simp add: cs)
    with assms(1) [OF m] show ?thesis by (auto simp: cs)
  qed
qed

text \<open>A step made of one call that is not the run of the manager.\<close>

lemma reaches_step:
  assumes "\<And>w a cs w'. runs m w a cs w' \<Longrightarrow> \<exists>c. cs = [Other c] \<and> (\<forall>e. c \<noteq> MStart e) \<and> (\<forall>x. a = Inr x \<longrightarrow> c = good x)"
    and "\<And>x. proper (k x)" "\<And>x. reaches (\<lambda>ds. T (Other (good x) # ds)) (k x)"
  shows "reaches T (andThen m k)"
proof (rule reaches_andThen)
  fix w a cs w'
  assume "runs m w a cs w'"
  with assms(1) show "not_started cs" by fastforce
next
  fix x w cs w'
  assume "runs m w (Inr x) cs w'"
  with assms(1) have "cs = [Other (good x)]" by fastforce
  with assms(3) show "reaches (\<lambda>ds. T (cs @ ds)) (k x)" by simp
qed (rule assms(2))

lemma main_steps:
  "runs (newManager M fl) w a cs w' \<Longrightarrow>
     \<exists>c. cs = [Other c] \<and> (\<forall>e. c \<noteq> MStart e) \<and> (\<forall>x. a = Inr x \<longrightarrow> c = MNewManager (manager_options fl) None)"
  "runs (integrate P) w b cs w' \<Longrightarrow>
     \<exists>c. cs = [Other c] \<and> (\<forall>e. c \<noteq> MStart e) \<and> (\<forall>I. b = Inr I \<longrightarrow> c = MIntegration (Inr I))"
  "runs (SetupWithManager M) w a cs w' \<Longrightarrow>
     \<exists>c. cs = [Other c] \<and> (\<forall>e. c \<noteq> MStart e) \<and> (\<forall>x. a = Inr x \<longrightarrow> c = MController workload_controller None)"
  "runs (addHealthz M) w a cs w' \<Longrightarrow>
     \<exists>c. cs = [Other c] \<and> (\<forall>e. c \<noteq> MStart e) \<and> (\<forall>x. a = Inr x \<longrightarrow> c = MHealthz ''healthz'' None)"
  "runs (addReadyz M) w a cs w' \<Longrightarrow>
     \<exists>c. cs = [Other c] \<and> (\<forall>e. c \<noteq> MStart e) \<and> (\<forall>x. a = Inr x \<longrightarrow> c = MReadyz ''readyz'' None)"
  by (auto simp: newManager_def integrate_def SetupWithManager_def addHealthz_def addReadyz_def runs_bind runs_ext runs_return)

lemma run_main_reaches: "reaches (\<lambda>cs r. \<exists>I e. cs = start_calls fl I e \<and> r = failing e) (run_main M P fl)"
proof -
  have "reaches (\<lambda>cs r. \<exists>J e. map Other [MNewManager (manager_options fl) None, MIntegration (Inr I), MController workload_controller None,
     MHealthz ''healthz'' None, MReadyz ''readyz'' None] @ cs = start_calls fl J e \<and> r = failing e) (startManager M)" for I
    by (auto simp: reaches_def startManager_def start_calls_def runs_bind runs_ext runs_return)
  then show ?thesis unfolding run_main_def
    apply (intro reaches_andThen [where m = "ret (failing (mn_getConfig M))"], simp add: runs_return, simp)
    apply (rule reaches_step, erule main_steps, simp)+
    apply (simp add: runs_return)
    done
qed

text \<open>C23: The exit status tells the truth, and nothing runs before everything is set up. With arguments that
  do not parse the process ends with status 2, asked for help with 0, before any call. Otherwise the
  status is 0 exactly when the manager ran and returned without an error, and 1 in every other case;
  and whenever the manager was run at all, the calls before were the manager's construction with the
  parsed options, the integration, the controller and the two checks, in this order and each with
  success.\<close>

theorem exit_status_truthful:
  assumes "runs (main lib M P args) w code cs w'"
  shows "case parse_flags (lookupFlag lib) defaultFlags args of
      FlagError msg \<Rightarrow> code = 2 \<and> cs = []
    | HelpRequested \<Rightarrow> code = 0 \<and> cs = []
    | Parsed fl \<Rightarrow> (code = 0 \<or> code = 1) \<and> (code = 0 \<longleftrightarrow> Other (MStart None) \<in> set cs) \<and>
        (\<forall>e. Other (MStart e) \<in> set cs \<longrightarrow> (\<exists>I. cs = start_calls fl I e))"
proof (cases "parse_flags (lookupFlag lib) defaultFlags args")
  case (Parsed fl)
  with assms obtain r where run: "runs (run_main M P fl) w r cs w'" and code: "code = (case r of Inl e \<Rightarrow> 1 | Inr _ \<Rightarrow> 0)"
    by (auto simp: main_def runs_bind runs_return)
  from run_main_reaches [unfolded reaches_def, rule_format, OF run]
  consider e where "r = Inl e" "not_started cs" | I e where "cs = start_calls fl I e" "r = failing e" by blast
  then show ?thesis
  proof cases
    case 1
    then show ?thesis by (simp add: Parsed code)
  next
    case (2 I e)
    then show ?thesis by (cases e) (auto simp: Parsed code start_calls_def failing_def)
  qed
qed (use assms in \<open>simp_all add: main_def runs_return\<close>)

section \<open>Witness\<close>

definition demo_manager :: "nat manager" where
  "demo_manager = \<lparr>mn_getConfig = None, mn_new = (\<lambda>opts. answer None), mn_addController = (\<lambda>spec. answer None),
     mn_addHealthzCheck = (\<lambda>n. answer None), mn_addReadyzCheck = (\<lambda>n. answer None), mn_start = answer (Some (ErrText ''lost''))\<rparr>"

theorem exit_status_truthful_witness:
  "\<exists>I cs w'. runs (main (\<lambda>n. None) demo_manager demo_platform []) 0 1 cs w' \<and>
     cs = start_calls defaultFlags I (Some (ErrText ''lost''))"
proof -
  obtain code cs w' where run: "runs (main (\<lambda>n. None) demo_manager demo_platform []) 0 code cs w'"
    using runs_total [of "main (\<lambda>n. None) demo_manager demo_platform []" 0] by (elim exE)
  from demo_setup obtain I ds w1 where "runs (setupConvexIntegration demo_platform) 0 (Inr I) ds w1" by (elim exE)
  from op_of_runs [OF this] run have "Other (MStart (Some (ErrText ''lost''))) \<in> set cs"
    by (auto simp: main_def run_main_def newManager_def integrate_def SetupWithManager_def addHealthz_def addReadyz_def startManager_def
        demo_manager_def andThen_def failing_def runs_rules answer_def)
  with exit_status_truthful [OF run, unfolded parse_flags.simps flagResult.case] obtain J
    where cs: "cs = start_calls defaultFlags J (Some (ErrText ''lost''))"
      and code: "code = 0 \<or> code = 1" "code = 0 \<longleftrightarrow> Other (MStart None) \<in> set cs" by (elim conjE) metis
  have "Other (MStart None) \<notin> set (start_calls defaultFlags J (Some (ErrText ''lost'')))" by (simp add: start_calls_def)
  with code cs have "code = 1" by simp
  with run cs show ?thesis by (intro exI [of _ J] exI conjI) simp_all
qed

end
