(* ===== verification/Protocol.thy ===== *)
theory Protocol
  imports Controller_Status
begin

text \<open>
  The reconciler against an abstract specification of what it may do to the cluster and to Convex. The
  specification is an automaton that reads the calls of a pass one by one: where a pass stands, which
  call may come next, and where its outcome leads. A program \<open>follows\<close> an automaton when every run is
  read to the end; the rules for the program constructs are proved once, for every automaton.
\<close>

section \<open>Programs that follow an automaton\<close>

fun steps :: "('s \<Rightarrow> 'c \<Rightarrow> 's option) \<Rightarrow> 's \<Rightarrow> 'c list \<Rightarrow> 's option" where
  "steps delta s [] = Some s"
| "steps delta s (c # cs) = (case delta s c of None \<Rightarrow> None | Some s' \<Rightarrow> steps delta s' cs)"

lemma steps_append: "steps delta s (cs @ ds) = (case steps delta s cs of None \<Rightarrow> None | Some s' \<Rightarrow> steps delta s' ds)"
  by (induction cs arbitrary: s) (auto split: option.split)

definition follows :: "('s \<Rightarrow> 'c \<Rightarrow> 's option) \<Rightarrow> 's \<Rightarrow> ('w, 'c, 'a) prog \<Rightarrow> ('a \<Rightarrow> 's \<Rightarrow> bool) \<Rightarrow> bool" where
  "follows delta s m Q \<longleftrightarrow> (\<forall>w a cs w'. runs m w a cs w' \<longrightarrow> (\<exists>s'. steps delta s cs = Some s' \<and> Q a s'))"

named_theorems follows_intros \<open>rules for programs that follow an automaton\<close>

lemma follows_return [follows_intros]: "Q x s \<Longrightarrow> follows delta s (ret x) Q"
  by (simp add: follows_def runs_return)

lemma follows_ext [follows_intros]: "(\<And>a. \<exists>s'. delta s (mk a) = Some s' \<and> Q a s') \<Longrightarrow> follows delta s (ext f mk) Q"
  unfolding follows_def runs_ext by (auto split: option.splits) (metis option.distinct(1), metis option.inject)

lemma follows_bind:
  assumes "follows delta s m R" "\<And>a s'. R a s' \<Longrightarrow> follows delta s' (f a) Q" "\<And>a. proper (f a)"
  shows "follows delta s (m \<bind> f) Q"
  unfolding follows_def
proof (intro allI impI)
  fix w b cs w'
  assume "runs (m \<bind> f) w b cs w'"
  then obtain a cs1 w1 cs2 where m: "runs m w a cs1 w1" and cs: "cs = cs1 @ cs2" and f: "runs (f a) w1 b cs2 w'"
    by (rule runs_bindE) (rule assms(3))
  from assms(1) m obtain s1 where s1: "steps delta s cs1 = Some s1" "R a s1" unfolding follows_def by blast
  from assms(2) [OF s1(2)] f obtain s2 where "steps delta s1 cs2 = Some s2" "Q b s2" unfolding follows_def by blast
  with s1 show "\<exists>s'. steps delta s cs = Some s' \<and> Q b s'" by (simp add: cs steps_append)
qed

lemma follows_ext_bind:
  assumes "\<And>a. \<exists>s'. delta s (mk a) = Some s' \<and> follows delta s' (k a) Q" "\<And>a. proper (k a)"
  shows "follows delta s (ext f mk \<bind> k) Q"
  by (rule follows_bind [where R = "\<lambda>a s'. delta s (mk a) = Some s' \<and> follows delta s' (k a) Q"])
    (use assms in \<open>auto intro: follows_ext\<close>)

lemma follows_if [follows_intros]:
  "(b \<Longrightarrow> follows delta s m Q) \<Longrightarrow> (\<not> b \<Longrightarrow> follows delta s n Q) \<Longrightarrow> follows delta s (if b then m else n) Q"
  by simp

lemma follows_case_option [follows_intros]:
  "(x = None \<Longrightarrow> follows delta s m Q) \<Longrightarrow> (\<And>y. x = Some y \<Longrightarrow> follows delta s (f y) Q) \<Longrightarrow>
   follows delta s (case x of None \<Rightarrow> m | Some y \<Rightarrow> f y) Q"
  by (cases x) simp_all

lemma follows_case_sum [follows_intros]:
  "(\<And>e. x = Inl e \<Longrightarrow> follows delta s (f e) Q) \<Longrightarrow> (\<And>y. x = Inr y \<Longrightarrow> follows delta s (g y) Q) \<Longrightarrow>
   follows delta s (case x of Inl e \<Rightarrow> f e | Inr y \<Rightarrow> g y) Q"
  by (cases x) simp_all

lemma follows_mono: "follows delta s m R \<Longrightarrow> (\<And>a s'. R a s' \<Longrightarrow> Q a s') \<Longrightarrow> follows delta s m Q"
  unfolding follows_def by blast

text \<open>An automaton with calls that it does not care about, such as reading the clock.\<close>

locale monitor =
  fixes delta :: "'s \<Rightarrow> 'c \<Rightarrow> 's option" and ignored :: "'s \<Rightarrow> 'c \<Rightarrow> bool"
  assumes ignored_stays: "ignored s c \<Longrightarrow> delta s c = Some s"
begin

lemma steps_ignored: "list_all (ignored s) cs \<Longrightarrow> steps delta s cs = Some s"
  by (induction cs) (simp_all add: ignored_stays)

lemma follows_ignored:
  assumes "emits (ignored s) m" "\<And>a. Q a s"
  shows "follows delta s m Q"
  unfolding follows_def
proof (intro allI impI)
  fix w a cs w'
  assume "runs m w a cs w'"
  from emits_runs [OF assms(1) this] have "steps delta s cs = Some s" by (rule steps_ignored)
  with assms(2) show "\<exists>s'. steps delta s cs = Some s' \<and> Q a s'" by blast
qed

end

section \<open>The protocol of a pass\<close>

text \<open>
  Where a pass stands. \<open>Doomed\<close>: the Workload is being deleted and Convex must be told; \<open>Unlinked\<close>: it has
  been, the finalizer may go. \<open>Adopting\<close>: the finalizer must be put on before anything is created;
  \<open>Claimed\<close>, \<open>Deployed\<close>, \<open>Exposed\<close>: nothing, the Deployment, also the Service is up to date. \<open>Failing\<close>: the
  failure is to be recorded; \<open>Reporting\<close>: and reported. \<open>Scanning\<close>, \<open>Releasing\<close>: the pods are being
  judged, the claim was given up and the Workload may be deleted. \<open>Settling\<close>, \<open>Synced\<close>, \<open>Observing\<close>,
  \<open>Told\<close>: towards writing the status.
\<close>

datatype stage = Fetching | Absent | Doomed | Unlinked | Adopting | Claimed | Deployed | Exposed | Failing | Reporting
  | Scanning | Releasing | Settling | Synced | Observing | Told | Ended

definition after_apply :: "stage \<Rightarrow> go_error option \<Rightarrow> stage" where
  "after_apply ok e = (case e of None \<Rightarrow> ok | Some err \<Rightarrow> if IsConflict err then Ended else Failing)"

definition has_finalizer :: "lib \<Rightarrow> workload \<Rightarrow> bool" where
  "has_finalizer L w = containsFinalizer L (w_finalizers w) workloadFinalizer"

definition observed_call :: "notify call \<Rightarrow> stage option" where
  "observed_call c = (case c of CGetDeployment ns n r \<Rightarrow> Some (case r of Inl e \<Rightarrow> Ended | Inr d \<Rightarrow> Observing) | _ \<Rightarrow> None)"

definition settled_call :: "notify call \<Rightarrow> stage option" where
  "settled_call c = (case c of Other (NUpsert i e) \<Rightarrow> Some Synced | _ \<Rightarrow> observed_call c)"

definition deleted_call :: "notify call \<Rightarrow> stage option" where
  "deleted_call c = (case c of
     CDeleteWorkload ns n e \<Rightarrow> Some (case e of None \<Rightarrow> Ended | Some err \<Rightarrow> if IsNotFound err then Ended else Settling)
   | _ \<Rightarrow> None)"

text \<open>\<open>told\<close> says whether a notifier is attached; without one there is nobody to tell.\<close>

definition protocol :: "lib \<Rightarrow> bool \<Rightarrow> stage \<Rightarrow> notify call \<Rightarrow> stage option" where
  "protocol L told s c = (case s of
     Fetching \<Rightarrow> (case c of
         CGetWorkload ns n (Inl e) \<Rightarrow> Some (if IsNotFound e \<and> told then Absent else Ended)
       | CGetWorkload ns n (Inr w) \<Rightarrow> Some (
           if w_deletionTimestamp w \<noteq> None then
             (if \<not> has_finalizer L w then Ended else if told then Doomed else Unlinked)
           else if has_finalizer L w then Claimed else Adopting)
       | _ \<Rightarrow> None)
   | Absent \<Rightarrow> (case c of Other (NRemove n ns e) \<Rightarrow> Some Ended | _ \<Rightarrow> None)
   | Doomed \<Rightarrow> (case c of Other (NRemove n ns e) \<Rightarrow> Some (if e = None then Unlinked else Ended) | _ \<Rightarrow> None)
   | Unlinked \<Rightarrow> (case c of CUpdateWorkload w r \<Rightarrow> if has_finalizer L w then None else Some Ended | _ \<Rightarrow> None)
   | Adopting \<Rightarrow> (case c of
         CUpdateWorkload w r \<Rightarrow> if has_finalizer L w then Some (case r of Inl e \<Rightarrow> Ended | Inr w' \<Rightarrow> Claimed) else None
       | _ \<Rightarrow> None)
   | Claimed \<Rightarrow> (case c of
         CApplyDeployment ns n f e \<Rightarrow> Some (after_apply Deployed e)
       | CStatusUpdate w r \<Rightarrow> if phase (status w) = PhaseFailed then Some (if told then Reporting else Ended) else None
       | _ \<Rightarrow> None)
   | Deployed \<Rightarrow> (case c of CApplyService ns n f e \<Rightarrow> Some (after_apply Exposed e) | _ \<Rightarrow> None)
   | Failing \<Rightarrow> (case c of CStatusUpdate w r \<Rightarrow> if phase (status w) = PhaseFailed then Some (if told then Reporting else Ended) else None | _ \<Rightarrow> None)
   | Reporting \<Rightarrow> (case c of
         Other (NLifecycle n i ph rs again e) \<Rightarrow> if ph = lifecyclePhaseFailed \<and> \<not> again then Some Ended else None
       | _ \<Rightarrow> None)
   | Exposed \<Rightarrow> (case c of
         CListPods ns ls r \<Rightarrow> Some (case r of Inl e \<Rightarrow> Settling | Inr ps \<Rightarrow> Scanning)
       | _ \<Rightarrow> settled_call c)
   | Scanning \<Rightarrow> (case c of
         CNow t \<Rightarrow> Some Scanning
       | Other (NLifecycle n i ph rs again e) \<Rightarrow>
           if ph = lifecyclePhaseFailed \<and> again then Some (if e = None then Releasing else Settling) else None
       | CDeleteWorkload ns n e \<Rightarrow> if told then None else deleted_call c
       | _ \<Rightarrow> settled_call c)
   | Releasing \<Rightarrow> deleted_call c
   | Settling \<Rightarrow> settled_call c
   | Synced \<Rightarrow> observed_call c
   | Observing \<Rightarrow> (case c of
         Other (NLifecycle n i ph rs again e) \<Rightarrow>
           if (ph = lifecyclePhaseActive \<or> ph = lifecyclePhaseStopped) \<and> \<not> again then Some Told else None
       | CStatusUpdate w r \<Rightarrow> Some Ended
       | _ \<Rightarrow> None)
   | Told \<Rightarrow> (case c of CStatusUpdate w r \<Rightarrow> Some Ended | _ \<Rightarrow> None)
   | Ended \<Rightarrow> None)"

definition clock_read :: "stage \<Rightarrow> notify call \<Rightarrow> bool" where
  "clock_read s c \<longleftrightarrow> s = Scanning \<and> is_now c"

interpretation pass: monitor "protocol L told" clock_read for L told
  by unfold_locales (auto simp: clock_read_def is_now_def protocol_def split: call.splits)

section \<open>The reconciler follows it\<close>

definition attached :: "'w workloadNotifier option \<Rightarrow> bool" where
  "attached N \<longleftrightarrow> N \<noteq> None"

lemma attached_simps [simp]: "\<not> attached None" "attached (Some n)"
  by (simp_all add: attached_def)

abbreviation ends :: "'a \<Rightarrow> stage \<Rightarrow> bool" where "ends a s \<equiv> s = Ended"
abbreviation judging :: "stage \<Rightarrow> bool" where "judging s \<equiv> s \<in> {Exposed, Settling, Scanning}"

lemma failed_object_phase [simp]: "phase (status (failed_object L w rs e)) = PhaseFailed"
  by (simp add: failed_object_def)

lemma follows_notifyLifecycle:
  assumes "N = None \<Longrightarrow> Q None s"
    and "\<And>n wid e. attached N \<Longrightarrow> \<exists>s'. protocol L True s (Other (NLifecycle n wid ph rs again e)) = Some s' \<and> Q e s'"
  shows "follows (protocol L (attached N)) s (notifyLifecycle N w ph rs again) Q"
  using assms unfolding notifyLifecycle_def Let_def by (cases N) (auto intro!: follows_intros)

lemma setFailed_follows:
  assumes "s \<in> {Claimed, Failing}"
  shows "follows (protocol L (attached N)) s (setFailedWithReason L K N w rs e) ends"
  unfolding setFailedWithReason_def kube_ops
proof (rule follows_ext_bind)
  fix u :: "go_error + workload"
  let ?s = "if attached N then Reporting else Ended" and ?x = "case u of Inl _ \<Rightarrow> failed_object L w rs e | Inr w' \<Rightarrow> w'"
  have "follows (protocol L (attached N)) ?s (notifyLifecycle N ?x lifecyclePhaseFailed (error_text e) False) ends"
    by (rule follows_notifyLifecycle) (simp_all add: protocol_def)
  then have "follows (protocol L (attached N)) ?s
      (notifyLifecycle N ?x lifecyclePhaseFailed (error_text e) False \<bind> (\<lambda>_. ret (0, Some e))) ends"
    by (rule follows_bind) (auto intro: follows_return)
  with assms show "\<exists>s'. protocol L (attached N) s (CStatusUpdate (failed_object L w rs e) u) = Some s' \<and>
      follows (protocol L (attached N)) s' (notifyLifecycle N ?x lifecyclePhaseFailed (error_text e) False \<bind> (\<lambda>_. ret (0, Some e))) ends"
    by (auto simp: protocol_def)
qed simp

lemma applyFailed_follows:
  "follows (protocol L (attached N)) (after_apply ok (Some e)) (applyFailed L K N w what e) ends"
  by (auto simp: applyFailed_def setFailed_def after_apply_def intro: setFailed_follows follows_return)

lemma scanPods_follows: "follows (protocol L told) Scanning (scanPods K ps m) (\<lambda>_ s'. s' = Scanning)"
  by (rule pass.follows_ignored) (auto simp: clock_read_def intro: emits_mono [OF emits_scanPods])

lemma releaseClaim_follows:
  "follows (protocol L (attached N)) Scanning (releaseClaim K N w m) (\<lambda>r s'. if r then s' = Ended else s' = Settling)"
  unfolding releaseClaim_def
proof (rule follows_bind)
  let ?R = "\<lambda>e s. s = (if e \<noteq> None then Settling else if attached N then Releasing else Scanning)"
  show "follows (protocol L (attached N)) Scanning
      (notifyLifecycle N w lifecyclePhaseFailed (''insufficient cluster capacity: '' @ m) True) ?R"
    by (rule follows_notifyLifecycle) (simp_all add: protocol_def)
  show "follows (protocol L (attached N)) s (case e of Some _ \<Rightarrow> ret False
     | None \<Rightarrow> deleteWorkload K (w_namespace w) (w_name w) \<bind> (\<lambda>d. ret (case d of None \<Rightarrow> True | Some e \<Rightarrow> IsNotFound e)))
     (\<lambda>r s'. if r then s' = Ended else s' = Settling)" if "?R e s" for e s
    using that unfolding kube_ops
    by (auto intro!: follows_intros follows_ext_bind simp: protocol_def deleted_call_def split: option.splits)
qed (simp add: kube_ops)

lemma checkUnschedulable_follows:
  "follows (protocol L (attached N)) Exposed (checkUnschedulable K N w sel) (\<lambda>r s'. if r then s' = Ended else judging s')"
proof -
  let ?P = "protocol L (attached N)" and ?Q = "\<lambda>r s'. if r then s' = Ended else judging s'"
  have scan: "follows ?P Scanning (scanPods K pods [] \<bind> (\<lambda>msg. if msg = [] then ret False else releaseClaim K N w msg)) ?Q" for pods
    by (rule follows_bind [OF scanPods_follows])
      (auto intro!: follows_intros follows_mono [OF releaseClaim_follows] split: if_splits)
  show ?thesis unfolding checkUnschedulable_def kube_ops
    by (intro follows_if follows_return follows_ext_bind)
      (auto simp: protocol_def intro!: follows_return follows_case_sum follows_mono [OF scan] split: sum.splits if_splits)
qed

lemma syncConvex_follows:
  assumes "judging s"
  shows "follows (protocol L (attached N)) s (syncConvex L N w) (\<lambda>_ s'. judging s' \<or> s' = Synced)"
proof (cases N)
  case None
  with assms show ?thesis by (auto simp: syncConvex_def notifyUpserted_def Let_def intro!: follows_intros)
next
  case (Some n)
  with assms show ?thesis
    by (auto simp: syncConvex_def notifyUpserted_def Let_def protocol_def settled_call_def intro!: follows_intros follows_ext_bind)
qed

lemma syncLifecycle_follows:
  assumes "ph = lifecyclePhaseActive \<or> ph = lifecyclePhaseStopped"
  shows "follows (protocol L (attached N)) Observing (syncConvexLifecyclePhase L N w ph) (\<lambda>_ s'. s' \<in> {Observing, Told})"
  unfolding syncConvexLifecyclePhase_def Let_def
proof (intro follows_if follows_return)
  have "follows (protocol L (attached N)) Observing (notifyLifecycle N w ph [] False) (\<lambda>_ s'. s' \<in> {Observing, Told})"
    by (rule follows_notifyLifecycle) (use assms in \<open>auto simp: protocol_def\<close>)
  then show "follows (protocol L (attached N)) Observing (notifyLifecycle N w ph [] False \<bind>
      (\<lambda>r. ret (cond_status (lifecycleCondition w ph r) = ConditionTrue, setCondition L w (lifecycleCondition w ph r))))
      (\<lambda>_ s'. s' \<in> {Observing, Told})"
    by (rule follows_bind) (auto intro: follows_return)
qed simp

lemma updateStatus_follows:
  "follows (protocol L (attached N)) Observing (updateStatus L N w d) (\<lambda>_ s'. s' \<in> {Observing, Told})"
  unfolding updateStatus_def Let_def
  by (intro follows_if follows_return follows_bind [OF syncLifecycle_follows]) (auto intro!: follows_return split: prod.splits)

lemma writeStatus_follows:
  "follows (protocol L (attached N)) Observing (writeStatus L K N w d b) ends"
  unfolding writeStatus_def kube_ops
  by (rule follows_bind [OF updateStatus_follows])
    (auto simp: protocol_def intro!: follows_ext_bind follows_return split: prod.splits)

lemma observe_follows:
  assumes "judging s"
  shows "follows (protocol L (attached N)) s (observe L K N ns n w) ends"
  unfolding observe_def kube_ops
proof (rule follows_bind [OF syncConvex_follows [OF assms]])
  fix a :: "bool \<times> workload" and s'
  assume "judging s' \<or> s' = Synced"
  then show "follows (protocol L (attached N)) s' (case a of (b, w1) \<Rightarrow> ext (k_getDeployment K ns n) (CGetDeployment ns n) \<bind>
      (\<lambda>g. case g of Inl e \<Rightarrow> ret (0, Some (Wrap ''getting deployment for status: '' e [])) | Inr d \<Rightarrow> writeStatus L K N w1 d b)) ends"
    by (auto simp: protocol_def settled_call_def observed_call_def intro!: follows_ext_bind follows_return writeStatus_follows
        split: prod.splits sum.splits)
qed (simp split: prod.splits)

lemma settle_follows: "follows (protocol L (attached N)) Exposed (settle L K N ns n w) ends"
  unfolding settle_def
  by (rule follows_bind [OF checkUnschedulable_follows]) (auto intro!: follows_return observe_follows split: if_splits)

lemma reconcileLive_follows: "follows (protocol L (attached N)) Claimed (reconcileLive L K N ns n w) ends"
proof (cases "render L w")
  case (Inl e)
  then show ?thesis by (simp add: reconcileLive_def setFailed_follows)
next
  case (Inr r)
  let ?P = "protocol L (attached N)"
  let ?served = "\<lambda>es. case es of Some e \<Rightarrow> applyFailed L K N w ''reconciling service: '' e | None \<Rightarrow> settle L K N ns n w"
  let ?S = "reconcileService L K w (selectorLabels w) (objectLabels w) r \<bind> ?served"
  let ?deployed = "\<lambda>ed. case ed of Some e \<Rightarrow> applyFailed L K N w ''reconciling deployment: '' e | None \<Rightarrow> ?S"
  have "follows ?P (after_apply Exposed es) (?served es) ends" for es
    by (cases es) (simp_all add: applyFailed_follows, simp add: after_apply_def settle_follows)
  then have service: "follows ?P Deployed ?S ends"
    unfolding reconcileService_def applyService_def
    by (intro follows_ext_bind) (simp_all add: protocol_def [of _ _ Deployed])
  have "follows ?P (after_apply Deployed ed) (?deployed ed) ends" for ed
    by (cases ed) (simp_all add: applyFailed_follows, simp add: after_apply_def service)
  then have "follows ?P Claimed (reconcileDeployment L K w (selectorLabels w) (objectLabels w) r \<bind> ?deployed) ends"
    unfolding reconcileDeployment_def applyDeployment_def
    by (intro follows_ext_bind) (simp_all add: protocol_def [of _ _ Claimed])
  then show ?thesis by (simp add: reconcileLive_def Inr)
qed

lemma notifyRemoved_follows:
  "follows (protocol L (attached N)) (if attached N then Doomed else Unlinked) (notifyRemoved N ns n)
     (\<lambda>e s. s = (if e = None then Unlinked else Ended))"
  by (cases N) (auto simp: notifyRemoved_def protocol_def intro!: follows_intros)

lemma reconcileDelete_follows:
  assumes "finalizer_laws L"
  shows "follows (protocol L (attached N)) (if \<not> has_finalizer L w then Ended else if attached N then Doomed else Unlinked)
    (reconcileDelete L K N w) ends"
proof (cases "has_finalizer L w")
  case True
  let ?P = "protocol L (attached N)" and ?w = "w\<lparr>w_finalizers := removeFinalizer L (w_finalizers w) workloadFinalizer\<rparr>"
  let ?k = "updateWorkload K ?w \<bind>
    (\<lambda>u. ret (case u of Inl e \<Rightarrow> (0, Some (Wrap ''removing workload finalizer: '' e [])) | Inr _ \<Rightarrow> (0, None)))"
  have drop: "follows ?P Unlinked ?k ends" unfolding kube_ops
    by (rule follows_ext_bind) (auto simp: protocol_def has_finalizer_def finalizer_lawsD [OF assms] intro!: follows_return)
  have "follows ?P (if attached N then Doomed else Unlinked)
      (notifyRemoved N (w_namespace w) (w_name w) \<bind>
       (\<lambda>e. case e of Some _ \<Rightarrow> ret (statusRequeueInterval, None) | None \<Rightarrow> ?k)) ends"
    by (rule follows_bind [OF notifyRemoved_follows])
      (auto intro: drop [unfolded kube_ops] follows_return simp: kube_ops split: option.splits)
  with True show ?thesis by (simp add: reconcileDelete_def has_finalizer_def)
qed (simp add: reconcileDelete_def has_finalizer_def follows_return)

lemma ensureFinalizer_follows:
  assumes "finalizer_laws L"
  shows "follows (protocol L told) (if has_finalizer L w then Claimed else Adopting) (ensureFinalizer L K w)
    (\<lambda>r s. s = (case r of Inl e \<Rightarrow> Ended | Inr w' \<Rightarrow> Claimed))"
  unfolding ensureFinalizer_def kube_ops
  by (auto simp: has_finalizer_def finalizer_lawsD [OF assms] protocol_def intro!: follows_intros)

text \<open>C19: The reconciler refines its protocol. Whatever the API server and Convex answer, the calls of a pass
  are a complete word of the automaton: it reads the Workload first; of one being deleted it touches
  only the finalizer, and only once Convex acknowledged the removal; on a live one it puts the
  finalizer before it applies anything, the Deployment before the Service, and both before the
  status; it records a failure before reporting it, and never after a conflict; it deletes a stuck
  Workload only after giving up the claim; and a healthy pass ends with the status.\<close>

theorem reconcile_refines_protocol:
  assumes "finalizer_laws L" "runs (Reconcile L K N ns n) w (q, err) cs w'"
  shows "steps (protocol L (attached N)) Fetching cs = Some Ended"
proof -
  let ?P = "protocol L (attached N)"
  have gone: "follows ?P (if attached N then Absent else Ended) (notifyRemoved N ns n \<bind> (\<lambda>_. ret (0, None))) ends"
    by (cases N) (auto simp: notifyRemoved_def protocol_def intro!: follows_ext_bind follows_return)
  have live: "follows ?P (if has_finalizer L x then Claimed else Adopting) (ensureFinalizer L K x \<bind> (\<lambda>f. case f of
      Inl e \<Rightarrow> ret (0, Some (Wrap ''adding finalizer: '' e [])) | Inr w1 \<Rightarrow> reconcileLive L K N ns n w1)) ends" for x
    by (rule follows_bind [OF ensureFinalizer_follows [OF assms(1)]])
      (auto intro: follows_return reconcileLive_follows split: sum.splits)
  let ?k = "\<lambda>g. case g of
       Inl e \<Rightarrow> if IsNotFound e then notifyRemoved N ns n \<bind> (\<lambda>_. ret (0, None))
         else ret (0, Some (Wrap ''getting Workload: '' e []))
     | Inr w \<Rightarrow> if w_deletionTimestamp w \<noteq> None then reconcileDelete L K N w
         else ensureFinalizer L K w \<bind> (\<lambda>f. case f of
           Inl e \<Rightarrow> ret (0, Some (Wrap ''adding finalizer: '' e [])) | Inr w1 \<Rightarrow> reconcileLive L K N ns n w1)"
  have "\<exists>s'. ?P Fetching (CGetWorkload ns n g) = Some s' \<and> follows ?P s' (?k g) ends" for g
    using gone live reconcileDelete_follows [OF assms(1), of N _ K]
    by (cases g) (auto simp: protocol_def [of _ _ Fetching] intro: follows_return split: if_splits)
  then have "follows ?P Fetching (Reconcile L K N ns n) ends"
    unfolding Reconcile_def getWorkload_def by (rule follows_ext_bind) simp
  with assms(2) show ?thesis unfolding follows_def by blast
qed

end
