(* ===== verification/Convergence.thy ===== *)
theory Convergence
  imports Protocol
begin

text \<open>
  The end of the requeue cycle, from the other side: when the cluster and Convex do their part, a
  single pass brings a Workload to rest, and from there on passes change nothing and tell nobody.
\<close>

section \<open>Rest\<close>

definition at_rest :: "lib \<Rightarrow> workload \<Rightarrow> deployment \<Rightarrow> bool" where
  "at_rest L y d \<longleftrightarrow> w_deletionTimestamp y = None \<and> has_finalizer L y \<and>
     synced_for L conditionTypeConvexSynced y \<and> synced_for L conditionTypeConvexLifecycleSynced y \<and>
     (is_running y d \<and> phase (status y) = PhaseRunning \<or> is_stopped y d \<and> phase (status y) = PhaseStopped)"

text \<open>A call that was answered well: reads and writes succeed, the Deployment reported is \<open>d\<close>, Convex takes
  what it is told, and the claim is not given up.\<close>

definition answered_well :: "deployment \<Rightarrow> notify call \<Rightarrow> bool" where
  "answered_well d c = (case c of
     CGetWorkload ns n r \<Rightarrow> (case r of Inl e \<Rightarrow> False | Inr y \<Rightarrow> w_deletionTimestamp y = None)
   | CUpdateWorkload x r \<Rightarrow> r = Inr x
   | CApplyDeployment ns n f e \<Rightarrow> e = None
   | CApplyService ns n f e \<Rightarrow> e = None
   | CGetDeployment ns n r \<Rightarrow> r = Inr d
   | CStatusUpdate x r \<Rightarrow> \<exists>u. r = Inr u
   | CDeleteWorkload ns n e \<Rightarrow> False
   | Other (NUpsert i e) \<Rightarrow> e = None
   | Other (NLifecycle n i ph rs again e) \<Rightarrow> delivered e
   | _ \<Rightarrow> True)"

lemma kept_fields [simp]:
  "w_deletionTimestamp (setCondition L w c) = w_deletionTimestamp w" "w_deletionTimestamp (with_phase w p) = w_deletionTimestamp w"
  "w_deletionTimestamp (observed w d) = w_deletionTimestamp w" "w_finalizers (with_phase w p) = w_finalizers w"
  "w_finalizers (observed w d) = w_finalizers w"
  by (simp_all add: setCondition_def with_phase_def observed_def)

lemma classes_spec: "spec x = spec y \<Longrightarrow> is_running x d = is_running y d \<and> is_stopped x d = is_stopped y d"
  by (simp add: is_running_def is_stopped_def desiredReplicaCount_def)

section \<open>The steps of a good pass\<close>

definition same_object :: "workload \<Rightarrow> workload \<Rightarrow> bool" where
  "same_object x y \<longleftrightarrow> spec x = spec y \<and> w_deletionTimestamp x = w_deletionTimestamp y \<and>
     w_finalizers x = w_finalizers y \<and> w_generation x = w_generation y"

lemma syncConvex_good:
  assumes "condition_laws L" "runs (syncConvex L N y) w (b, x) cs w'" "list_all (answered_well d) cs"
  shows "b \<and> synced_for L conditionTypeConvexSynced x \<and> same_object x y \<and>
    synced_for L conditionTypeConvexLifecycleSynced x = synced_for L conditionTypeConvexLifecycleSynced y \<and>
    (synced_for L conditionTypeConvexSynced y \<longrightarrow> cs = [] \<and> x = y)"
  using assms
  by (auto simp: runs_syncConvex notifyUpserted_def Let_def runs_ext runs_return synced_setCondition same_object_def
      answered_well_def split: option.splits if_splits)

lemma notifyLifecycle_good:
  assumes "runs (notifyLifecycle N y ph rs again) w e cs w'" "list_all (answered_well d) cs"
  shows "delivered e"
proof (cases N)
  case None
  with assms(1) show ?thesis by (simp add: notifyLifecycle_def runs_return delivered_def)
next
  case (Some n)
  with assms(1) obtain wid where "cs = [Other (NLifecycle (w_name y) wid ph rs again e)]"
    by (auto simp: notifyLifecycle_def Let_def runs_ext)
  with assms(2) show ?thesis by (simp add: answered_well_def)
qed

lemma syncLifecycle_good:
  assumes "condition_laws L" "runs (syncConvexLifecyclePhase L N y ph) w (b, x) cs w'" "list_all (answered_well d) cs"
  shows "b \<and> synced_for L conditionTypeConvexLifecycleSynced x \<and> same_object x y \<and> phase (status x) = phase (status y) \<and>
    synced_for L conditionTypeConvexSynced x = synced_for L conditionTypeConvexSynced y \<and>
    (synced_for L conditionTypeConvexLifecycleSynced y \<longrightarrow> cs = [])"
proof (cases "synced_for L conditionTypeConvexLifecycleSynced y")
  case True
  with assms(2) show ?thesis by (simp add: runs_syncLifecycle same_object_def)
next
  case False
  with assms(2) obtain e where e: "runs (notifyLifecycle N y ph [] False) w e cs w'" "b = delivered e"
    "x = setCondition L y (lifecycleCondition y ph e)" by (auto simp: runs_syncLifecycle)
  from notifyLifecycle_good [OF e(1) assms(3)] e(2,3) False assms(1) show ?thesis
    by (simp add: same_object_def synced_setCondition)
qed

lemma synced_observed [simp]: "synced_for L t (observed w d) = synced_for L t w"
  by (simp add: synced_for_def split: option.split)

lemma updateStatus_good:
  assumes "condition_laws L" "runs (updateStatus L N y d) w (b, x) cs w'" "list_all (answered_well d) cs"
    and "is_running y d \<or> is_stopped y d"
  shows "b \<and> synced_for L conditionTypeConvexLifecycleSynced x \<and> same_object x y \<and>
    synced_for L conditionTypeConvexSynced x = synced_for L conditionTypeConvexSynced y \<and>
    (synced_for L conditionTypeConvexLifecycleSynced y \<longrightarrow> cs = []) \<and>
    (is_running x d \<and> phase (status x) = PhaseRunning \<or> is_stopped x d \<and> phase (status x) = PhaseStopped)"
  using assms(2)
proof (cases rule: updateStatus_runs)
  case (stopped z m)
  from syncLifecycle_good [OF assms(1) stopped(2) assms(3)] stopped(1,3) assms(1) show ?thesis
    by (auto simp: same_object_def synced_setCondition is_stopped_def)
next
  case (running z m)
  from syncLifecycle_good [OF assms(1) running(2) assms(3)] running(1,3) assms(1) show ?thesis
    by (auto simp: same_object_def synced_setCondition is_running_def is_stopped_def desiredReplicaCount_def)
qed (use assms(4) in simp_all)

lemma observe_good:
  assumes "condition_laws L" "status_echo K" "runs (observe L K N ns n y) w (q, err) cs w'" "list_all (answered_well d) cs"
    and "is_running y d \<or> is_stopped y d" "has_finalizer L y" "w_deletionTimestamp y = None"
  shows "(q, err) = (0, None) \<and> (\<exists>as x u. cs = as @ [CStatusUpdate x (Inr u)] \<and> at_rest L x d) \<and>
    (at_rest L y d \<longrightarrow> (\<forall>m. Other m \<notin> set cs))"
proof -
  from assms(3) obtain b x as w2 ds where sync: "runs (syncConvex L N y) w (b, x) as w2" and cs: "cs = as @ ds"
    and rest: "runs (getDeployment K ns n \<bind> (\<lambda>g. case g of
        Inl e \<Rightarrow> ret (0, Some (Wrap ''getting deployment for status: '' e [])) | Inr d \<Rightarrow> writeStatus L K N x d b)) w2 (q, err) ds w'"
    unfolding observe_def by (rule runs_pair_bindE) simp
  from rest [unfolded getDeployment_def] obtain g w3 es where ds: "ds = CGetDeployment ns n g # es" and wr: "runs (case g of
        Inl e \<Rightarrow> ret (0, Some (Wrap ''getting deployment for status: '' e [])) | Inr d \<Rightarrow> writeStatus L K N x d b) w3 (q, err) es w'"
    by (rule runs_ext_bindE) simp_all
  from assms(4) have well: "list_all (answered_well d) as" "g = Inr d" "list_all (answered_well d) es"
    by (simp_all add: cs ds answered_well_def)
  from wr well(2) have "runs (writeStatus L K N x d b) w3 (q, err) es w'" by simp
  then obtain b2 z fs w4 gs where up: "runs (updateStatus L N x d) w3 (b2, z) fs w4" and es: "es = fs @ gs"
    and last: "runs (statusUpdate K z \<bind> (\<lambda>u. ret (case u of Inl e \<Rightarrow> (0, Some (Wrap ''updating workload status: '' e []))
          | Inr w2 \<Rightarrow> requeue_decision w2 b b2))) w4 (q, err) gs w'"
    unfolding writeStatus_def by (rule runs_pair_bindE) simp
  from last obtain v where v: "k_statusUpdateWorkload K z w4 = (v, w')" "gs = [CStatusUpdate z v]"
    "(q, err) = (case v of Inl e \<Rightarrow> (0, Some (Wrap ''updating workload status: '' e [])) | Inr w2 \<Rightarrow> requeue_decision w2 b b2)"
    by (auto simp: statusUpdate_def runs_bind runs_ext runs_return)
  with well(3) es obtain u where u: "v = Inr u" and fs: "list_all (answered_well d) fs" by (auto simp: answered_well_def)
  from assms(2) v(1) u have echo: "status u = status z" by (auto simp: status_echo_def)
  note S = syncConvex_good [OF assms(1) sync well(1)]
  then have cls: "is_running x d \<or> is_stopped x d" using assms(5) classes_spec [of x y d] by (simp add: same_object_def)
  note U = updateStatus_good [OF assms(1) up fs cls]
  from U have "phase (status u) = PhaseRunning \<or> phase (status u) = PhaseStopped" by (auto simp: echo)
  then have "(q, err) = (0, None)" using v(3) u S U by (auto simp: requeue_decision_def)
  moreover have "at_rest L z d"
    using S U assms(6,7) by (auto simp: at_rest_def same_object_def has_finalizer_def)
  moreover have "\<forall>m. Other m \<notin> set cs" if "at_rest L y d"
    using that S U by (auto simp: at_rest_def cs ds es v(2))
  ultimately show ?thesis using cs ds es v(2) u by auto
qed

lemma settle_good:
  assumes "condition_laws L" "status_echo K" "runs (settle L K N ns n y) w (q, err) cs w'" "list_all (answered_well d) cs"
    and "is_running y d \<or> is_stopped y d" "has_finalizer L y" "w_deletionTimestamp y = None"
  shows "(q, err) = (0, None) \<and> (\<exists>as x u. cs = as @ [CStatusUpdate x (Inr u)] \<and> at_rest L x d) \<and>
    (at_rest L y d \<longrightarrow> (\<forall>m. Other m \<notin> set cs))"
proof -
  from assms(3) obtain rel as w2 ds where chk: "runs (checkUnschedulable K N y (selectorLabels y)) w rel as w2"
    and cs: "cs = as @ ds" and obs: "runs (if rel then ret (0, None) else observe L K N ns n y) w2 (q, err) ds w'"
    unfolding settle_def by (rule runs_bindE) simp_all
  have "\<not> rel"
  proof
    assume rel
    with chk have "runs (checkUnschedulable K N y (selectorLabels y)) w True as w2" by simp
    note true = checkUnschedulable_True [OF this]
    then obtain a b e where "last as = CDeleteWorkload a b e" by (auto simp: released_def)
    with true(1) have "CDeleteWorkload a b e \<in> set as" using last_in_set [of as] by simp
    with assms(4) cs have "answered_well d (CDeleteWorkload a b e)" by (auto simp: list_all_iff)
    then show False by (simp add: answered_well_def)
  qed
  with obs have "runs (observe L K N ns n y) w2 (q, err) ds w'" by simp
  moreover have "list_all (answered_well d) ds" using assms(4) cs by simp
  ultimately have "(q, err) = (0, None) \<and> (\<exists>as x u. ds = as @ [CStatusUpdate x (Inr u)] \<and> at_rest L x d) \<and>
    (at_rest L y d \<longrightarrow> (\<forall>m. Other m \<notin> set ds))"
    by (rule observe_good [OF assms(1,2) _ _ assms(5-7)])
  moreover have "as = []" if "at_rest L y d"
    using that chk by (auto simp: at_rest_def is_stopped_def checkUnschedulable_def runs_return split: if_splits)
  ultimately show ?thesis using cs by auto
qed

lemma render_finalizers: "render L (y\<lparr>w_finalizers := fs\<rparr>) = render L y"
  by (simp add: render_def legacyRendered_def cong: option.case_cong)

text \<open>C20: The requeue cycle ends. When a live Workload renders, its Deployment has as many ready replicas as it
  asks for, or none while it is suspended, and every call of the pass is answered well, one pass is
  enough: it asks for no further pass and stores a Workload at rest, with the finalizer, the right
  phase and both notifications on record. And rest is stable: a pass over a Workload at rest tells
  Convex nothing and leaves it at rest.\<close>

theorem good_pass_settles:
  assumes "condition_laws L" "finalizer_laws L" "status_echo K" "runs (Reconcile L K N ns n) w (q, err) cs w'"
    and "list_all (answered_well d) cs" "cs ! 0 = CGetWorkload ns n (Inr y)" "render L y = Inr r"
    and "is_running y d \<or> is_stopped y d"
  shows "(q, err) = (0, None) \<and> (\<exists>as x u. cs = as @ [CStatusUpdate x (Inr u)] \<and> at_rest L x d) \<and>
    (at_rest L y d \<longrightarrow> (\<forall>m. Other m \<notin> set cs))"
  using assms(4)
proof (cases rule: Reconcile_runs)
  case (live x fs w2 y' w3 ds)
  from live(2) assms(6) have x: "x = y" by simp
  from live(2) assms(5) have well: "list_all (answered_well d) fs" "list_all (answered_well d) ds" by simp_all
  from live(3) well(1) x have y': "y' = y \<and> has_finalizer L y \<and> fs = [] \<or>
      y' = y\<lparr>w_finalizers := addFinalizer L (w_finalizers y) workloadFinalizer\<rparr> \<and> \<not> has_finalizer L y \<and>
      fs = [CUpdateWorkload y' (Inr y')]"
    by (auto simp: runs_ensureFinalizer Let_def has_finalizer_def answered_well_def split: if_splits)
  then have fin: "has_finalizer L y'" "w_deletionTimestamp y' = None" "spec y' = spec y" "render L y' = Inr r"
    using live(1) x assms(7) finalizer_lawsD [OF assms(2)] by (auto simp: has_finalizer_def render_finalizers)
  from live(4) show ?thesis
  proof (cases rule: reconcileLive_runs)
    case (applied r' es w4)
    have "is_running y' d \<or> is_stopped y' d" using assms(8) classes_spec [OF fin(3)] by simp
    from settle_good [OF assms(1,3) applied(3) _ this fin(1,2)] applied(2) well(2)
    have "(q, err) = (0, None) \<and> (\<exists>as x u. es = as @ [CStatusUpdate x (Inr u)] \<and> at_rest L x d) \<and>
      (at_rest L y' d \<longrightarrow> (\<forall>m. Other m \<notin> set es))" by simp
    with live(2) applied(2) y' show ?thesis by (auto simp: at_rest_def)
  qed (use fin(4) well(2) in \<open>simp_all add: answered_well_def\<close>)
qed (use assms(5,6) in \<open>auto simp: answered_well_def runs_ensureFinalizer Let_def split: if_splits\<close>)

section \<open>Witnesses\<close>

theorem reconcile_refines_protocol_witness:
  "\<exists>q err cs w'. runs (Reconcile demo_lib (demo_cluster demo_workload) (Some (demo_notifier None)) ''ns'' ''web'') 0 (q, err) cs w' \<and>
     steps (protocol demo_lib True) Fetching cs = Some Ended"
proof -
  let ?R = "Reconcile demo_lib (demo_cluster demo_workload) (Some (demo_notifier None)) ''ns'' ''web''"
  obtain q err cs w' where run: "runs ?R 0 (q, err) cs w'" using runs_total [of ?R 0] by (metis surj_pair)
  from reconcile_refines_protocol [OF demo_finalizer_laws run] run show ?thesis by (intro exI conjI) simp_all
qed

theorem good_pass_settles_witness:
  "\<exists>cs as x u. runs (Reconcile demo_lib demo_ready None ''ns'' ''web'') 0 (0, None) cs 0 \<and>
     cs = as @ [CStatusUpdate x (Inr u)] \<and> at_rest demo_lib x ((demo_deployment None)\<lparr>d_readyReplicas := 1\<rparr>)"
proof -
  let ?d = "(demo_deployment None)\<lparr>d_readyReplicas := 1\<rparr>"
  obtain ls y where run: "runs (Reconcile demo_lib demo_ready None ''ns'' ''web'') 0 (0, None) (demo_calls ls y) 0"
    using demo_pass by (elim exE)
  have well: "list_all (answered_well ?d) (demo_calls ls y)" by (simp add: answered_well_def)
  have up: "is_running demo_workload ?d \<or> is_stopped demo_workload ?d"
    by (simp add: is_running_def is_stopped_def desiredReplicaCount_def DefaultReplicas_def empty_spec_def)
  from good_pass_settles [OF demo_condition_laws demo_finalizer_laws demo_ready_echo run well nth_Cons_0 demo_render up]
  obtain as x u where "demo_calls ls y = as @ [CStatusUpdate x (Inr u)]" "at_rest demo_lib x ?d"
    by (elim conjE exE) (rule that)
  with run show ?thesis by (intro exI [of _ "demo_calls ls y"] exI [of _ as] exI [of _ x] exI [of _ u] conjI)
qed

end
