(* ===== verification/WellFormed.thy ===== *)
theory WellFormed
  imports Controller_Status
begin

text \<open>
  The objects the reconciler applies are of the form Kubernetes accepts. The predicates follow the API
  documentation: DNS labels, port names and numbers, label values, mounts of declared volumes, target
  ports and probes that meet a container port. For a raw image the container port and the environment
  are the user's; nothing in the CRD schema (api/v1alpha1/workload_types.go) bounds them.
\<close>

section \<open>Names and values\<close>

definition lower_alnum :: "char \<Rightarrow> bool" where
  "lower_alnum c \<longleftrightarrow> (let n = (of_char c :: nat) in 97 \<le> n \<and> n \<le> 122 \<or> 48 \<le> n \<and> n \<le> 57)"

definition dns_label :: "string \<Rightarrow> bool" where
  "dns_label s \<longleftrightarrow> s \<noteq> [] \<and> length s \<le> 63 \<and> lower_alnum (hd s) \<and> lower_alnum (last s) \<and>
     list_all (\<lambda>c. lower_alnum c \<or> c = CHR ''-'') s"

definition port_name :: "string \<Rightarrow> bool" where
  "port_name s \<longleftrightarrow> dns_label s \<and> length s \<le> 15 \<and> (\<exists>c \<in> set s. 97 \<le> (of_char c :: nat))"

definition port_number :: "int32 \<Rightarrow> bool" where
  "port_number p \<longleftrightarrow> 1 \<le> sint p \<and> sint p \<le> 65535"

text \<open>A label value: empty, or up to 63 characters that begin and end with an alphanumeric one.\<close>

definition label_value :: "string \<Rightarrow> bool" where
  "label_value s \<longleftrightarrow> s = [] \<or> length s \<le> 63 \<and> alnum (hd s) \<and> alnum (last s) \<and>
     list_all (\<lambda>c. alnum c \<or> c = CHR ''.'' \<or> c = CHR ''_'' \<or> c = CHR ''-'') s"

lemma sanitizeLabelValue_exact: "sanitizeLabelValue s = (if s \<noteq> [] \<and> label_value s then Some s else None)"
  by (auto simp: sanitizeLabelValue_def labelValueRe_def label_value_def label_char_def maxLabelValueLen_def list_all_iff)

lemma dns_label_value: "dns_label s \<Longrightarrow> label_value s"
  by (auto simp: dns_label_def label_value_def lower_alnum_def alnum_def Let_def list_all_iff)

section \<open>Pods and services\<close>

definition wf_container :: "volume list \<Rightarrow> container \<Rightarrow> bool" where
  "wf_container vs c \<longleftrightarrow> dns_label (c_name c) \<and> c_image c \<noteq> [] \<and>
     list_all (\<lambda>p. port_number (cp_containerPort p) \<and> (cp_name p = [] \<or> port_name (cp_name p))) (c_ports c) \<and>
     list_all (\<lambda>m. vm_name m \<in> v_name ` set vs \<and> vm_mountPath m \<noteq> []) (c_volumeMounts c) \<and>
     distinct (map vm_mountPath (c_volumeMounts c)) \<and>
     list_all (\<lambda>e. ev_name e \<noteq> []) (c_env c) \<and>
     (\<forall>p \<in> set_option (c_livenessProbe c) \<union> set_option (c_readinessProbe c). pr_httpPort p \<in> cp_containerPort ` set (c_ports c))"

definition wf_rendered :: "rendered \<Rightarrow> bool" where
  "wf_rendered r \<longleftrightarrow> r_containers r \<noteq> [] \<and>
     list_all (wf_container (r_volumes r)) (r_containers r @ r_initContainers r) \<and>
     distinct (map c_name (r_containers r @ r_initContainers r)) \<and>
     list_all (\<lambda>v. dns_label (v_name v)) (r_volumes r) \<and> distinct (map v_name (r_volumes r)) \<and>
     r_servicePorts r \<noteq> [] \<and> distinct (map sp_name (r_servicePorts r)) \<and>
     list_all (\<lambda>s. dns_label (sp_name s) \<and> port_number (sp_port s) \<and>
       (\<exists>c \<in> set (r_containers r). sp_targetPort s \<in> cp_containerPort ` set (c_ports c))) (r_servicePorts r)"

text \<open>A spec whose port is the default or a port number, and whose variables have names.\<close>

definition sane_spec :: "workloadSpec \<Rightarrow> bool" where
  "sane_spec s \<longleftrightarrow> (containerPort s = 0 \<or> port_number (containerPort s)) \<and> list_all (\<lambda>e. ev_name e \<noteq> []) (env s)"

section \<open>The catalog\<close>

lemmas name_defs = templateIDNginx_def templateIDFirefox_def templateIDChrome_def templateIDWebtop_def portNameHTTP_def
  portNameHTTPS_def dshmVolumeName_def configVolumeName_def

lemma names_ok [simp]:
  "dns_label templateIDNginx" "dns_label templateIDFirefox" "dns_label templateIDChrome" "dns_label templateIDWebtop"
  "dns_label ''restore-profile''" "dns_label ''workload''" "dns_label ''http''" "dns_label portNameHTTP" "dns_label portNameHTTPS"
  "dns_label dshmVolumeName" "dns_label configVolumeName"
  by (simp_all add: name_defs dns_label_def lower_alnum_def)

lemma ports_ok [simp]:
  "port_name portNameHTTP" "port_name portNameHTTPS" "port_number 80" "port_number browserHTTPPort" "port_number browserHTTPSPort"
  "port_number defaultContainerPort"
  by (simp_all add: port_name_def name_defs dns_label_def lower_alnum_def port_number_def browserHTTPPort_def browserHTTPSPort_def
      defaultContainerPort_def)

lemma names_distinct [simp]:
  "templateIDFirefox \<noteq> ''restore-profile''" "templateIDChrome \<noteq> ''restore-profile''" "templateIDWebtop \<noteq> ''restore-profile''"
  "configVolumeName \<noteq> dshmVolumeName" "browserConfigMountPath \<noteq> ''/dev/shm''" "browserConfigMountPath \<noteq> []"
  "envProfileDownloadURL \<noteq> []"
  by (simp_all add: name_defs browserConfigMountPath_def envProfileDownloadURL_def)

lemmas wf_defs = wf_rendered_def wf_container_def

lemma linuxserver_env_named [simp]: "list_all (\<lambda>e. ev_name e \<noteq> []) linuxserver_env"
  by (simp add: linuxserver_env_def)

lemma catalog_well_formed:
  assumes "Get L i = Some t" "t_build t ps = Inr r"
  shows "wf_rendered r"
  using assms(1)
proof (cases rule: Get_cases)
  case 1
  with assms(2) show ?thesis by (auto simp: template_defs build_defs wf_defs empty_container_def)
qed (use assms(2) in \<open>auto simp: template_defs build_defs wf_defs empty_container_def config_volume_def dshm_volume_def
    restoreProfileInitContainer_def browser_ports_def browserProbe_def\<close>)

lemma legacy_well_formed:
  "wf_rendered (legacyRendered y) \<longleftrightarrow> image (spec y) \<noteq> [] \<and> sane_spec (spec y)"
  by (auto simp: legacyRendered_def Let_def wf_defs sane_spec_def empty_container_def empty_rendered_def)

section \<open>What the reconciler applies\<close>

text \<open>C37: What the reconciler applies is what Kubernetes accepts. A template workload always renders to a
  well-formed pod and service: names are DNS labels and distinct, ports are port numbers, mounts name
  declared volumes, and every service port and probe meets a container port. A raw image does so
  exactly when its own port and variable names are sane. The labels put on the objects all have valid
  values exactly when the name and the uid of the Workload are valid label values, which every name
  that is a DNS label is, though a longer name, which the API server takes for a Workload, is not; the
  owner's id is among the labels exactly when it is a valid value.\<close>

theorem rendered_well_formed:
  assumes "render L y = Inr r"
  shows "(wf_rendered r \<longleftrightarrow> templateName (spec y) \<noteq> [] \<or> sane_spec (spec y)) \<and>
    ((\<forall>k v. objectLabels y k = Some v \<longrightarrow> label_value v) \<longleftrightarrow> label_value (w_name y) \<and> label_value (w_uid y)) \<and>
    (dns_label (w_name y) \<longrightarrow> label_value (w_name y)) \<and>
    (objectLabels y labelUserID \<noteq> None \<longleftrightarrow> userID (spec y) \<noteq> [] \<and> label_value (userID (spec y)))"
proof (intro conjI)
  show "wf_rendered r \<longleftrightarrow> templateName (spec y) \<noteq> [] \<or> sane_spec (spec y)"
  proof (cases "templateName (spec y) = []")
    case True
    with assms show ?thesis by (auto simp: render_def legacy_well_formed split: if_splits)
  next
    case False
    with assms obtain t ps where "Get L (templateName (spec y)) = Some t" "t_build t ps = Inr r"
      by (auto simp: render_def split: option.splits sum.splits)
    with False show ?thesis using catalog_well_formed by blast
  qed
  have "label_value ManagedByValue" by (simp add: label_value_def ManagedByValue_def alnum_def)
  then show "(\<forall>k v. objectLabels y k = Some v \<longrightarrow> label_value v) \<longleftrightarrow> label_value (w_name y) \<and> label_value (w_uid y)"
  proof (intro iffI conjI)
    assume all: "\<forall>k v. objectLabels y k = Some v \<longrightarrow> label_value v"
    have "objectLabels y labelName = Some (w_name y)" "objectLabels y labelInstance = Some (w_uid y)"
      by (simp_all add: objectLabels_def selectorLabels_def labelUserID_def labelName_def labelInstance_def ManagedBy_def
          split: option.split)
    with all show "label_value (w_name y)" "label_value (w_uid y)" by blast+
  qed (auto simp: objectLabels_def selectorLabels_def sanitizeLabelValue_exact split: option.splits if_splits)
  show "dns_label (w_name y) \<longrightarrow> label_value (w_name y)" by (simp add: dns_label_value)
  show "objectLabels y labelUserID \<noteq> None \<longleftrightarrow> userID (spec y) \<noteq> [] \<and> label_value (userID (spec y))"
    by (auto simp: objectLabels_def selectorLabels_def sanitizeLabelValue_exact labelUserID_def labelName_def labelInstance_def
        ManagedBy_def)
qed

theorem rendered_well_formed_witness:
  "\<not> wf_rendered (legacyRendered (demo_workload\<lparr>spec := empty_spec\<lparr>image := ''nginx'', containerPort := 70000\<rparr>\<rparr>)) \<and>
   wf_rendered (legacyRendered demo_workload)"
proof -
  let ?y = "demo_workload\<lparr>spec := empty_spec\<lparr>image := ''nginx'', containerPort := 70000\<rparr>\<rparr>"
  have "render demo_lib ?y = Inr (legacyRendered ?y)" by (simp add: render_def empty_spec_def)
  from rendered_well_formed [OF this] have "\<not> wf_rendered (legacyRendered ?y)"
    by (simp add: sane_spec_def port_number_def empty_spec_def)
  moreover from rendered_well_formed [OF demo_render] have "wf_rendered (legacyRendered demo_workload)"
    by (simp add: sane_spec_def empty_spec_def)
  ultimately show ?thesis by simp
qed

end
