(* ===== verification/Registration.thy ===== *)
theory Registration
  imports Setup
begin

text \<open>
  What Convex reads when the operator speaks to it. Every request body of the client
  (internal/convexclient/client.go) is JSON that reads back as the document written; from the body of
  a registration Convex learns the operator's tags only when they were configured, and the whole
  catalog.
\<close>

section \<open>Bodies are JSON\<close>

text \<open>A float64 is written as a number of the grammar.\<close>

definition literal_floats :: "floatText \<Rightarrow> bool" where
  "literal_floats F \<longleftrightarrow> (\<forall>r. number_literal (ft_format F r))"

fun plain_value :: "gvalue \<Rightarrow> bool" where
  "plain_value (VList _) = False"
| "plain_value (VMap _) = False"
| "plain_value _ = True"

definition plain_parameter :: "parameter \<Rightarrow> bool" where
  "plain_parameter p \<longleftrightarrow> plain_value (par_default p) \<and> (case par_visibility p of None \<Rightarrow> True
     | Some v \<Rightarrow> plain_value (vis_value v) \<and> list_all plain_value (vis_values v))"

definition plain_template :: "template \<Rightarrow> bool" where
  "plain_template t \<longleftrightarrow> list_all plain_parameter (t_parameters t) \<and>
     list_all (\<lambda>x. list_all plain_parameter (op_parameters x)) (t_operations t)"

lemma writable_mono: "writable n v \<Longrightarrow> n \<le> m \<Longrightarrow> writable m v"
proof (induction n v arbitrary: m rule: writable.induct)
  case (2 n vs)
  have "writable (m - 1) v" if "v \<in> set vs" for v using 2(1) [OF that, of "m - 1"] 2(2,3) that by simp
  with 2(2,3) show ?case by simp
next
  case (3 n kvs)
  have "writable (m - 1) v" if "(k, v) \<in> set kvs" for k v
    using 3(1) [OF that refl, of "m - 1"] 3(2,3) that by auto
  with 3(2,3) show ?case by auto
qed simp_all

lemma writable_omit [simp]:
  "(k, v) \<in> set (omit_string a s) \<Longrightarrow> writable n v"
  "(k, v) \<in> set (omit_false a b) \<Longrightarrow> writable n v"
  by (auto simp: omit_string_def omit_false_def split: if_splits)

lemma writable_any: "literal_floats F \<Longrightarrow> plain_value v \<Longrightarrow> writable n (any_json F v)"
  by (cases v) (auto simp: literal_floats_def)

lemma writable_parameter:
  assumes "literal_floats F" "plain_parameter p" "3 \<le> n"
  shows "writable n (parameter_json F p)"
proof -
  have f: "number_literal (ft_format F r)" for r using assms(1) by (simp add: literal_floats_def)
  have "writable 1 (dataSource_json (par_dataSource p))" by (auto simp: dataSource_json_def)
  moreover have "writable 2 (visibility_json F v)" if "par_visibility p = Some v" for v
    using assms(1,2) that
    by (auto simp: visibility_json_def omit_nil_def omit_list_def plain_parameter_def list_all_iff intro: writable_any split: if_splits)
  moreover have "writable 1 (validation_json F (par_validation p))"
    by (auto simp: validation_json_def omit_none_def f split: option.splits)
  moreover have "writable 2 (any_json F (par_default p))"
    using assms(1,2) by (intro writable_any) (simp_all add: plain_parameter_def)
  ultimately have "writable 3 (parameter_json F p)"
    by (auto simp: parameter_json_def omit_nil_def omit_list_def omit_none_def selectOption_json_def
        split: if_splits option.splits elim: writable_mono)
  with assms(3) show ?thesis by (rule writable_mono [rotated])
qed

lemma writable_template:
  assumes "literal_floats F" "plain_template t"
  shows "writable 7 (template_json F t)"
proof -
  have "writable 6 (slice_json (parameter_json F) (t_parameters t))"
    using assms by (auto simp: slice_json_def plain_template_def list_all_iff intro: writable_parameter)
  moreover have "writable 6 (slice_json entrypoint_json (t_entrypoints t))"
    by (auto simp: slice_json_def entrypoint_json_def)
  moreover have "writable 5 (operation_json F x)" if "x \<in> set (t_operations t)" for x
    using assms that
    by (auto simp: operation_json_def slice_json_def plain_template_def list_all_iff intro: writable_parameter)
  ultimately show ?thesis
    by (auto simp: template_json_def omit_list_def split: if_splits)
qed

lemma plain_templates: "t \<in> set (templates L) \<Longrightarrow> plain_template t"
  by (auto simp: templates_def plain_template_def plain_parameter_def template_defs Nginx_parameters_def browserParameters_def
      backupStateFunction_def param_def when_restoring_def)

text \<open>Every request but a registration with metadata, which the operator never sends.\<close>

fun plain_wire :: "wire \<Rightarrow> bool" where
  "plain_wire (WRegister r) = (rg_Metadata r = None \<and> list_all plain_template (rg_Catalog r))"
| "plain_wire _ = True"

lemmas request_json_defs = heartbeatRequest_json_def resourceCapacityWire_json_def liveUsage_members_def int64_json_def
  claimWorkloadRequest_json_def claimOperationRequest_json_def reportLifecycleRequest_json_def upsertWorkloadRequest_json_def
  verifyGatewayTokenRequest_json_def removeWorkloadRequest_json_def metricsReportRequest_json_def metricSampleRequest_json_def

lemma wire_writable:
  assumes "literal_floats F" "plain_wire v"
  shows "writable 9 (wire_json F v)"
proof (cases v)
  case (WRegister r)
  have "writable 8 (slice_json (template_json F) (rg_Catalog r))"
    using assms WRegister by (auto simp: slice_json_def list_all_iff intro: writable_template)
  with assms WRegister show ?thesis
    by (auto simp: registerRequest_json_def omit_map_def omit_none_def split: option.splits)
qed (use assms(1) in \<open>auto simp: request_json_defs omit_none_def literal_floats_def split: option.splits\<close>)

lemma request_read_back:
  assumes "literal_floats (cv_floats C)" "plain_wire v" "runs (post C url what token v) w r cs w'"
    and "Other (HDo rq u a) \<in> set cs"
  shows "u = v \<and> rq_url rq = url \<and> Decode (rq_body rq) = Some (scrub (wire_json (cv_floats C) v))"
proof -
  have "writable maxNestingDepth (wire_json (cv_floats C) v)"
    by (rule writable_mono [OF wire_writable [OF assms(1,2)]]) (simp add: maxNestingDepth_def)
  from read_json_encode(2) [OF this, of "[]"]
  have "Decode (encode (wire_json (cv_floats C) v)) = Some (scrub (wire_json (cv_floats C) v))" by simp
  with assms(3,4) show ?thesis by (cases rule: post_runs) (auto simp: post_request_def)
qed

section \<open>What a registration tells\<close>

lemma scrub_members: "map_of (map (\<lambda>(k, v). (to_valid k, scrub v)) ms) k = map_option scrub (map_of ms k)"
  if "\<forall>(k, v) \<in> set ms. to_valid k = k"
  using that by (induction ms) auto

text \<open>C26: From every registration Convex reads exactly what was configured. The body is JSON; its member
  \<open>tags\<close> is there exactly when \<open>OPERATOR_TAGS\<close> is set, as the list of tags even when that is empty, so
  that unset tags never overwrite tags set by an administrator; the name and the enrollment secret are
  those of the configuration, and the catalog is the whole registry, each template without its
  code. The request carries no token.\<close>

theorem registration_read_by_convex:
  assumes "literal_floats (cv_floats (pf_convex P))"
    and "runs (Client_Register (pf_lib P) (pf_convex P) (NewClientConfig P secret)) w r cs w'"
    and "Other (HDo rq v a) \<in> set cs"
  shows "\<exists>ms. Decode (rq_body rq) = Some (JObj ms) \<and>
    map_of ms ''tags'' = map_option (\<lambda>ts. JArr (map (\<lambda>t. JStr (to_valid t)) ts)) (operatorTags (pf_lookupEnv P ''OPERATOR_TAGS'')) \<and>
    map_of ms ''name'' = Some (JStr (to_valid (getenv P ''OPERATOR_NAME''))) \<and>
    map_of ms ''enrollmentSecret'' = Some (JStr (to_valid secret)) \<and>
    map_of ms ''catalog'' = Some (JArr (map (\<lambda>t. scrub (template_json (cv_floats (pf_convex P)) t)) (templates (pf_lib P)))) \<and>
    rq_headers rq ''Authorization'' = None"
proof -
  let ?c = "NewClientConfig P secret" and ?F = "cv_floats (pf_convex P)"
  let ?r = "\<lparr>rg_Name = OperatorName ?c, rg_ExternalURL = ExternalURL ?c, rg_EnrollmentSecret = EnrollmentSecret ?c,
    rg_Metadata = Metadata ?c, rg_Catalog = List_templates (pf_lib P), rg_OperatorVersion = Version ?c, rg_Tags = Tags ?c\<rparr>"
  from assms(2) obtain q where post: "runs (post (pf_convex P) (BaseURL ?c @ ''/operators/register'') ''register'' None
      (WRegister ?r)) w q cs w'"
    unfolding Client_Register_def by (rule runs_bindE) (auto simp: runs_return)
  have "plain_wire (WRegister ?r)"
    using plain_templates by (auto simp: NewClientConfig_def List_templates_def list_all_iff)
  note body = request_read_back [OF assms(1) this post assms(3)]
  have hdr: "rq_headers rq ''Authorization'' = None"
    using post assms(3) by (cases rule: post_runs) (auto simp: post_request_def)
  obtain ms where ms: "registerRequest_json ?F ?r = JObj ms" by (simp add: registerRequest_json_def)
  have keys: "\<forall>(k, v) \<in> set ms. to_valid k = k"
    using ms by (auto simp: registerRequest_json_def omit_map_def omit_string_def omit_none_def NewClientConfig_def
        split: option.splits if_splits)
  have "templates (pf_lib P) \<noteq> []" by (simp add: templates_def)
  then have "map_of ms ''tags'' = map_option (\<lambda>ts. JArr (map JStr ts)) (operatorTags (pf_lookupEnv P ''OPERATOR_TAGS''))"
    "map_of ms ''name'' = Some (JStr (getenv P ''OPERATOR_NAME''))" "map_of ms ''enrollmentSecret'' = Some (JStr secret)"
    "map_of ms ''catalog'' = Some (JArr (map (template_json ?F) (templates (pf_lib P))))"
    using ms by (auto simp: registerRequest_json_def omit_none_def omit_map_def omit_string_def NewClientConfig_def
        List_templates_def slice_json_def split: option.splits)
  moreover have "Decode (rq_body rq) = Some (JObj (map (\<lambda>(k, v). (to_valid k, scrub v)) ms))"
    using body ms by simp
  ultimately show ?thesis using hdr scrub_members [OF keys]
    by (intro exI [of _ "map (\<lambda>(k, v). (to_valid k, scrub v)) ms"]) (simp add: option.map_comp comp_def)
qed

theorem registration_read_by_convex_witness:
  "\<exists>r cs w' rq v a ms. runs (Client_Register demo_lib (demo_convex 200 :: nat convex) (NewClientConfig demo_platform ''s'')) 0 r cs w' \<and>
     Other (HDo rq v a) \<in> set cs \<and> Decode (rq_body rq) = Some (JObj ms) \<and> map_of ms ''tags'' = None \<and>
     map_of ms ''name'' = Some (JStr ''op'')"
proof -
  let ?c = "NewClientConfig demo_platform ''s''"
  have P: "pf_lib demo_platform = demo_lib" "pf_convex demo_platform = demo_convex 200"
    "getenv demo_platform ''OPERATOR_NAME'' = ''op''" "pf_lookupEnv demo_platform ''OPERATOR_TAGS'' = None"
    by (simp_all add: demo_platform_def getenv_def mget_def)
  have F: "literal_floats (cv_floats (pf_convex demo_platform))" by (simp add: P literal_floats_def int_floats_def)
  have "\<exists>r rq v a. runs (Client_Register demo_lib (demo_convex 200 :: nat convex) ?c) 0 r [Other (HDo rq v a)] 0"
    by (simp add: Client_Register_def post_def runs_rules)
  then obtain r rq v a where run: "runs (Client_Register demo_lib (demo_convex 200 :: nat convex) ?c) 0 r [Other (HDo rq v a)] 0" by (elim exE)
  from registration_read_by_convex [OF F, unfolded P, OF run] obtain ms where
    "Decode (rq_body rq) = Some (JObj ms)" "map_of ms ''tags'' = None" "map_of ms ''name'' = Some (JStr ''op'')"
    by (auto simp: operatorTags_def)
  with run show ?thesis by (intro exI conjI) (assumption | simp)+
qed

end
