(* ===== verification/Spec2Isabelle.thy ===== *)
theory Spec2Isabelle
  imports Process Convergence WellFormed Registration
begin

text \<open>
  A verification development for the ai-cloud operator, a Kubernetes operator that runs user
  workloads (a web server, browsers, desktops) from a fixed catalog of templates on behalf of a
  Convex backend. Paths below are relative to src/.

  \<^bold>\<open>How programs are modelled.\<close> Pure Go functions are HOL functions. Code that calls the API
  server, the backend or the clock is a state-monad program over a world of an unknown type and
  the history of the external calls made (theory \<open>Prelude\<close>); the external operations are
  parameters (\<open>lib\<close>, \<open>'w kube\<close>, \<open>'w workloadNotifier\<close> of theories \<open>Kube\<close> and \<open>Controller\<close>), so a
  theorem about a run holds whatever the rest of the cluster does between two calls. \<open>runs m w a
  cs w'\<close> says that program \<open>m\<close> ends with result \<open>a\<close> after the calls \<open>cs\<close>. Errors are values of
  \<open>go_error\<close>, a sum with the repository's own error variables, API errors and wrapping.
  Machine integers are words. No fuel is used: the loops over text (\<open>parse_segments\<close>, \<open>parse_flags\<close>,
  \<open>unquote\<close>, \<open>read_json\<close>, \<open>trim_left\<close>) end by a measure, the text left, and the loops that wait, the
  \<open>Start\<close> methods, consume the list of events they receive, so a list without a cancellation leaves them \<open>Waiting\<close>.

  \<^bold>\<open>The program.\<close> The reconciler keeps a Deployment and a Service per Workload object and tells
  Convex about them. The claim loop registers the operator, sends heartbeats with the free capacity
  and the live usage, claims work that Convex offers and creates, redeploys, stops or destroys
  Workloads for it; a reporter sends network samples. The HTTP API lets Convex manage Workloads with
  a deploy token, and lets browsers reach a running workload through the gateway with a one-time
  token that is exchanged for a signed cookie. Start-up loads the keys and wires these parts.

  \<^bold>\<open>Theories.\<close>
  \<^item> \<open>Prelude\<close>, \<open>Go_Std\<close>, \<open>Base64\<close>: the effect calculus; strings, errors, dynamic values, numbers and
    base64url of Go.
  \<^item> \<open>JsonText\<close>, \<open>JsonValues\<close>: \<open>encoding/json\<close>, which every body and stored configuration goes through.
    Texts: escaping, UTF-8 repair, number literals, the scanner as a pushdown automaton with its bound
    of 10000 on nesting; Go values: dynamic values, maps, and the matching of object members to
    struct fields. What was written is read back (\<open>read_json_encode\<close>), and what was read can be written.
  \<^item> \<open>Kube\<close>: the CRD types (api/v1alpha1/workload_types.go), the labels (internal/labels), the
    fragments of Kubernetes objects the operator uses, the library and API-server parameters with
    the laws relied on, and concrete instances of them for evaluation.
  \<^item> \<open>Catalog\<close>, \<open>Templates\<close>: internal/catalog. Parameter resolution in two passes, visibility and
    validation; the four templates, each an instance of the locale \<open>catalog_template\<close>; the JSON of
    the catalog and its hash.
  \<^item> \<open>Capacity\<close>: internal/capacity, snapshots in wrapping int64 arithmetic.
  \<^item> \<open>Provisioning\<close>: internal/provisioning, writing Workload objects.
  \<^item> \<open>Controller\<close>, \<open>Controller_Correct\<close>, \<open>Controller_Status\<close>: internal/controller. The reconciler,
    function by function; the order of its calls; status, synchronisation and requeueing.
  \<^item> \<open>Protocol\<close>, \<open>Convergence\<close>, \<open>WellFormed\<close>: the reconciler against its specifications: an automaton
    that reads the calls of a pass (locale \<open>monitor\<close>), rest as the end of the requeue cycle, and the
    form of the objects Kubernetes accepts.
  \<^item> \<open>TokenStore\<close>: internal/tokenstore, the credentials kept in a Secret.
  \<^item> \<open>Metrics\<close>: internal/metrics, network samples and live usage from the text of kubelet summaries.
  \<^item> \<open>ConvexWire\<close>, \<open>ConvexClient\<close>: internal/convexclient/client.go. The JSON of every request and
    response; every endpoint as one request with its errors.
  \<^item> \<open>Runnable\<close>, \<open>Runnable_Correct\<close>, \<open>Runnable_Props\<close>: internal/convexclient/runnable.go and
    enrollment.go. Registration, heartbeats, the claim loops and secret rotation. The readings the
    loop takes are the locale \<open>reading_source\<close>, of which \<open>Snapshot\<close> and \<open>CollectUsage\<close> are instances.
  \<^item> \<open>Gateway\<close>: internal/gateway. Session tokens over the locale \<open>text_codec\<close> (base64url is its
    instance), the signing key in a Secret, the status pages and the decision of the proxy.
  \<^item> \<open>PodExec\<close>: internal/podexec, the pod of a workload and a command run in it.
  \<^item> \<open>ApiServer\<close>, \<open>ApiServer_Props\<close>: internal/api, with internal/workloadns. Guards and handlers.
  \<^item> \<open>Routing\<close>: the patterns of internal/api/server.go under \<open>net/http.ServeMux\<close>, from a method and a
    path to a handler.
  \<^item> \<open>Duration\<close>, \<open>Setup\<close>: \<open>time.ParseDuration\<close>; cmd/main.go, \<open>setupConvexIntegration\<close>, with the
    constructors it calls.
  \<^item> \<open>System\<close>: the credentials of the running operator as an inductive step relation: start-up,
    heartbeats, checks of the enrollment secret and reports, in any order.
  \<^item> \<open>Lifecycle\<close>: the \<open>Start\<close> methods of the runnable, the reporter, the tracker and the API server.
  \<^item> \<open>Registration\<close>: what Convex reads in a body the operator sends.
  \<^item> \<open>Process\<close>: \<open>main\<close>, from the command line to the exit status, and \<open>SetupWithManager\<close>.

  \<^bold>\<open>What the properties show.\<close> For the reconciler: conflicts are never reported as failures, the
  finalizer brackets the life of the children and the removal notice, a claim is released before
  its Workload is deleted, what is applied is what the spec asks for, the phase is determined by
  the observed replicas, the requeue cycle ends only in a settled state and does end when every
  call is answered well, every pass is a word of the protocol automaton, and what is applied has the
  form Kubernetes accepts. For the catalog: resolution is characterised declaratively, never
  panics and is idempotent; every template renders, is routable and costs what was estimated;
  no parameter reaches a command line. For capacity: the arithmetic is exact within its bounds.
  For provisioning: only accepted configurations are written, with an exact frame. For the claim
  loop: a creation needs a granted claim at the claimed version, every granted claim is answered
  by an object or a failure report, what one heartbeat creates stays within the capacity read, the
  work per heartbeat is bounded, a rotated enrollment secret leads to a registration with it at the
  next check, and in every reachable state the credentials are current, were saved or accepted, and
  are the only ones presented. For the gateway and the
  API: the management routes belong to the holder of the deploy token; nothing is forwarded
  without a verified session for that very workload; a token in the URL is never answered from a
  cookie; the exchange leads to a session that is served; signing and verifying are inverse within
  scope and time; replicas converge on one key; a deploy writes at most one accepted object; a
  function runs one fixed command in a running pod of its workload. For start-up: the steps happen
  in order, every call of the parts stays in the workload namespace or the operator's own, all parts
  agree on key and token source, the protections hold unless a flag
  is named, intervals are read exactly, and the exit status tells whether the manager ran. For the
  running process: the claim loop sends one heartbeat for every tick until it is cancelled, unless it
  could not register at all, and no address reaches a handler but through its guard.
  Across components: from the text of a deploy request or of a granted claim to the pod, what
  provisioning stores, the controller can render; Convex reads in a registration exactly what was
  configured; every declared entrypoint of a running workload is forwarded to its port; a session
  opened on one replica is served on every other, leader or not.

  \<^bold>\<open>Parameters.\<close> Code outside the repository is a parameter: the API server, Convex's answers, the
  kubelet, the manager and the flags its libraries register, regular expressions, SHA-256 and
  HMAC, the decimal text of a float64 and its reading (\<open>floatText\<close>), the texts of JSON errors,
  Kubernetes' own decoder of an environment variable's source (what it reads is kept), the random source, HTML templating, URL parsing, decimal fractions of a time unit in float64, and
  Kubernetes' quantities, condition and finalizer helpers. Where a property relies on
  their documented behaviour, it says so as a hypothesis, and its witness instantiates them.

  \<^bold>\<open>Not modelled.\<close> Logging, contexts and timeouts (a call that times out is one that fails), the
  transport of proxied bytes and of a SPDY exec stream, the manager's own metrics, generated
  deep-copy code and scheme registration, and the helpers of the end-to-end tests. The manager is a
  parameter whose run returns an error or none: a panic in a component that it runs, which ends the
  Go process with status 2, is shown for the \<open>Start\<close> methods (\<open>Panicked\<close>, lemma
  \<open>negative_interval_crashes\<close>) and not carried to the exit status of \<open>main\<close>.
\<close>

section \<open>Stored configurations render\<close>

lemma jsonUnmarshal_jsonMarshal:
  assumes "float_laws (floats L)" "read_params (floats L) m" "jsonMarshal L m = Inr raw"
  shows "raw \<noteq> []" "jsonUnmarshal L raw = Inr m"
proof -
  from assms(3) have raw: "raw = encode (map_json (floats L) m)" by (simp add: jsonMarshal_def Marshal_def)
  then show "raw \<noteq> []" by (simp add: map_json_def)
  from map_json_back [OF assms(1,2)] raw show "jsonUnmarshal L raw = Inr m" by (simp add: jsonUnmarshal_def)
qed

lemma configToParams_marshalConfig:
  "float_laws (floats L) \<Longrightarrow> read_config (floats L) cfg \<Longrightarrow> marshalConfig L cfg = Inr raw \<Longrightarrow> configToParams L raw = Inr (cfg_map cfg)"
  by (auto simp: read_config_def marshalConfig_def configToParams_def cfg_map_def split: option.splits sum.splits
      dest: jsonUnmarshal_jsonMarshal)

lemma Get_not_empty: "Get L i = Some t \<Longrightarrow> i \<noteq> []"
  by (auto simp: Get_def templates_def template_defs template_id_defs split: if_splits)

lemma proper_createWorkload [simp]: "proper (createWorkload K x)"
  by (simp add: createWorkload_def)

lemma stored_config_renders:
  assumes "float_laws (floats L)" "read_config (floats L) cfg" "accepted L tn cfg raw"
    and "templateName (spec x) = tn" "config (spec x) = raw"
  shows "\<exists>tmpl m r. Get L tn = Some tmpl \<and> ResolveParams L (t_parameters tmpl) (cfg_map cfg) = Inr m \<and>
    t_build tmpl m = Inr r \<and> render L x = Inr r \<and>
    containers_requests L (r_containers r) = EstimatedResources L tmpl"
proof -
  from assms(3) obtain tmpl m where t: "Get L tn = Some tmpl" "ResolveParams L (t_parameters tmpl) (cfg_map cfg) = Inr m"
    "marshalConfig L cfg = Inr raw" by (auto simp: accepted_def)
  note T = Get_template(1) [OF t(1)]
  obtain r where r: "t_build tmpl m = Inr r" using catalog_template.build_total [OF T] by blast
  then have "render L x = Inr r"
    using t assms(4,5) configToParams_marshalConfig [OF assms(1,2) t(3)] Get_not_empty [OF t(1)]
    by (simp add: render_def)
  with t r catalog_template.estimate_exact [OF T r] show ?thesis by auto
qed

text \<open>C12: Whatever text a deploy request has for a body, a Workload that it stored from a template is one
  the controller can render, as the API server returned it with the defaults of the CRD filled in: the
  configuration in the body survives being written to the object and read from it, so that the
  reconciler resolves the same parameters that were validated, \<open>Build\<close> succeeds on them, and the pod requests exactly the resources estimated for the template. The
  Workloads created from a claim have the same property.\<close>

theorem created_workload_renders:
  assumes "float_laws (floats L)" "spec x = crd_default (spec y)"
    and "sv_lib S = L \<and> decodeDeploy S bdy = Some req \<and> runs (handleDeploy S bdy) w rep cs w' \<and>
        tn = dr_TemplateName req \<and> cfg = dr_Config req \<and> tn \<noteq> [] \<and> cs = [CCreateWorkload y (Inr x)] \<or>
      read_claimedWorkload (floats L) bdy = Some c \<and> runs (Create L K ns wid tn uid sub cfg) v (Inr x) ds v' \<and>
        tn = cw_TemplateID c \<and> cfg = cw_Config c \<and> ds = [CCreateWorkload y (Inr x)]"
  shows "\<exists>tmpl m r. Get L tn = Some tmpl \<and> ResolveParams L (t_parameters tmpl) (cfg_map cfg) = Inr m \<and>
    t_build tmpl m = Inr r \<and> render L x = Inr r \<and>
    containers_requests L (r_containers r) = EstimatedResources L tmpl"
proof -
  have "\<exists>ns i u b raw. y = created_object ns i tn u b raw \<and> accepted L tn cfg raw \<and> read_config (floats L) cfg"
    using assms(3)
  proof (elim disjE conjE)
    assume a: "sv_lib S = L" "decodeDeploy S bdy = Some req" "runs (handleDeploy S bdy) w rep cs w'"
      "tn = dr_TemplateName req" "cfg = dr_Config req" "tn \<noteq> []" "cs = [CCreateWorkload y (Inr x)]"
    from deploy_template_created [OF a(2) _ a(3)] a(4-7) obtain raw where
      "accepted (sv_lib S) tn cfg raw" "y = created_object (sv_creator S) [] tn (dr_UserID req) (dr_Subdomain req) raw"
      by auto
    with deploy_config_read [OF a(2)] a(1,5) show ?thesis by blast
  next
    assume a: "read_claimedWorkload (floats L) bdy = Some c" "runs (Create L K ns wid tn uid sub cfg) v (Inr x) ds v'"
      "tn = cw_TemplateID c" "cfg = cw_Config c" "ds = [CCreateWorkload y (Inr x)]"
    from a(2) obtain raw where "accepted L tn cfg raw" "y = created_object ns wid tn uid sub raw"
      by (cases rule: Create_outcome) (use a(5) in auto)
    with claimed_config_read [OF a(1)] a(4) show ?thesis by blast
  qed
  then show ?thesis using stored_config_renders [OF assms(1)] assms(2) by (auto simp: created_object_def crd_default_def)
qed

definition config_body :: string where
  "config_body = encode (JObj [(''templateName'', JStr ''nginx''), (''userId'', JStr ''u''), (''config'', JObj [])])"

lemma decode_config_body: "decodeDeploy demo_server config_body =
    Some (zero_deployRequest\<lparr>dr_TemplateName := ''nginx'', dr_UserID := ''u'', dr_Config := Some Map.empty\<rparr>)"
proof -
  have "Decode config_body = Some (JObj [(''templateName'', JStr ''nginx''), (''userId'', JStr ''u''), (''config'', JObj [])])"
    unfolding config_body_def by (subst read_json_encode(2) [of _ "[]", simplified]) (simp_all add: maxNestingDepth_def)
  then show ?thesis
    by (simp add: decodeDeploy_def read_struct_def deployRequest_fields_def json_struct_defs to_map_def from_members_def
        zero_deployRequest_def)
qed

definition defaulting_server :: "nat server" where
  "defaulting_server = demo_server\<lparr>sv_kube := api_kube\<lparr>k_createWorkload := (\<lambda>x. answer (Inr (x\<lparr>spec := crd_default (spec x)\<rparr>)))\<rparr>\<rparr>"

lemma defaulting_server_simps:
  "sv_lib defaulting_server = demo_lib" "sv_creator defaulting_server = ''ns''"
  "sv_kube defaulting_server = api_kube\<lparr>k_createWorkload := (\<lambda>x. answer (Inr (x\<lparr>spec := crd_default (spec x)\<rparr>)))\<rparr>"
  "decodeDeploy defaulting_server b = decodeDeploy demo_server b"
  by (simp_all add: defaulting_server_def demo_server_def decodeDeploy_def)

theorem created_workload_renders_witness:
  "\<exists>rep x y cs m r. runs (handleDeploy defaulting_server config_body) 0 rep cs 0 \<and> replicas (spec x) = Some 1 \<and>
     ResolveParams demo_lib (t_parameters (Nginx demo_lib)) Map.empty = Inr m \<and>
     t_build (Nginx demo_lib) m = Inr r \<and> render demo_lib x = Inr r \<and> cs = [CCreateWorkload y (Inr x)]"
proof -
  let ?S = defaulting_server and ?y = "created_object ''ns'' [] ''nginx'' ''u'' [] (Some ''{}'')"
  let ?x = "?y\<lparr>spec := crd_default (spec ?y)\<rparr>"
  have G: "Get demo_lib ''nginx'' = Some (Nginx demo_lib)"
    by (simp add: Get_def templates_def template_defs template_id_defs)
  have "ResolveParams demo_lib (t_parameters (Nginx demo_lib)) Map.empty =
      Inr (applyDefaults (t_parameters (Nginx demo_lib)) Map.empty)"
    by (simp add: ResolveParams_def Nginx_def Nginx_parameters_def param_def no_validation_def
      is_visible_def present_def vget_def checkValidation_def param_key_defs)
  with G have "runs (Create demo_lib (sv_kube ?S) ''ns'' [] ''nginx'' ''u'' [] (Some Map.empty)) 0
      (Inr ?x) [CCreateWorkload ?y (Inr ?x) :: gcall call] 0"
    by (simp add: Create_def marshalConfig_def cfg_map_def created_object_def runs_rules defaulting_server_simps answer_def)
  then have "\<exists>rep. runs (deployTemplate ?S (zero_deployRequest\<lparr>dr_TemplateName := ''nginx'', dr_UserID := ''u'',
      dr_Config := Some Map.empty\<rparr>)) 0 rep [CCreateWorkload ?y (Inr ?x)] 0"
    by (auto simp: deployTemplate_def defaulting_server_simps zero_deployRequest_def runs_bind runs_return)
  then have "\<exists>rep. runs (handleDeploy ?S config_body) 0 rep [CCreateWorkload ?y (Inr ?x)] 0"
    by (simp add: handleDeploy_def decode_config_body deployRejected_def zero_deployRequest_def defaulting_server_simps)
  then obtain rep where run: "runs (handleDeploy ?S config_body) 0 rep [CCreateWorkload ?y (Inr ?x)] 0" by (elim exE)
  have x: "spec ?x = crd_default (spec ?y)" by simp
  have L: "sv_lib ?S = demo_lib" "float_laws (floats demo_lib)" by (simp_all add: defaulting_server_simps int_float_laws)
  have D: "decodeDeploy ?S config_body = Some (zero_deployRequest\<lparr>dr_TemplateName := ''nginx'', dr_UserID := ''u'',
      dr_Config := Some Map.empty\<rparr>)" by (simp add: defaulting_server_simps decode_config_body)
  have "cfg_map (Some Map.empty) = Map.empty" by (simp add: cfg_map_def)
  with created_workload_renders [where L = demo_lib and x = ?x and y = ?y and tn = "''nginx''" and cfg = "Some Map.empty",
      OF L(2) x disjI1, OF conjI [OF L(1) conjI [OF D conjI [OF run]]]]
  obtain m r where "ResolveParams demo_lib (t_parameters (Nginx demo_lib)) Map.empty = Inr m"
    "t_build (Nginx demo_lib) m = Inr r" "render demo_lib ?x = Inr r" using G by (auto simp: zero_deployRequest_def)
  moreover have "replicas (spec ?x) = Some 1" by (simp add: crd_default_def created_object_def empty_spec_def)
  ultimately show ?thesis using run by blast
qed

section \<open>Declared entrypoints are served\<close>

text \<open>C30: Every entrypoint a template declares can be reached through the gateway. For a Workload of a
  catalog template, once the Service the reconciler applies for it exists and the Workload is
  Running, a request for a declared entrypoint that got past the guard is forwarded to that Service
  at the port the template renders under the entrypoint's name.\<close>

theorem entrypoints_served:
  assumes "Get L (templateName (spec x)) = Some tmpl" "render L x = Inr r" "e \<in> set (t_entrypoints tmpl)"
    and "mutateService L x sel obj r svc0 = Inr svc" "gq_entrypoint q = ep_name e"
    and "k_getWorkload K (px_namespace P) (gq_name q) w = (Inr wl, w1)" "phase (status wl) = PhaseRunning"
    and "k_getService K (px_namespace P) (gq_name q) w1 = (Inr svc, w2)"
    and "runs (Handler L html P K q :: ('w, 'n, 'b reply) kprog) w rep cs w'"
  shows "\<exists>sp \<in> set (r_servicePorts r). sp_name sp = ep_name e \<and> rep = forward P q (sp_port sp)"
proof -
  note T = Get_template(1) [OF assms(1)]
  have "templateName (spec x) \<noteq> []" using Get_not_empty [OF assms(1)] .
  with assms(1,2) obtain m where "t_build tmpl m = Inr r" by (auto simp: render_def split: sum.splits if_splits)
  from catalog_template.entrypoint_routable [OF T this assms(3)]
  obtain sp where "sp \<in> set (r_servicePorts r)" "sp_name sp = ep_name e" by blast
  with find_port_exists [of sp "r_servicePorts r"] obtain port where port: "find_port (r_servicePorts r) (ep_name e) = Some port"
    by auto
  have ports: "s_ports svc = r_servicePorts r"
    using assms(4) by (auto simp: mutateService_def Let_def split: sum.splits)
  with port have "s_ports svc \<noteq> []" by auto
  then have "rep = forward P q port"
    using assms(5-9) port ports
    by (auto simp: Handler_def serveService_def getWorkload_def getService_def runs_bind runs_ext runs_return phase_defs)
  with find_port_Some [OF port] show ?thesis by blast
qed

theorem entrypoints_served_witness:
  "\<exists>svc (sp :: servicePort) rep cs w'. runs (Handler demo_lib (\<lambda>d. Inr []) demo_proxy (gw_kube\<lparr>k_getService := (\<lambda>ns n. answer (Inr svc))\<rparr>)
       demo_request :: (nat, gcall, unit reply) kprog) 0 rep cs w' \<and>
     sp_name sp = ''http'' \<and> rep = forward demo_proxy demo_request (sp_port sp)"
proof -
  define x where "x = empty_workload\<lparr>spec := empty_spec\<lparr>templateName := ''nginx''\<rparr>\<rparr>"
  have G: "Get demo_lib (templateName (spec x)) = Some (Nginx demo_lib)"
    by (simp add: x_def Get_def templates_def template_defs template_id_defs)
  have "\<exists>r. render demo_lib x = Inr r"
    using G by (simp add: render_def x_def empty_spec_def configToParams_def ResolveParams_def Nginx_def Nginx_parameters_def
      Nginx_Build_def param_def no_validation_def is_visible_def present_def vget_def checkValidation_def param_key_defs)
  then obtain r where r: "render demo_lib x = Inr r" by (elim exE)
  obtain svc where svc: "mutateService demo_lib x Map.empty Map.empty r
      \<lparr>s_name = ''w1'', s_namespace = ''ns'', s_labels = Map.empty, s_selector = Map.empty, s_ports = [], s_owners = []\<rparr> = Inr svc"
    by (simp add: mutateService_def Let_def)
  define K where "K = gw_kube\<lparr>k_getService := (\<lambda>ns n. answer (Inr svc))\<rparr>"
  define e where "e = \<lparr>ep_name = portNameHTTP, ep_label = entrypointLabelWeb\<rparr>"
  define wl where "wl = empty_workload\<lparr>w_name := ''w1'', w_namespace := ''ns'', status := empty_status\<lparr>phase := PhaseRunning\<rparr>\<rparr>"
  let ?H = "Handler demo_lib (\<lambda>d. Inr []) demo_proxy K demo_request :: (nat, gcall, unit reply) kprog"
  obtain rep cs w' where run: "runs ?H 0 rep cs w'" using runs_total [of ?H 0] by (elim exE)
  have h: "e \<in> set (t_entrypoints (Nginx demo_lib))" "gq_entrypoint demo_request = ep_name e"
    "k_getWorkload K (px_namespace demo_proxy) (gq_name demo_request) 0 = (Inr wl, 0)" "phase (status wl) = PhaseRunning"
    "k_getService K (px_namespace demo_proxy) (gq_name demo_request) 0 = (Inr svc, 0)"
    by (simp_all add: e_def Nginx_def demo_request_def portNameHTTP_def K_def gw_kube_def wl_def demo_proxy_def answer_def)
  have http: "ep_name e = ''http''" by (simp add: e_def portNameHTTP_def)
  from entrypoints_served [OF G r h(1) svc h(2-5) run, unfolded http] obtain sp :: servicePort where "sp_name sp = ''http''"
    "rep = forward demo_proxy demo_request (sp_port sp)" by (elim bexE conjE)
  with run [unfolded K_def] show ?thesis by (intro exI conjI)
qed

section \<open>Sessions on every replica\<close>

text \<open>C27: A browser session works on every replica, leader or not. The API needs no leader election; and two
  replicas of one configuration that loaded the same signing key, whatever credentials each of them
  holds, run the same program for a request that comes with a session cookie and no token: they accept
  and refuse the same cookies, look up the same workload and forward to the same target.\<close>

theorem session_served_on_every_replica:
  assumes "runs (setupConvexIntegration P) w (Inr I) cs w'" "runs (setupConvexIntegration P) v (Inr J) ds v'"
    and "Other (SSigningKey a (Inr key)) \<in> set cs" "Other (SSigningKey b (Inr key)) \<in> set ds"
    and "query_get (gq_query q) ''token'' = []"
  shows "\<not> NeedLeaderElection OperatorApi \<and>
    serve (ig_server I s) auth bdy (RGateway q) = serve (ig_server J s') auth' bdy' (RGateway q)"
proof -
  have server: "\<exists>px. NewServiceProxy P (workloadNamespace P) = Inr px \<and> ig_server I s = NewServer P key px s"
    if "runs (setupConvexIntegration P) w (Inr I) cs w'" "Other (SSigningKey a (Inr key)) \<in> set cs" for I w cs w' a s
    using that(1) by (rule setup_runs_Inr) (use that(2) in auto)
  from server [OF assms(1,3), of s] obtain px where I: "NewServiceProxy P (workloadNamespace P) = Inr px" "ig_server I s = NewServer P key px s"
    by (elim exE conjE)
  with server [OF assms(2,4), of s'] have J: "ig_server J s' = NewServer P key px s'" by auto
  have "serve (NewServer P key px s) auth bdy (RGateway q) = serve (NewServer P key px s') auth' bdy' (RGateway q)"
    using assms(5) by (simp add: serve_def requireGatewayToken_def NewServer_def cong: option.case_cong sum.case_cong)
  with I(2) J show ?thesis by simp
qed

theorem session_served_on_every_replica_witness:
  "\<exists>I cs w'. runs (setupConvexIntegration demo_platform) 0 (Inr I) cs w' \<and>
     serve (ig_server I (ig_state I)) [] [] (RGateway session_request) =
     serve (ig_server I ((ig_state I)\<lparr>rs_tokens := no_tokens\<lparr>DeployToken := ''d''\<rparr>\<rparr>)) ''x'' [] (RGateway session_request)"
proof -
  from demo_setup obtain I cs w' where run: "runs (setupConvexIntegration demo_platform) 0 (Inr I) cs w'" by (elim exE)
  then obtain a key where key: "Other (SSigningKey a (Inr key)) \<in> set cs" by (elim setup_runs_Inr) auto
  have "query_get (gq_query session_request) ''token'' = []" by (simp add: session_request_def query_get_def)
  from session_served_on_every_replica [OF run run key key this] run show ?thesis by blast
qed

section \<open>Closed until registered\<close>

lemma unregistered_server:
  assumes "runs (setupConvexIntegration P) w (Inr I) cs w1"
  shows "\<not> valid_bearer (ig_server I (ig_state I)) auth"
  using assms by (rule setup_runs_Inr) (simp add: NewServer_def CurrentDeployToken_def no_tokens_def valid_bearer_def)

text \<open>A life of the API on a replica whose claim loop has not started: requests that are not for the gateway.\<close>

definition standby_event :: "'w integration \<Rightarrow> apiEvent \<Rightarrow> bool" where
  "standby_event I e = (case e of
     Request s q \<Rightarrow> s = ig_state I \<and> \<not> asks_gateway q
   | ListenReturned r \<Rightarrow> r = ServerClosed
   | Cancelled \<Rightarrow> False)"

definition turned_away :: "httpReply \<Rightarrow> bool" where
  "turned_away rep = (case rep of Handled b \<Rightarrow> b = handleHealthz \<or> unauthorized b | _ \<Rightarrow> True)"

lemma standby_refuses:
  assumes "runs (setupConvexIntegration P) w (Inr I) cs w1" "list_all (standby_event I) es"
    and "runs (Server_Start (ig_server I) shutdown es) w2 (res, reps) ds w3"
  shows "res = Waiting \<and> ds = [] \<and> w3 = w2 \<and> list_all turned_away reps"
  using assms(2,3)
proof (induction "ig_server I" shutdown es arbitrary: w2 reps ds rule: Server_Start.induct)
  case (2 shutdown s q es)
  from 2(2) have s: "s = ig_state I" "\<not> asks_gateway q" and es: "list_all (standby_event I) es" by (simp_all add: standby_event_def)
  from 2(3) [unfolded Server_Start.simps] obtain rep cs1 w4 cs2 where one: "runs (ServeHTTP (ig_server I s) q) w2 rep cs1 w4"
    and ds: "ds = cs1 @ cs2" and rest: "runs (Server_Start (ig_server I) shutdown es \<bind> (\<lambda>(r, reps). ret (r, rep # reps))) w4 (res, reps) cs2 w3"
    by (rule runs_bindE) simp_all
  from rest obtain reps' where more: "runs (Server_Start (ig_server I) shutdown es) w4 (res, reps') cs2 w3" and reps: "reps = rep # reps'"
    by (auto simp: runs_bind runs_return)
  from request_refused [OF one _ s(2)] unregistered_server [OF assms(1)] s(1)
  have "cs1 = []" "w4 = w2" "turned_away rep" by (simp_all add: turned_away_def)
  with 2(1) [OF es more] ds reps show ?case by simp
qed (auto simp: standby_event_def runs_return)

text \<open>A replica that has not registered manages nothing. The API server needs no leader election but the
  claim loop that brings the deploy token does; and with the server and the state that a successful
  start-up produces, every sequence of requests outside the gateway, whatever headers they carry,
  is answered with health checks, 401, redirects and errors of the multiplexer only, without a call
  to the cluster.\<close>

lemma standby_manages_nothing:
  assumes "runs (setupConvexIntegration P) w (Inr I) cs w1" "list_all (standby_event I) es"
    and "runs (Server_Start (ig_server I) shutdown es) w2 (res, reps) ds w3"
  shows "\<not> NeedLeaderElection OperatorApi \<and> NeedLeaderElection ConvexRunnable \<and>
    res = Waiting \<and> ds = [] \<and> w3 = w2 \<and> list_all turned_away reps"
  using standby_refuses [OF assms] by simp

end
